(* ===== verification/Sql_Ast.thy ===== *)
theory Sql_Ast
  imports Prelude
begin

text \<open>
  The nodes of the \<^verbatim>\<open>sqlparser\<close> abstract syntax tree that the repository's code
  inspects. The crate itself is not part of the repository, so the types list the
  constructors that the code matches on and keep every other node as one opaque
  constructor that carries its text: the code handles those nodes only through the
  catch-all arms of its matches. Functions of the crate (the \<open>Display\<close> of an expression
  or a select item) are arguments of the definitions that call them, bundled in
  \<open>sql_display\<close>.
\<close>

record ident =
  ident_value :: string
  quote_style :: "char option"

text \<open>\<open>Ident::new\<close>: an unquoted identifier.\<close>

definition ident_new :: "string \<Rightarrow> ident" where
  "ident_new s = \<lparr>ident_value = s, quote_style = None\<rparr>"

lemma ident_new_value [simp]: "ident_value (ident_new s) = s"
  by (simp add: ident_new_def)

datatype sql_value = SingleQuotedString string | Placeholder string | OtherValue string

datatype data_type = DateType | OtherType string

datatype binary_operator = And | Or | Eq | Gt | GtEq | Lt | LtEq | OtherOp string

datatype object_name_part = IdentPart ident | OtherPart string

type_synonym object_name = "object_name_part list"

record table_alias =
  alias_name :: ident
  alias_columns :: "string list"
  alias_explicit :: bool

datatype set_operator = SetUnion | SetExcept | SetIntersect | SetMinus

datatype set_quantifier = QAll | QDistinct | QByName | QAllByName | QDistinctByName | QNone

text \<open>
  \<open>Expr::IsNull\<close>, \<open>IsNotNull\<close>, \<open>IsTrue\<close>, \<open>IsFalse\<close>, \<open>IsNotTrue\<close>, \<open>IsNotFalse\<close>,
  \<open>IsUnknown\<close> and \<open>IsNotUnknown\<close> have the same shape and are one constructor with a tag;
  so are \<open>Like\<close>, \<open>ILike\<close> and \<open>SimilarTo\<close>, and \<open>IsDistinctFrom\<close> with its negation.
\<close>

datatype is_test = IsNull | IsNotNull | IsTrue | IsFalse | IsNotTrue | IsNotFalse | IsUnknown
  | IsNotUnknown

datatype pattern_test = Like bool | ILike bool | SimilarTo

text \<open>
  The nodes that hold expressions or queries without being either are polymorphic in what
  they hold, so that the recursive types below nest them.
\<close>

datatype 'e order_by_expr_of = OrderByExpr (ob_expr: 'e) (ob_options: string)

datatype 'e group_by_expr_of = GroupByAll string | GroupByExpressions "'e list" string

datatype 'e order_by_kind = OrderByExpressions "'e order_by_expr_of list" | OrderByAll string

datatype 'e limit_clause = LimitOffset "'e option" "'e option" | OffsetCommaLimit 'e 'e

datatype 'e case_when = CaseWhen (when_condition: 'e) (when_result: 'e)

datatype 'e function_arg_expr = ArgExpr 'e | ArgQualifiedWildcard string | ArgWildcard

datatype 'e function_arg =
    UnnamedArg "'e function_arg_expr"
  | NamedArg ident "'e function_arg_expr"
  | ExprNamedArg 'e "'e function_arg_expr"

datatype 'e function_arguments = ArgList "'e function_arg list" string | OtherArguments string

datatype 'e window_type = WindowSpec "'e list" string | NamedWindow ident

datatype 'e select_item_of =
    UnnamedExpr 'e
  | ExprWithAlias 'e ident
  | Wildcard string
  | QualifiedWildcard string

datatype 'e join_constraint_of = On 'e | Using "object_name list" | Natural | NoConstraint

datatype 'e join_operator_of =
    InnerJoinOp "'e join_constraint_of"
  | Inner "'e join_constraint_of"
  | LeftJoin "'e join_constraint_of"
  | LeftOuter "'e join_constraint_of"
  | RightJoin "'e join_constraint_of"
  | RightOuter "'e join_constraint_of"
  | FullOuter "'e join_constraint_of"
  | CrossJoin "'e join_constraint_of"
  | Semi "'e join_constraint_of"
  | LeftSemi "'e join_constraint_of"
  | RightSemi "'e join_constraint_of"
  | Anti "'e join_constraint_of"
  | LeftAnti "'e join_constraint_of"
  | RightAnti "'e join_constraint_of"
  | StraightJoin "'e join_constraint_of"
  | AsOf 'e "'e join_constraint_of"
  | CrossApply
  | OuterApply

datatype ('f, 'e) join_of = JoinItem (join_relation: 'f) (join_operator: "'e join_operator_of")

datatype 'q cte_of = Cte (cte_alias: table_alias) (cte_query: 'q) (cte_rest: string)

text \<open>
  Expressions hold queries (subqueries) and queries hold expressions. A string argument at
  the end of a constructor stands for the fields that the code only carries along.
\<close>

datatype expr =
    Identifier ident
  | CompoundIdentifier "ident list"
  | BinaryOp expr binary_operator expr
  | UnaryOp string expr
  | Nested expr
  | Between expr bool expr expr
  | Value sql_value
  | TypedString data_type sql_value
  | Cast expr data_type string
  | Case "expr option" "expr case_when list" "expr option"
  | Function object_name "expr function_arguments" "expr window_type option" string
  | InList expr "expr list" bool
  | InSubquery expr query bool
  | Subquery query
  | Exists query bool
  | IsTest is_test expr
  | IsDistinctFrom bool expr expr
  | Matches pattern_test bool expr expr string
  | Extract string string expr
  | Substring expr "expr option" "expr option" bool bool
  | Trim expr string "expr option" "expr list option"
  | Tuple "expr list"
  | OtherExpr string
and table_factor =
    TableRef object_name "table_alias option" string
  | Derived query "table_alias option" string
  | NestedJoin table_with_joins "table_alias option"
  | TableFunction object_name "expr function_arg list" "table_alias option" bool
  | OtherFactor string
and table_with_joins =
    TableWithJoins (twj_relation: table_factor) (twj_joins: "(table_factor, expr) join_of list")
and select =
    Select (sel_projection: "expr select_item_of list") (sel_from: "table_with_joins list")
      (sel_where: "expr option") (sel_group_by: "expr group_by_expr_of")
      (sel_having: "expr option") (sel_rest: string)
and set_expr =
    SelectBody select
  | QueryBody query
  | SetOperation set_operator set_quantifier set_expr set_expr
  | Values string
  | InsertBody string
  | UpdateBody string
  | OtherBody string
and query =
    Query (query_with: "(bool \<times> query cte_of list) option") (query_body: set_expr)
      (query_order_by: "expr order_by_kind option") (query_limit: "expr limit_clause option")
      (query_fetch: "expr option option") (query_rest: string)

datatype statement = QueryStmt query | InsertStmt | UpdateStmt | DeleteStmt | CreateTableStmt
  | DropStmt | OtherStmt string

type_synonym order_by_expr = "expr order_by_expr_of"
type_synonym group_by_expr = "expr group_by_expr_of"
type_synonym select_item = "expr select_item_of"
type_synonym join_constraint = "expr join_constraint_of"
type_synonym join_operator = "expr join_operator_of"
type_synonym join_item = "(table_factor, expr) join_of"
type_synonym cte = "query cte_of"
type_synonym function_args = "expr function_arg list"

text \<open>The \<open>Display\<close> implementations and the parser of the crate.\<close>

record sql_display =
  fmt_expr :: "expr \<Rightarrow> string"
  fmt_item :: "select_item \<Rightarrow> string"
  fmt_order :: "order_by_expr \<Rightarrow> string"
  fmt_group :: "group_by_expr \<Rightarrow> string"
  fmt_factor :: "table_factor \<Rightarrow> string"
  fmt_alias :: "table_alias \<Rightarrow> string"
  fmt_cte :: "cte \<Rightarrow> string"
  fmt_name :: "object_name \<Rightarrow> string"
  fmt_name_part :: "object_name_part \<Rightarrow> string"
  fmt_set_operator :: "set_operator \<Rightarrow> string"
  fmt_set_quantifier :: "set_quantifier \<Rightarrow> string"
  fmt_statement :: "statement \<Rightarrow> string"
  statement_discriminant :: "statement \<Rightarrow> string"
  set_expr_discriminant :: "set_expr \<Rightarrow> string"

section \<open>The shared helpers of sql/mod.rs\<close>

fun extract_join_constraint :: "join_operator \<Rightarrow> join_constraint option" where
  "extract_join_constraint (InnerJoinOp c) = Some c"
| "extract_join_constraint (Inner c) = Some c"
| "extract_join_constraint (LeftJoin c) = Some c"
| "extract_join_constraint (LeftOuter c) = Some c"
| "extract_join_constraint (RightJoin c) = Some c"
| "extract_join_constraint (RightOuter c) = Some c"
| "extract_join_constraint (FullOuter c) = Some c"
| "extract_join_constraint (CrossJoin c) = Some c"
| "extract_join_constraint (Semi c) = Some c"
| "extract_join_constraint (LeftSemi c) = Some c"
| "extract_join_constraint (RightSemi c) = Some c"
| "extract_join_constraint (Anti c) = Some c"
| "extract_join_constraint (LeftAnti c) = Some c"
| "extract_join_constraint (RightAnti c) = Some c"
| "extract_join_constraint (StraightJoin c) = Some c"
| "extract_join_constraint (AsOf e c) = Some c"
| "extract_join_constraint CrossApply = None"
| "extract_join_constraint OuterApply = None"

definition extract_join_on_expr :: "join_operator \<Rightarrow> expr option" where
  "extract_join_on_expr op =
     (case extract_join_constraint op of Some (On e) \<Rightarrow> Some e | _ \<Rightarrow> None)"

text \<open>
  The mutable variants hand out a reference into the operator; what their caller then writes
  is the operator with its ON expression replaced.
\<close>

fun map_join_constraint :: "(join_constraint \<Rightarrow> join_constraint) \<Rightarrow> join_operator \<Rightarrow> join_operator" where
  "map_join_constraint f (InnerJoinOp c) = InnerJoinOp (f c)"
| "map_join_constraint f (Inner c) = Inner (f c)"
| "map_join_constraint f (LeftJoin c) = LeftJoin (f c)"
| "map_join_constraint f (LeftOuter c) = LeftOuter (f c)"
| "map_join_constraint f (RightJoin c) = RightJoin (f c)"
| "map_join_constraint f (RightOuter c) = RightOuter (f c)"
| "map_join_constraint f (FullOuter c) = FullOuter (f c)"
| "map_join_constraint f (CrossJoin c) = CrossJoin (f c)"
| "map_join_constraint f (Semi c) = Semi (f c)"
| "map_join_constraint f (LeftSemi c) = LeftSemi (f c)"
| "map_join_constraint f (RightSemi c) = RightSemi (f c)"
| "map_join_constraint f (Anti c) = Anti (f c)"
| "map_join_constraint f (LeftAnti c) = LeftAnti (f c)"
| "map_join_constraint f (RightAnti c) = RightAnti (f c)"
| "map_join_constraint f (StraightJoin c) = StraightJoin (f c)"
| "map_join_constraint f (AsOf e c) = AsOf e (f c)"
| "map_join_constraint f CrossApply = CrossApply"
| "map_join_constraint f OuterApply = OuterApply"

definition map_join_on_expr :: "(expr \<Rightarrow> expr) \<Rightarrow> join_operator \<Rightarrow> join_operator" where
  "map_join_on_expr f = map_join_constraint (\<lambda>c. case c of On e \<Rightarrow> On (f e) | _ \<Rightarrow> c)"

lemma extract_map_join_constraint:
  "extract_join_constraint (map_join_constraint f op) = map_option f (extract_join_constraint op)"
  by (cases op) simp_all

lemma extract_map_join_on_expr:
  "extract_join_on_expr (map_join_on_expr f op) = map_option f (extract_join_on_expr op)"
  by (auto simp: map_join_on_expr_def extract_join_on_expr_def extract_map_join_constraint
      split: option.splits join_constraint_of.splits)

lemma join_on_expr_set:
  "extract_join_on_expr op = Some e \<Longrightarrow> e \<in> set_join_operator_of op"
  by (cases op) (auto simp: extract_join_on_expr_def split: join_constraint_of.splits)

section \<open>Sizes of the nested nodes\<close>

text \<open>
  The recursive functions on the tree reach the expressions and queries inside the nested
  nodes; these bounds are what their termination proofs need.
\<close>

lemma size_case_when_parts [termination_simp]:
  "size (when_condition cw) \<le> size_case_when size cw"
  "size (when_result cw) \<le> size_case_when size cw"
  by (cases cw; simp)+

lemma size_in_list [termination_simp]:
  "x \<in> set xs \<Longrightarrow> f x < Suc (size_list f xs)"
  by (induction xs) auto

lemma size_in_option [termination_simp]:
  "x \<in> set_option y \<Longrightarrow> f x < Suc (size_option f y)"
  by (cases y) auto

lemma size_unnamed_arg [termination_simp]:
  "UnnamedArg (ArgExpr e) \<in> set xs \<Longrightarrow> size e < Suc (size_list (size_function_arg size) xs)"
  by (induction xs) auto

lemma size_named_arg [termination_simp]:
  "NamedArg i (ArgExpr e) \<in> set xs \<Longrightarrow> size e < Suc (size_list (size_function_arg size) xs)"
  by (induction xs) auto

lemma size_expr_named_arg [termination_simp]:
  "ExprNamedArg n (ArgExpr e) \<in> set xs \<Longrightarrow> size e < Suc (size_list (size_function_arg size) xs)"
  by (induction xs) auto

end
