(* ===== verification/Sql_Walk.thy ===== *)
theory Sql_Walk
  imports Sql_Ast
begin

text \<open>
  What the recursive walks over the syntax tree share (table discovery, rewriting and
  admission): loops that thread a state, and the sizes that their termination rests on.
\<close>

text \<open>A loop over a list whose body ends with \<open>?\<close>.\<close>

fun fold_ok :: "('a \<Rightarrow> 's \<Rightarrow> 'e + 's) \<Rightarrow> 'a list \<Rightarrow> 's \<Rightarrow> 'e + 's" where
  "fold_ok f [] s = Inr s"
| "fold_ok f (x # xs) s = bind_ok (f x s) (fold_ok f xs)"

lemma fold_ok_cong [fundef_cong]:
  "xs = ys \<Longrightarrow> s = s' \<Longrightarrow> (\<And>x s. x \<in> set ys \<Longrightarrow> f x s = g x s) \<Longrightarrow> fold_ok f xs s = fold_ok g ys s'"
proof (induction ys arbitrary: xs s s')
  case (Cons y ys)
  then show ?case by (auto intro!: bind_ok_cong)
qed simp

text \<open>\<open>bind_ok\<close> for walks: their termination does not depend on the states that they thread.\<close>

definition and_then :: "'e + 's \<Rightarrow> ('s \<Rightarrow> 'e + 't) \<Rightarrow> 'e + 't" where
  "and_then r f = bind_ok r f"

lemma and_then_cong [fundef_cong]:
  "r = r' \<Longrightarrow> (\<And>x. f x = f' x) \<Longrightarrow> and_then r f = and_then r' f'"
  by (cases r') (auto simp: and_then_def)

text \<open>The expression of a select item, as the \<^verbatim>\<open>if let\<close> of the walks takes it.\<close>

fun select_item_expr :: "select_item \<Rightarrow> expr option" where
  "select_item_expr (UnnamedExpr e) = Some e"
| "select_item_expr (ExprWithAlias e a) = Some e"
| "select_item_expr _ = None"

fun unnamed_arg_expr :: "expr function_arg \<Rightarrow> expr option" where
  "unnamed_arg_expr (UnnamedArg (ArgExpr e)) = Some e"
| "unnamed_arg_expr _ = None"

definition visit_option :: "('a \<Rightarrow> 's \<Rightarrow> 'e + 's) \<Rightarrow> 'a option \<Rightarrow> 's \<Rightarrow> 'e + 's" where
  "visit_option f x s = (case x of Some y \<Rightarrow> f y s | None \<Rightarrow> Inr s)"

lemma visit_option_simps [simp]: "visit_option f None s = Inr s" "visit_option f (Some x) s = f x s"
  by (simp_all add: visit_option_def)

lemma visit_option_cong [fundef_cong]:
  "x = y \<Longrightarrow> s = s' \<Longrightarrow> (\<And>z s. y = Some z \<Longrightarrow> f z s = g z s) \<Longrightarrow> visit_option f x s = visit_option g y s'"
  by (auto simp: visit_option_def split: option.split)

text \<open>Sizes.\<close>

lemma walk_size_item: "select_item_expr i = Some e \<Longrightarrow> size e \<le> size_select_item_of size i"
  by (cases i) auto

lemma walk_size_items:
  "i \<in> set is \<Longrightarrow> select_item_expr i = Some e \<Longrightarrow> size e < Suc (size_list (size_select_item_of size) is)"
  by (induction "is") (auto dest: walk_size_item)

lemma walk_size_args:
  "a \<in> set args \<Longrightarrow> unnamed_arg_expr a = Some e \<Longrightarrow> size e < Suc (size_list (size_function_arg size) args)"
proof (induction args)
  case (Cons x xs)
  have "size e \<le> size_function_arg size x" if "unnamed_arg_expr x = Some e"
    using that by (cases x rule: unnamed_arg_expr.cases) auto
  with Cons show ?case by auto
qed simp

lemma walk_size_whens:
  "cw \<in> set cws \<Longrightarrow> size (when_condition cw) < Suc (size_list (size_case_when size) cws) \<and>
     size (when_result cw) < Suc (size_list (size_case_when size) cws)"
proof (induction cws)
  case (Cons x xs)
  have "size (when_condition x) \<le> size_case_when size x" "size (when_result x) \<le> size_case_when size x"
    by (cases x; simp)+
  with Cons show ?case by auto
qed simp

lemma walk_size_ctes:
  "c \<in> set cs \<Longrightarrow> size (cte_query c) < Suc (size_list (size_cte_of size) cs)"
proof (induction cs)
  case (Cons x xs)
  have "size (cte_query x) \<le> size_cte_of size x" by (cases x) simp
  with Cons show ?case by auto
qed simp

lemma walk_size_joins:
  "j \<in> set js \<Longrightarrow> size (join_relation j) < Suc (size_list (size_join_of size size) js)"
proof (induction js)
  case (Cons x xs)
  have "size (join_relation x) \<le> size_join_of size size x" by (cases x) simp
  with Cons show ?case by auto
qed simp

lemma walk_size_on: "extract_join_on_expr op = Some e \<Longrightarrow> size e < size_join_operator_of size op"
  by (cases op) (auto simp: extract_join_on_expr_def split: join_constraint_of.splits)

lemma walk_size_join_on:
  "j \<in> set js \<Longrightarrow> extract_join_on_expr (join_operator j) = Some e \<Longrightarrow>
     size e < Suc (size_list (size_join_of size size) js)"
proof (induction js)
  case (Cons x xs)
  have "size e \<le> size_join_of size size x" if "extract_join_on_expr (join_operator x) = Some e"
    using walk_size_on [OF that] by (cases x) simp
  with Cons show ?case by auto
qed simp

lemma walk_size_from: "t \<in> set ts \<Longrightarrow> size t < Suc (size_list size ts)"
  by (induction ts) auto

lemmas walk_sizes = walk_size_items walk_size_args walk_size_ctes walk_size_joins walk_size_join_on
  walk_size_from walk_size_whens [THEN conjunct1] walk_size_whens [THEN conjunct2]

end
