(* ===== verification/Interval.thy ===== *)
theory Interval
  imports Rust_Text
begin

text \<open>
  \<^verbatim>\<open>sql/interval.rs\<close> and \<^verbatim>\<open>sql/types.rs\<close>: half-open date intervals with literal or
  parameter bounds, their intersection and union, and the types the SQL rewriting shares.
  The calendar of the \<^verbatim>\<open>chrono\<close> crate is a parameter: a \<open>NaiveDate\<close> is its day
  number, \<open>parse_date\<close> is \<open>parse_from_str(_, "%Y-%m-%d")\<close>, \<open>format_date\<close> is
  \<open>format("%Y-%m-%d")\<close> and \<open>succ_date\<close> is \<open>succ_opt\<close>.
\<close>

record calendar =
  parse_date :: "string \<Rightarrow> int option"
  format_date :: "int \<Rightarrow> string"
  succ_date :: "int \<Rightarrow> int option"

datatype date_bound = Literal string | Parameter string

fun bound_to_sql :: "date_bound \<Rightarrow> string" where
  "bound_to_sql (Literal s) = ''DATE '' @ [CHR 0x27] @ s @ [CHR 0x27]"
| "bound_to_sql (Parameter p) = p"

text \<open>\<open>std::cmp::Ordering\<close>, and \<open>cmp\<close> of a linear order.\<close>

datatype ordering = Less | Equal | Greater

definition compare_with :: "'a :: linorder \<Rightarrow> 'a \<Rightarrow> ordering" where
  "compare_with a b = (if a < b then Less else if a = b then Equal else Greater)"

fun bound_cmp :: "calendar \<Rightarrow> date_bound \<Rightarrow> date_bound \<Rightarrow> ordering" where
  "bound_cmp cal (Literal a) (Literal b) =
     (case (parse_date cal a, parse_date cal b) of
        (Some x, Some y) \<Rightarrow> compare_with x y
      | _ \<Rightarrow> compare_with a b)"
| "bound_cmp cal (Literal a) (Parameter b) = Less"
| "bound_cmp cal (Parameter a) (Literal b) = Greater"
| "bound_cmp cal (Parameter a) (Parameter b) = compare_with a b"

text \<open>\<open>std::cmp::max\<close> returns its second argument on equal values, \<open>min\<close> its first.\<close>

definition bound_max :: "calendar \<Rightarrow> date_bound \<Rightarrow> date_bound \<Rightarrow> date_bound" where
  "bound_max cal a b = (if bound_cmp cal a b = Greater then a else b)"

definition bound_min :: "calendar \<Rightarrow> date_bound \<Rightarrow> date_bound \<Rightarrow> date_bound" where
  "bound_min cal a b = (if bound_cmp cal a b = Greater then b else a)"

section \<open>Intervals\<close>

record interval =
  iv_start :: "date_bound option"
  iv_end :: "date_bound option"

definition interval_empty :: interval where
  "interval_empty = \<lparr>iv_start = Some (Literal ''9999-12-31''), iv_end = Some (Literal ''1970-01-01'')\<rparr>"

definition interval_universe :: interval where
  "interval_universe = \<lparr>iv_start = None, iv_end = None\<rparr>"

definition from_bounds :: "date_bound option \<Rightarrow> date_bound option \<Rightarrow> interval" where
  "from_bounds s e = \<lparr>iv_start = s, iv_end = e\<rparr>"

text \<open>The day after a literal date; a parameter, and a date without successor, is kept.\<close>

fun next_day :: "calendar \<Rightarrow> date_bound \<Rightarrow> date_bound" where
  "next_day cal (Literal s) =
     (case Option.bind (parse_date cal s) (succ_date cal) of
        Some d \<Rightarrow> Literal (format_date cal d)
      | None \<Rightarrow> Literal s)"
| "next_day cal (Parameter p) = Parameter p"

definition interval_point :: "calendar \<Rightarrow> date_bound \<Rightarrow> interval" where
  "interval_point cal date = \<lparr>iv_start = Some date, iv_end = Some (next_day cal date)\<rparr>"

definition interval_is_empty :: "calendar \<Rightarrow> interval \<Rightarrow> bool" where
  "interval_is_empty cal iv =
     (case (iv_start iv, iv_end iv) of
        (Some (Literal s), Some (Literal e)) \<Rightarrow>
          (case (parse_date cal s, parse_date cal e) of
             (Some a, Some b) \<Rightarrow> b \<le> a
           | _ \<Rightarrow> False)
      | _ \<Rightarrow> False)"

definition is_universe :: "interval \<Rightarrow> bool" where
  "is_universe iv \<longleftrightarrow> iv_start iv = None \<and> iv_end iv = None"

fun tighter :: "(date_bound \<Rightarrow> date_bound \<Rightarrow> date_bound) \<Rightarrow> date_bound option \<Rightarrow> date_bound option \<Rightarrow>
    date_bound option" where
  "tighter f None s = s"
| "tighter f s None = s"
| "tighter f (Some a) (Some b) = Some (f a b)"

fun wider :: "(date_bound \<Rightarrow> date_bound \<Rightarrow> date_bound) \<Rightarrow> date_bound option \<Rightarrow> date_bound option \<Rightarrow>
    date_bound option" where
  "wider f (Some a) (Some b) = Some (f a b)"
| "wider f _ _ = None"

definition intersect :: "calendar \<Rightarrow> interval \<Rightarrow> interval \<Rightarrow> interval" where
  "intersect cal u v =
     (if interval_is_empty cal u \<or> interval_is_empty cal v then interval_empty
      else \<lparr>iv_start = tighter (bound_max cal) (iv_start u) (iv_start v),
            iv_end = tighter (bound_min cal) (iv_end u) (iv_end v)\<rparr>)"

definition interval_union :: "calendar \<Rightarrow> interval \<Rightarrow> interval \<Rightarrow> interval" where
  "interval_union cal u v =
     (if interval_is_empty cal u then v
      else if interval_is_empty cal v then u
      else if is_universe u \<or> is_universe v then interval_universe
      else \<lparr>iv_start = wider (bound_min cal) (iv_start u) (iv_start v),
            iv_end = wider (bound_max cal) (iv_end u) (iv_end v)\<rparr>)"

definition to_macro_params :: "interval \<Rightarrow> string \<times> string" where
  "to_macro_params iv =
     ((case iv_start iv of Some (Literal s) \<Rightarrow> s | _ \<Rightarrow> ''1970-01-01''),
      (case iv_end iv of Some (Literal e) \<Rightarrow> e | _ \<Rightarrow> ''9999-12-31''))"

section \<open>Shared types of the SQL rewriting\<close>

datatype scope_id = ScopeId nat

datatype scope_kind = MainQuery | CteScope string | SubqueryScope

record table_reference =
  tr_dataset :: string
  tr_alias :: "string option"
  tr_scope :: scope_id

definition effective_name :: "table_reference \<Rightarrow> string" where
  "effective_name t = (case tr_alias t of Some a \<Rightarrow> a | None \<Rightarrow> tr_dataset t)"

record date_range =
  range_start :: "date_bound option"
  range_end :: "date_bound option"
  end_inclusive :: bool

definition date_range_default :: date_range where
  "date_range_default = \<lparr>range_start = None, range_end = None, end_inclusive = False\<rparr>"

definition with_literals :: "string option \<Rightarrow> string option \<Rightarrow> bool \<Rightarrow> date_range" where
  "with_literals s e incl =
     \<lparr>range_start = map_option Literal s, range_end = map_option Literal e, end_inclusive = incl\<rparr>"

definition date_range_is_empty :: "date_range \<Rightarrow> bool" where
  "date_range_is_empty r \<longleftrightarrow> range_start r = None \<and> range_end r = None"

definition date_range_merge :: "date_range \<Rightarrow> date_range \<Rightarrow> date_range" where
  "date_range_merge r q =
     (let r = (if range_start r = None then r\<lparr>range_start := range_start q\<rparr> else r)
      in if range_end r = None
         then r\<lparr>range_end := range_end q, end_inclusive := end_inclusive q\<rparr> else r)"

definition range_of_interval :: "interval \<Rightarrow> date_range" where
  "range_of_interval iv = \<lparr>range_start = iv_start iv, range_end = iv_end iv, end_inclusive = False\<rparr>"

record registered_dataset =
  dataset_id :: string
  time_column_name :: string
  macro_name :: string

definition registered_dataset_new :: "string \<Rightarrow> string \<Rightarrow> registered_dataset" where
  "registered_dataset_new i c = \<lparr>dataset_id = i, time_column_name = c, macro_name = ''scan_'' @ i\<rparr>"

definition with_macro_name :: "string \<Rightarrow> string \<Rightarrow> string \<Rightarrow> registered_dataset" where
  "with_macro_name i c m = \<lparr>dataset_id = i, time_column_name = c, macro_name = m\<rparr>"

definition wide_scan_start :: string where "wide_scan_start = ''1970-01-01''"

definition wide_scan_end :: string where "wide_scan_end = ''9999-12-31''"

section \<open>The dates of an interval\<close>

text \<open>
  \<open>env\<close> gives the dates that the parameters are bound to when the query runs. The laws of
  the calendar: a successor is the next day, it has a text that parses back to it, and the
  two dates that stand for the empty interval are in the wrong order.
\<close>

definition calendar_laws :: "calendar \<Rightarrow> bool" where
  "calendar_laws cal \<longleftrightarrow>
     (\<forall>s a b. parse_date cal s = Some a \<longrightarrow> succ_date cal a = Some b \<longrightarrow>
        b = a + 1 \<and> parse_date cal (format_date cal b) = Some b) \<and>
     (\<exists>a b. parse_date cal ''9999-12-31'' = Some a \<and> parse_date cal ''1970-01-01'' = Some b \<and> b \<le> a)"

fun bound_value :: "calendar \<Rightarrow> (string \<Rightarrow> int) \<Rightarrow> date_bound \<Rightarrow> int option" where
  "bound_value cal env (Literal s) = parse_date cal s"
| "bound_value cal env (Parameter p) = Some (env p)"

definition contains_date :: "calendar \<Rightarrow> (string \<Rightarrow> int) \<Rightarrow> interval \<Rightarrow> int \<Rightarrow> bool" where
  "contains_date cal env iv t \<longleftrightarrow>
     (case iv_start iv of None \<Rightarrow> True
      | Some b \<Rightarrow> (case bound_value cal env b of Some v \<Rightarrow> v \<le> t | None \<Rightarrow> False)) \<and>
     (case iv_end iv of None \<Rightarrow> True
      | Some b \<Rightarrow> (case bound_value cal env b of Some v \<Rightarrow> t < v | None \<Rightarrow> False))"

text \<open>A literal bound that is a date.\<close>

fun dated :: "calendar \<Rightarrow> date_bound \<Rightarrow> bool" where
  "dated cal (Literal s) \<longleftrightarrow> parse_date cal s \<noteq> None"
| "dated cal (Parameter p) \<longleftrightarrow> False"

definition dated_interval :: "calendar \<Rightarrow> interval \<Rightarrow> bool" where
  "dated_interval cal iv \<longleftrightarrow>
     (\<forall>b. iv_start iv = Some b \<or> iv_end iv = Some b \<longrightarrow> dated cal b)"

lemma datedE:
  assumes "dated cal b"
  obtains s v where "b = Literal s" "parse_date cal s = Some v"
  using assms by (cases b) auto

lemma bound_max_value:
  "dated cal a \<Longrightarrow> dated cal b \<Longrightarrow> dated cal (bound_max cal a b) \<and>
     the (bound_value cal env (bound_max cal a b)) =
       max (the (bound_value cal env a)) (the (bound_value cal env b))"
  by (elim datedE) (auto simp: bound_max_def compare_with_def)

lemma bound_min_value:
  "dated cal a \<Longrightarrow> dated cal b \<Longrightarrow> dated cal (bound_min cal a b) \<and>
     the (bound_value cal env (bound_min cal a b)) =
       min (the (bound_value cal env a)) (the (bound_value cal env b))"
  by (elim datedE) (auto simp: bound_min_def compare_with_def)

text \<open>Membership in an interval whose bounds are dates.\<close>

definition above :: "calendar \<Rightarrow> (string \<Rightarrow> int) \<Rightarrow> date_bound option \<Rightarrow> int \<Rightarrow> bool" where
  "above cal env b t \<longleftrightarrow> (\<forall>x. b = Some x \<longrightarrow> the (bound_value cal env x) \<le> t)"

definition below :: "calendar \<Rightarrow> (string \<Rightarrow> int) \<Rightarrow> date_bound option \<Rightarrow> int \<Rightarrow> bool" where
  "below cal env b t \<longleftrightarrow> (\<forall>x. b = Some x \<longrightarrow> t < the (bound_value cal env x))"

lemma contains_dated:
  "dated_interval cal iv \<Longrightarrow>
     contains_date cal env iv t \<longleftrightarrow> above cal env (iv_start iv) t \<and> below cal env (iv_end iv) t"
  by (cases "iv_start iv"; cases "iv_end iv")
    (auto simp: contains_date_def dated_interval_def above_def below_def elim!: datedE)

lemma tighter_max:
  assumes "\<forall>x. a = Some x \<or> b = Some x \<longrightarrow> dated cal x"
  shows "above cal env (tighter (bound_max cal) a b) t \<longleftrightarrow> above cal env a t \<and> above cal env b t"
    "\<forall>x. tighter (bound_max cal) a b = Some x \<longrightarrow> dated cal x"
  using assms bound_max_value [of cal _ _ env] by (cases a; cases b; auto simp: above_def)+

lemma tighter_min:
  assumes "\<forall>x. a = Some x \<or> b = Some x \<longrightarrow> dated cal x"
  shows "below cal env (tighter (bound_min cal) a b) t \<longleftrightarrow> below cal env a t \<and> below cal env b t"
    "\<forall>x. tighter (bound_min cal) a b = Some x \<longrightarrow> dated cal x"
  using assms bound_min_value [of cal _ _ env] by (cases a; cases b; auto simp: below_def)+

lemma wider_min:
  assumes "\<forall>x. a = Some x \<or> b = Some x \<longrightarrow> dated cal x"
  shows "above cal env a t \<or> above cal env b t \<Longrightarrow> above cal env (wider (bound_min cal) a b) t"
    "\<forall>x. wider (bound_min cal) a b = Some x \<longrightarrow> dated cal x"
  using assms bound_min_value [of cal _ _ env] by (cases a; cases b; auto simp: above_def min_le_iff_disj)+

lemma wider_max:
  assumes "\<forall>x. a = Some x \<or> b = Some x \<longrightarrow> dated cal x"
  shows "below cal env a t \<or> below cal env b t \<Longrightarrow> below cal env (wider (bound_max cal) a b) t"
    "\<forall>x. wider (bound_max cal) a b = Some x \<longrightarrow> dated cal x"
  using assms bound_max_value [of cal _ _ env] by (cases a; cases b; auto simp: below_def less_max_iff_disj)+

lemma interval_is_emptyE:
  assumes "interval_is_empty cal iv"
  obtains s e a b where "iv_start iv = Some (Literal s)" "iv_end iv = Some (Literal e)"
    "parse_date cal s = Some a" "parse_date cal e = Some b" "b \<le> a"
proof (cases "iv_start iv")
  case (Some x)
  with assms that show thesis
    by (cases x; cases "iv_end iv"; cases "the (iv_end iv)")
      (auto simp: interval_is_empty_def split: option.splits)
qed (use assms in \<open>simp add: interval_is_empty_def\<close>)

lemma empty_contains_nothing:
  "interval_is_empty cal iv \<Longrightarrow> \<not> contains_date cal env iv t"
  by (elim interval_is_emptyE) (auto simp: contains_date_def)

lemma dated_empty: "calendar_laws cal \<Longrightarrow> dated_interval cal interval_empty"
  by (auto simp: calendar_laws_def dated_interval_def interval_empty_def)

lemma contains_interval_empty: "calendar_laws cal \<Longrightarrow> \<not> contains_date cal env interval_empty t"
  by (rule empty_contains_nothing) (auto simp: calendar_laws_def interval_is_empty_def interval_empty_def)

lemma dated_start_end:
  "dated_interval cal u \<Longrightarrow> dated_interval cal v \<Longrightarrow>
     (\<forall>x. iv_start u = Some x \<or> iv_start v = Some x \<longrightarrow> dated cal x) \<and>
     (\<forall>x. iv_end u = Some x \<or> iv_end v = Some x \<longrightarrow> dated cal x)"
  by (auto simp: dated_interval_def)

lemma intersect_dated:
  assumes "calendar_laws cal" "dated_interval cal u" "dated_interval cal v"
  shows "dated_interval cal (intersect cal u v)"
    and "contains_date cal env (intersect cal u v) t \<longleftrightarrow>
      contains_date cal env u t \<and> contains_date cal env v t"
proof -
  note d = dated_start_end [OF assms(2,3)]
  note tm = tighter_max [OF conjunct1 [OF d]] tighter_min [OF conjunct2 [OF d]]
  show dd: "dated_interval cal (intersect cal u v)"
    using tm(2,4) dated_empty [OF assms(1)] by (auto simp: intersect_def dated_interval_def)
  show "contains_date cal env (intersect cal u v) t \<longleftrightarrow>
      contains_date cal env u t \<and> contains_date cal env v t"
  proof (cases "interval_is_empty cal u \<or> interval_is_empty cal v")
    case True
    then show ?thesis
      using empty_contains_nothing contains_interval_empty [OF assms(1)] by (auto simp: intersect_def)
  next
    case False
    then show ?thesis
      unfolding contains_dated [OF dd] contains_dated [OF assms(2)] contains_dated [OF assms(3)]
      using tm(1) [of env t] tm(3) [of env t] by (auto simp: intersect_def)
  qed
qed

lemma union_dated:
  assumes "dated_interval cal u" "dated_interval cal v"
  shows "dated_interval cal (interval_union cal u v)"
    and "contains_date cal env u t \<or> contains_date cal env v t \<Longrightarrow>
      contains_date cal env (interval_union cal u v) t"
proof -
  note d = dated_start_end [OF assms]
  note w = wider_min [OF conjunct1 [OF d]] wider_max [OF conjunct2 [OF d]]
  show dd: "dated_interval cal (interval_union cal u v)"
    using assms w(2,4) by (auto simp: interval_union_def dated_interval_def interval_universe_def)
  assume c: "contains_date cal env u t \<or> contains_date cal env v t"
  show "contains_date cal env (interval_union cal u v) t"
  proof (cases "interval_is_empty cal u \<or> interval_is_empty cal v \<or> is_universe u \<or> is_universe v")
    case True
    then show ?thesis
      using c empty_contains_nothing
      by (auto simp: interval_union_def interval_universe_def contains_date_def [of cal env "\<lparr>iv_start = None, iv_end = None\<rparr>"])
  next
    case False
    then show ?thesis
      using c w(1) [of env t] w(3) [of env t]
      unfolding contains_dated [OF dd] contains_dated [OF assms(1)] contains_dated [OF assms(2)]
      by (auto simp: interval_union_def)
  qed
qed

end
