(* ===== verification/Logical_Plan.thy ===== *)
theory Logical_Plan
  imports Sql_Ast
begin

text \<open>
  \<^verbatim>\<open>sql/logical_plan.rs\<close>: column references with their case-insensitive matching, the
  relational algebra tree the planner works on, and the context with the CTE definitions
  of a query.
\<close>

section \<open>Column references\<close>

record column_ref =
  cr_table :: "string option"
  cr_column :: string

definition unqualified_ref :: "string \<Rightarrow> column_ref" where
  "unqualified_ref c = \<lparr>cr_table = None, cr_column = c\<rparr>"

definition qualified_ref :: "string \<Rightarrow> string \<Rightarrow> column_ref" where
  "qualified_ref t c = \<lparr>cr_table = Some t, cr_column = c\<rparr>"

definition stripped :: "column_ref \<Rightarrow> column_ref" where
  "stripped r = \<lparr>cr_table = None, cr_column = cr_column r\<rparr>"

definition column_matches :: "column_ref \<Rightarrow> column_ref \<Rightarrow> bool" where
  "column_matches a b =
     (let col_eq = eq_ignore_ascii_case (cr_column a) (cr_column b) in
      case (cr_table a, cr_table b) of
        (Some s, Some t) \<Rightarrow> eq_ignore_ascii_case s t \<and> col_eq
      | _ \<Rightarrow> col_eq)"

definition column_display :: "column_ref \<Rightarrow> string" where
  "column_display r = (case cr_table r of
     Some t \<Rightarrow> t @ ''.'' @ cr_column r | None \<Rightarrow> cr_column r)"

lemma column_matches_refl [simp]: "column_matches r r"
  by (simp add: column_matches_def split: option.splits)

lemma column_matches_sym: "column_matches a b \<Longrightarrow> column_matches b a"
  by (auto simp: column_matches_def Let_def split: option.splits intro: eq_ignore_ascii_case_sym)

lemma column_matches_stripped [simp]:
  "column_matches (stripped a) b = eq_ignore_ascii_case (cr_column a) (cr_column b)"
  by (simp add: column_matches_def stripped_def)

text \<open>
  The position-wise comparison of two key lists that \<^verbatim>\<open>types.rs\<close>,
  \<^verbatim>\<open>exchange.rs\<close> and \<^verbatim>\<open>annotate.rs\<close> each write as
  \<^verbatim>\<open>a.len() == b.len() && zip.all(matches)\<close>.
\<close>

definition keys_match :: "column_ref list \<Rightarrow> column_ref list \<Rightarrow> bool" where
  "keys_match ps js \<longleftrightarrow> length ps = length js \<and> (\<forall>(p, j) \<in> set (zip ps js). column_matches p j)"

lemma keys_match_list_all2: "keys_match ps js \<longleftrightarrow> list_all2 column_matches ps js"
  by (auto simp: keys_match_def list_all2_iff)

lemma keys_match_refl [simp]: "keys_match ks ks"
  by (simp add: keys_match_list_all2 list_all2_refl)

lemma keys_match_sym: "keys_match ks js \<longleftrightarrow> keys_match js ks"
  unfolding keys_match_list_all2
  by (auto simp: list_all2_conv_all_nth intro: column_matches_sym)

section \<open>The plan tree\<close>

datatype logical_plan =
    Scan string "table_alias option" table_factor
  | Filter logical_plan expr
  | Project logical_plan "select_item list"
  | Aggregate logical_plan group_by_expr "select_item list" "expr option" "column_ref list"
  | Sort logical_plan "order_by_expr list"
  | Limit logical_plan "expr option" "expr option"
  | Join logical_plan logical_plan join_operator "column_ref list" "column_ref list"
  | SetOp logical_plan logical_plan set_operator set_quantifier
  | Window logical_plan "select_item list" "column_ref list"
  | SubqueryScan logical_plan table_alias
  | ExchangeRead u32 string

fun plan_children :: "logical_plan \<Rightarrow> logical_plan list" where
  "plan_children (Scan t a f) = []"
| "plan_children (ExchangeRead i a) = []"
| "plan_children (Filter p e) = [p]"
| "plan_children (Project p xs) = [p]"
| "plan_children (Aggregate p g xs h ks) = [p]"
| "plan_children (Sort p os) = [p]"
| "plan_children (Limit p l f) = [p]"
| "plan_children (Window p xs ks) = [p]"
| "plan_children (SubqueryScan p a) = [p]"
| "plan_children (Join l r op lk rk) = [l, r]"
| "plan_children (SetOp l r op q) = [l, r]"

fun node_name :: "logical_plan \<Rightarrow> string" where
  "node_name (Scan t a f) = ''Scan''"
| "node_name (Filter p e) = ''Filter''"
| "node_name (Project p xs) = ''Project''"
| "node_name (Aggregate p g xs h ks) = ''Aggregate''"
| "node_name (Sort p os) = ''Sort''"
| "node_name (Limit p l f) = ''Limit''"
| "node_name (Join l r op lk rk) = ''Join''"
| "node_name (SetOp l r op q) = ''SetOp''"
| "node_name (Window p xs ks) = ''Window''"
| "node_name (SubqueryScan p a) = ''SubqueryScan''"
| "node_name (ExchangeRead i a) = ''ExchangeRead''"

fun is_leaf :: "logical_plan \<Rightarrow> bool" where
  "is_leaf (Scan t a f) = True"
| "is_leaf (ExchangeRead i a) = True"
| "is_leaf _ = False"

lemma is_leaf_iff: "is_leaf p \<longleftrightarrow> plan_children p = []"
  by (cases p) simp_all

lemma plan_children_size: "c \<in> set (plan_children p) \<Longrightarrow> size c < size p"
  by (cases p) auto

section \<open>The plan context\<close>

record plan_context =
  cte_definitions :: "cte list"

definition plan_context_default :: plan_context where
  "plan_context_default = \<lparr>cte_definitions = []\<rparr>"

definition plan_context_is_empty :: "plan_context \<Rightarrow> bool" where
  "plan_context_is_empty c \<longleftrightarrow> cte_definitions c = []"

end
