(* ===== verification/Float64.thy ===== *)
theory Float64
  imports Prelude
begin

text \<open>
  Rust's \<open>f64\<close> as far as the planner uses it: IEEE 754 binary64 with round to nearest,
  ties to even. A finite value is sign, significand and exponent, \<open>m * 2 ^ e\<close>; the
  significand has at most 53 bits after rounding and the exponent is at least \<open>- 1074\<close>.
  The operations are the conversion \<open>u64 as f64\<close>, the product, the square root and the
  saturating conversion \<open>f64 as u64\<close> (\<open>NaN\<close> and negative values give 0, values beyond
  the range give \<open>u64::MAX\<close>).
\<close>

datatype f64 = NaN | Inf bool | Fin bool nat int

section \<open>Rounding\<close>

fun bitlen :: "nat \<Rightarrow> nat" where
  "bitlen n = (if n = 0 then 0 else Suc (bitlen (n div 2)))"

declare bitlen.simps [simp del]

definition rne :: "nat \<Rightarrow> nat \<Rightarrow> nat" where
  "rne m d = (let q = m div 2 ^ d; r = m mod 2 ^ d in
     if 2 * r < 2 ^ d then q else if 2 ^ d < 2 * r then Suc q
     else if even q then q else Suc q)"

text \<open>
  \<open>f64_round s m e\<close> is the binary64 value nearest to \<open>m * 2 ^ e\<close> with sign \<open>s\<close>.
  The result exponent keeps 53 significant bits unless that would fall below the exponent
  of the smallest subnormal; a value that rounds to \<open>2 ^ 1024\<close> or more is infinite.
\<close>

definition f64_round :: "bool \<Rightarrow> nat \<Rightarrow> int \<Rightarrow> f64" where
  "f64_round s m e =
     (let e' = max (e + int (bitlen m) - 53) (- 1074) in
      if m = 0 then Fin s 0 0
      else if e' \<le> e then (if 1024 < e + int (bitlen m) then Inf s else Fin s m e)
      else let m' = rne m (nat (e' - e)) in
        if 1024 < e' + int (bitlen m') then Inf s else Fin s m' e')"

definition f64_of_u64 :: "u64 \<Rightarrow> f64" where
  "f64_of_u64 w = f64_round False (unat w) 0"

definition f64_of_nat :: "nat \<Rightarrow> f64" where
  "f64_of_nat n = f64_round False n 0"

fun f64_mul :: "f64 \<Rightarrow> f64 \<Rightarrow> f64" where
  "f64_mul NaN y = NaN"
| "f64_mul x NaN = NaN"
| "f64_mul (Inf s) (Inf t) = Inf (s \<noteq> t)"
| "f64_mul (Inf s) (Fin t m e) = (if m = 0 then NaN else Inf (s \<noteq> t))"
| "f64_mul (Fin s m e) (Inf t) = (if m = 0 then NaN else Inf (s \<noteq> t))"
| "f64_mul (Fin s m e) (Fin t n f) = f64_round (s \<noteq> t) (m * n) (e + f)"

text \<open>
  The square root: \<open>isqrt\<close> is the integer square root by bisection. A finite positive
  value is scaled by an even power of two so that its integer root has at least 64 bits;
  a set low bit marks an inexact root, so that the rounding sees on which side of a tie
  the exact root lies.
\<close>

function isqrt_between :: "nat \<Rightarrow> nat \<Rightarrow> nat \<Rightarrow> nat" where
  "isqrt_between n lo hi =
     (if hi \<le> Suc lo then lo
      else if ((lo + hi) div 2) * ((lo + hi) div 2) \<le> n then isqrt_between n ((lo + hi) div 2) hi
      else isqrt_between n lo ((lo + hi) div 2))"
  by pat_completeness auto
termination
  by (relation "measure (\<lambda>(n, lo, hi). hi - lo)") auto

declare isqrt_between.simps [simp del]

definition isqrt :: "nat \<Rightarrow> nat" where
  "isqrt n = isqrt_between n 0 (2 ^ (bitlen n div 2 + 1))"

fun f64_sqrt :: "f64 \<Rightarrow> f64" where
  "f64_sqrt NaN = NaN"
| "f64_sqrt (Inf s) = (if s then NaN else Inf False)"
| "f64_sqrt (Fin s m e) =
     (if m = 0 then Fin s m e else if s then NaN
      else let k = (if even e then 128 else 129);
               n = m * 2 ^ k;
               r = isqrt n
           in f64_round False (2 * r + (if r * r = n then 0 else 1)) ((e - int k) div 2 - 1))"

section \<open>Conversion to integers and comparison\<close>

definition f64_trunc :: "nat \<Rightarrow> int \<Rightarrow> nat" where
  "f64_trunc m e = (if 0 \<le> e then m * 2 ^ nat e else m div 2 ^ nat (- e))"

fun u64_of_f64 :: "f64 \<Rightarrow> u64" where
  "u64_of_f64 NaN = 0"
| "u64_of_f64 (Inf s) = (if s then 0 else u64_max)"
| "u64_of_f64 (Fin s m e) =
     (if s then 0
      else if 2 ^ 64 \<le> f64_trunc m e then u64_max else of_nat (f64_trunc m e))"

text \<open>\<open>f64_ge_one x\<close> is \<open>x >= 1.0\<close>.\<close>

fun f64_ge_one :: "f64 \<Rightarrow> bool" where
  "f64_ge_one NaN = False"
| "f64_ge_one (Inf s) = (\<not> s)"
| "f64_ge_one (Fin s m e) = (\<not> s \<and> (if 0 \<le> e then m \<noteq> 0 else 2 ^ nat (- e) \<le> m))"

text \<open>Literals of the sources: the nearest binary64 values.\<close>

definition f64_half :: f64 where "f64_half = Fin False 1 (- 1)"
definition f64_tenth :: f64 where "f64_tenth = Fin False 7205759403792794 (- 56)"
definition f64_one :: f64 where "f64_one = Fin False 1 0"
definition f64_one_tenth :: f64 where "f64_one_tenth = Fin False 4953959590107546 (- 52)"
definition f64_two :: f64 where "f64_two = Fin False 2 0"
definition f64_three :: f64 where "f64_three = Fin False 3 0"

text \<open>The idiom \<^verbatim>\<open>(x as f64 * factor) as u64\<close>.\<close>

definition scale_u64 :: "u64 \<Rightarrow> f64 \<Rightarrow> u64" where
  "scale_u64 w f = u64_of_f64 (f64_mul (f64_of_u64 w) f)"

section \<open>Lemmas\<close>

lemma bitlen_0 [simp]: "bitlen 0 = 0"
  by (simp add: bitlen.simps)

lemma bitlen_upper: "n < 2 ^ bitlen n"
proof (induction n rule: bitlen.induct)
  case (1 n)
  show ?case
  proof (cases "n = 0")
    case False
    with 1 have "n div 2 < 2 ^ bitlen (n div 2)" by simp
    then have "n < 2 * 2 ^ bitlen (n div 2)" by linarith
    with False show ?thesis by (simp add: bitlen.simps [of n])
  qed simp
qed

lemma bitlen_lower: "0 < n \<Longrightarrow> 2 ^ (bitlen n - 1) \<le> n"
proof (induction n rule: bitlen.induct)
  case (1 n)
  show ?case
  proof (cases "n div 2 = 0")
    case True
    with 1 show ?thesis by (simp add: bitlen.simps [of n] bitlen.simps [of "n div 2"])
  next
    case False
    with 1 have IH: "2 ^ (bitlen (n div 2) - 1) \<le> n div 2" by simp
    from False obtain k where k: "bitlen (n div 2) = Suc k"
      by (simp add: bitlen.simps [of "n div 2"])
    from IH k have "2 ^ Suc k \<le> n" by simp
    with k \<open>0 < n\<close> show ?thesis by (simp add: bitlen.simps [of n])
  qed
qed

lemma bitlen_le: "n < 2 ^ k \<Longrightarrow> bitlen n \<le> k"
proof (rule ccontr)
  assume "n < 2 ^ k" "\<not> bitlen n \<le> k"
  then have "0 < n" by (cases n) auto
  then have "2 ^ (bitlen n - 1) \<le> n" by (rule bitlen_lower)
  moreover from \<open>\<not> bitlen n \<le> k\<close> have "(2::nat) ^ k \<le> 2 ^ (bitlen n - 1)"
    by (intro power_increasing) auto
  ultimately show False using \<open>n < 2 ^ k\<close> by linarith
qed

lemma rne_ge: "m div 2 ^ d \<le> rne m d"
  by (simp add: rne_def Let_def)

lemma f64_of_u64_exact: "unat w < 2 ^ 53 \<Longrightarrow> f64_of_u64 w = Fin False (unat w) 0"
  using bitlen_le [of "unat w" 53]
  by (auto simp: f64_of_u64_def f64_round_def Let_def)

lemma f64_round_exact:
  "bitlen m \<le> 53 \<Longrightarrow> - 1074 \<le> e \<Longrightarrow> e \<le> 971 \<Longrightarrow> m \<noteq> 0 \<Longrightarrow> f64_round s m e = Fin s m e"
  by (auto simp: f64_round_def Let_def)

lemma u64_of_f64_ge:
  assumes "n \<le> f64_trunc m e" "n < 2 ^ 64"
  shows "n \<le> unat (u64_of_f64 (Fin False m e))"
  using assms by (auto simp: unat_of_nat)

text \<open>
  The value \<open>m * 2 ^ e\<close> dominates the integer \<open>n\<close>, written without negative powers.
\<close>

definition dominates :: "nat \<Rightarrow> int \<Rightarrow> nat \<Rightarrow> bool" where
  "dominates m e n \<longleftrightarrow> n * 2 ^ nat (- e) \<le> m * 2 ^ nat e"

lemma dominates_trunc: "dominates m e n \<Longrightarrow> n \<le> f64_trunc m e"
  by (cases "0 \<le> e") (auto simp: dominates_def f64_trunc_def less_eq_div_iff_mult_less_eq)

lemma dominates_round_down:
  assumes dom: "dominates m e n" and n: "n < 2 ^ 53" and m: "0 < m"
    and e': "e' = max (e + int (bitlen m) - 53) (- 1074)" and lt: "e < e'"
  shows "dominates (m div 2 ^ nat (e' - e)) e' n"
proof (cases "e' \<le> 0")
  case True
  then have "nat (- e) = nat (- e') + nat (e' - e)" using lt by linarith
  with dom lt True have "n * 2 ^ nat (- e') * 2 ^ nat (e' - e) \<le> m"
    by (simp add: dominates_def power_add mult.assoc)
  then show ?thesis
    using True by (simp add: dominates_def less_eq_div_iff_mult_less_eq)
next
  case False
  then have eq: "e' = e + int (bitlen m) - 53" using e' by auto
  with lt have d: "nat (e' - e) = bitlen m - 53" and l: "53 < bitlen m" by auto
  have "bitlen m - 1 = 52 + (bitlen m - 53)" using l by linarith
  then have "(2::nat) ^ 52 * 2 ^ (bitlen m - 53) = 2 ^ (bitlen m - 1)"
    by (simp only: power_add)
  then have "2 ^ 52 * 2 ^ (bitlen m - 53) \<le> m" using bitlen_lower [OF m] by simp
  then have "2 ^ 52 \<le> m div 2 ^ (bitlen m - 53)"
    by (simp add: less_eq_div_iff_mult_less_eq)
  moreover have "(2::nat) ^ 1 \<le> 2 ^ nat e'" using False by (intro power_increasing) auto
  ultimately have "2 ^ 52 * 2 \<le> m div 2 ^ (bitlen m - 53) * 2 ^ nat e'"
    by (intro mult_le_mono) auto
  with n False d show ?thesis by (simp add: dominates_def)
qed

lemma dominates_mono: "dominates m e n \<Longrightarrow> m \<le> m' \<Longrightarrow> dominates m' e n"
  unfolding dominates_def by (meson le_trans mult_le_mono1)

lemma u64_of_round_ge:
  assumes "dominates m e n" and "n < 2 ^ 53"
  shows "n \<le> unat (u64_of_f64 (f64_round False m e))"
proof (cases "m = 0")
  case True
  with assms(1) have "n = 0" by (simp add: dominates_def)
  then show ?thesis by simp
next
  case False
  define e' where "e' = max (e + int (bitlen m) - 53) (- 1074)"
  have inf: "n \<le> unat (u64_of_f64 (Inf False))" using assms(2) by simp
  show ?thesis
  proof (cases "e' \<le> e")
    case True
    with False inf u64_of_f64_ge [OF dominates_trunc [OF assms(1)]] assms(2) show ?thesis
      by (auto simp: f64_round_def Let_def e'_def [symmetric] simp del: u64_of_f64.simps)
  next
    case gt: False
    have "dominates (rne m (nat (e' - e))) e' n"
      using dominates_round_down [OF assms _ e'_def] gt False
      by (intro dominates_mono [OF _ rne_ge]) auto
    with gt False inf u64_of_f64_ge [OF dominates_trunc] assms(2) show ?thesis
      by (auto simp: f64_round_def Let_def e'_def [symmetric] simp del: u64_of_f64.simps)
  qed
qed

lemma scale_u64_ge:
  assumes "f64_ge_one f" and "unat w < 2 ^ 53"
  shows "w \<le> scale_u64 w f"
proof -
  have "unat w \<le> unat (scale_u64 w f)"
  proof (cases f)
    case (Inf s)
    with assms show ?thesis
      by (auto simp: scale_u64_def f64_of_u64_exact word_unat_eq_iff unat_le_max_u64)
  next
    case (Fin s m e)
    with assms(1) have s: "\<not> s" and "dominates m e 1"
      by (auto simp: dominates_def split: if_splits)
    then have "dominates (unat w * m) e (unat w)"
      unfolding dominates_def by (metis mult.assoc mult.right_neutral mult_le_mono2 mult.commute)
    with Fin s assms(2) show ?thesis
      by (simp add: scale_u64_def f64_of_u64_exact u64_of_round_ge)
  qed (use assms in simp)
  then show ?thesis by (simp add: word_le_nat_alt)
qed

lemma scale_u64_two: "unat w < 2 ^ 52 \<Longrightarrow> scale_u64 w f64_two = 2 * w"
proof -
  assume w: "unat w < 2 ^ 52"
  then have "f64_round False (unat w * 2) 0 = Fin False (unat w * 2) 0"
    using bitlen_le [of "unat w * 2" 53] by (auto simp: f64_round_def Let_def)
  with w show ?thesis
    by (simp add: scale_u64_def f64_of_u64_exact f64_two_def f64_trunc_def)
qed

lemma scale_u64_half: "unat w < 2 ^ 53 \<Longrightarrow> scale_u64 w f64_half = w div 2"
proof -
  assume w: "unat w < 2 ^ 53"
  then have "f64_round False (unat w) (- 1) = (if w = 0 then Fin False 0 0 else Fin False (unat w) (- 1))"
    using bitlen_le [of "unat w" 53] by (auto simp: f64_round_def Let_def unat_eq_zero)
  with w show ?thesis
    by (auto simp: scale_u64_def f64_of_u64_exact f64_half_def f64_trunc_def
        word_unat_eq_iff unat_of_nat unat_div)
qed

lemma isqrt_between_correct:
  assumes "lo * lo \<le> n" "n < hi * hi" "lo < hi"
  shows "isqrt_between n lo hi * isqrt_between n lo hi \<le> n \<and>
    n < Suc (isqrt_between n lo hi) * Suc (isqrt_between n lo hi)"
  using assms
proof (induction n lo hi rule: isqrt_between.induct)
  case (1 n lo hi)
  show ?case
  proof (cases "hi \<le> Suc lo")
    case True
    with "1.prems" have "hi = Suc lo" by simp
    with "1.prems" show ?thesis by (simp add: isqrt_between.simps [of n lo "Suc lo"])
  next
    case False
    define mid where "mid = (lo + hi) div 2"
    from False have "lo < mid" "mid < hi" unfolding mid_def by linarith+
    with False 1 show ?thesis
      by (simp add: isqrt_between.simps [of n lo hi] mid_def [symmetric] not_le
          del: mult_Suc mult_Suc_right)
  qed
qed

lemma isqrt_correct: "isqrt n * isqrt n \<le> n \<and> n < Suc (isqrt n) * Suc (isqrt n)"
proof -
  have "n < 2 ^ bitlen n" by (rule bitlen_upper)
  also have "\<dots> \<le> 2 ^ ((bitlen n div 2 + 1) + (bitlen n div 2 + 1))"
    by (intro power_increasing) auto
  finally have "n < 2 ^ (bitlen n div 2 + 1) * 2 ^ (bitlen n div 2 + 1)"
    by (simp only: power_add)
  then show ?thesis
    unfolding isqrt_def by (intro isqrt_between_correct) auto
qed

end
