(* ===== verification/Ldp_Types.thy ===== *)
theory Ldp_Types
  imports Logical_Plan Float64
begin

text \<open>
  \<^verbatim>\<open>ldp/types.rs\<close>: the identifiers of a distributed plan, the distribution
  properties the planner tracks, exchanges, stages and the plan itself with its
  navigation functions. The correctness of \<open>topological_order\<close> is in
  \<^verbatim>\<open>Plan_Graph\<close>.
\<close>

section \<open>Identifiers\<close>

datatype query_id = QueryId string
datatype stage_id = StageId (stage_num: u32)
datatype exchange_id = ExchangeId (exchange_num: u32)
datatype worker_id = WorkerId (worker_name: string)
datatype epoch_id = EpochId string

text \<open>The derived \<open>Ord\<close> of \<open>WorkerId\<close>: the byte-wise order of the name.\<close>

instantiation worker_id :: linorder
begin

definition less_eq_worker_id :: "worker_id \<Rightarrow> worker_id \<Rightarrow> bool" where
  "less_eq_worker_id v w \<longleftrightarrow> worker_name v \<le> worker_name w"

definition less_worker_id :: "worker_id \<Rightarrow> worker_id \<Rightarrow> bool" where
  "less_worker_id v w \<longleftrightarrow> worker_name v < worker_name w"

instance
proof
  fix v w :: worker_id
  show "v < w \<longleftrightarrow> v \<le> w \<and> \<not> w \<le> v"
    unfolding less_eq_worker_id_def less_worker_id_def by (rule less_le_not_le)
  show "v \<le> w \<Longrightarrow> w \<le> v \<Longrightarrow> v = w"
    unfolding less_eq_worker_id_def by (simp add: worker_id.expand)
qed (auto simp: less_eq_worker_id_def)

end

definition worker_default :: worker_id where
  "worker_default = WorkerId []"

fun stage_display :: "stage_id \<Rightarrow> string" where
  "stage_display (StageId n) = show_u32 n"

fun exchange_display :: "exchange_id \<Rightarrow> string" where
  "exchange_display (ExchangeId n) = show_u32 n"

fun worker_display :: "worker_id \<Rightarrow> string" where
  "worker_display (WorkerId s) = s"

text \<open>
  The two \<open>alloc_next\<close> counters hand out the current value and advance by one; the
  increment wraps at \<open>2 ^ 32\<close>.
\<close>

fun stage_alloc_next :: "stage_id \<Rightarrow> stage_id \<times> stage_id" where
  "stage_alloc_next (StageId n) = (StageId n, StageId (n + 1))"

fun exchange_alloc_next :: "exchange_id \<Rightarrow> exchange_id \<times> exchange_id" where
  "exchange_alloc_next (ExchangeId n) = (ExchangeId n, ExchangeId (n + 1))"

text \<open>
  The contract the two counters share, stated over the number of an identifier. Every
  client reasons with the numbers only: an identifier is its number, and the number of
  the next identifier is the successor as long as the counter has not reached its last
  value.
\<close>

locale id_counter =
  fixes num :: "'i \<Rightarrow> nat" and alloc :: "'i \<Rightarrow> 'i \<times> 'i"
  assumes num_inj: "num i = num j \<Longrightarrow> i = j"
    and alloc_current: "fst (alloc i) = i"
    and alloc_next: "num i < 2 ^ 32 - 1 \<Longrightarrow> num (snd (alloc i)) = Suc (num i)"
begin

text \<open>The \<open>k\<close>-th state of the counter, and the identifier that call hands out.\<close>

definition after :: "nat \<Rightarrow> 'i \<Rightarrow> 'i" where
  "after k i = ((\<lambda>j. snd (alloc j)) ^^ k) i"

lemma num_after: "num i + k < 2 ^ 32 \<Longrightarrow> num (after k i) = num i + k"
proof (induction k)
  case (Suc k)
  then have eq: "num (after k i) = num i + k" by linarith
  with Suc.prems have "num (after k i) < 2 ^ 32 - 1" by linarith
  then have "num (snd (alloc (after k i))) = Suc (num (after k i))" by (rule alloc_next)
  then show ?case unfolding eq by (simp only: after_def funpow.simps comp_apply add_Suc_right)
qed (simp only: after_def funpow.simps id_apply add_0_right)

lemma allocated_distinct:
  "num i + n \<le> 2 ^ 32 \<Longrightarrow> distinct (map (\<lambda>k. fst (alloc (after k i))) [0..<n])"
proof -
  assume n: "num i + n \<le> 2 ^ 32"
  have "inj_on (\<lambda>k. after k i) {0..<n}"
  proof (rule inj_onI)
    fix j k assume "j \<in> {0..<n}" "k \<in> {0..<n}" "after j i = after k i"
    then have "num i + j < 2 ^ 32" "num i + k < 2 ^ 32" using n by auto
    then have "num (after j i) = num i + j" "num (after k i) = num i + k"
      by (simp_all only: num_after)
    with \<open>after j i = after k i\<close> show "j = k" by (metis add_left_cancel)
  qed
  then show ?thesis by (simp add: distinct_map alloc_current)
qed

end

definition stage_index :: "stage_id \<Rightarrow> nat" where
  "stage_index s = unat (stage_num s)"

definition exchange_index :: "exchange_id \<Rightarrow> nat" where
  "exchange_index x = unat (exchange_num x)"

interpretation stage_counter: id_counter stage_index stage_alloc_next
proof
  show "stage_index i = stage_index j \<Longrightarrow> i = j" for i j
    by (cases i; cases j) (simp add: stage_index_def word_unat_eq_iff)
  show "fst (stage_alloc_next i) = i" for i
    by (cases i) simp
  show "stage_index i < 2 ^ 32 - 1 \<Longrightarrow> stage_index (snd (stage_alloc_next i)) = Suc (stage_index i)"
    for i by (cases i) (simp add: stage_index_def unat_Suc_u32)
qed

interpretation exchange_counter: id_counter exchange_index exchange_alloc_next
proof
  show "exchange_index i = exchange_index j \<Longrightarrow> i = j" for i j
    by (cases i; cases j) (simp add: exchange_index_def word_unat_eq_iff)
  show "fst (exchange_alloc_next i) = i" for i
    by (cases i) simp
  show "exchange_index i < 2 ^ 32 - 1 \<Longrightarrow>
      exchange_index (snd (exchange_alloc_next i)) = Suc (exchange_index i)"
    for i by (cases i) (simp add: exchange_index_def unat_Suc_u32)
qed

section \<open>Statistics confidence\<close>

datatype stats_source = Exact | Estimated | Unknown

fun is_exact :: "stats_source \<Rightarrow> bool" where
  "is_exact Exact = True"
| "is_exact _ = False"

definition is_uncertain :: "stats_source \<Rightarrow> bool" where
  "is_uncertain s \<longleftrightarrow> \<not> is_exact s"

lemma is_exact_iff [simp]: "is_exact s \<longleftrightarrow> s = Exact"
  by (cases s) simp_all

section \<open>Distributions\<close>

datatype distribution =
    Singleton worker_id
  | HashPartitioned "column_ref list" "worker_id list"
  | EpochPartitioned "worker_id list"
  | Replicated "worker_id list"

fun dist_workers :: "distribution \<Rightarrow> worker_id list" where
  "dist_workers (Singleton w) = [w]"
| "dist_workers (HashPartitioned cs ws) = ws"
| "dist_workers (EpochPartitioned ws) = ws"
| "dist_workers (Replicated ws) = ws"

fun is_singleton :: "distribution \<Rightarrow> bool" where
  "is_singleton (Singleton w) = True"
| "is_singleton _ = False"

record distribution_annotation =
  distribution :: distribution
  est_rows :: u64
  est_bytes :: u64
  stats_source :: stats_source

definition annotation_new :: "distribution \<Rightarrow> u64 \<Rightarrow> u64 \<Rightarrow> distribution_annotation" where
  "annotation_new d r b =
     \<lparr>distribution = d, est_rows = r, est_bytes = b, stats_source = Exact\<rparr>"

definition annotation_with_source ::
  "distribution \<Rightarrow> u64 \<Rightarrow> u64 \<Rightarrow> stats_source \<Rightarrow> distribution_annotation" where
  "annotation_with_source d r b s =
     \<lparr>distribution = d, est_rows = r, est_bytes = b, stats_source = s\<rparr>"

definition annotation_unknown :: "distribution \<Rightarrow> distribution_annotation" where
  "annotation_unknown d =
     \<lparr>distribution = d, est_rows = 0, est_bytes = 0, stats_source = Unknown\<rparr>"

definition with_safety_factor :: "distribution_annotation \<Rightarrow> f64 \<Rightarrow> u64 \<times> u64" where
  "with_safety_factor a factor =
     (if is_uncertain (stats_source a)
      then (scale_u64 (est_rows a) factor, scale_u64 (est_bytes a) factor)
      else (est_rows a, est_bytes a))"

datatype required_distribution =
    ReqAny
  | ReqSingleton
  | ReqHashPartitioned "column_ref list"

fun is_satisfied_by :: "required_distribution \<Rightarrow> distribution \<Rightarrow> bool" where
  "is_satisfied_by ReqAny actual = True"
| "is_satisfied_by ReqSingleton actual = is_singleton actual"
| "is_satisfied_by (ReqHashPartitioned refs) actual =
     (case actual of
        HashPartitioned actual_refs ws \<Rightarrow> keys_match refs actual_refs
      | Replicated ws \<Rightarrow> True
      | _ \<Rightarrow> False)"

section \<open>Exchanges, stages and plans\<close>

datatype exchange =
    Gather worker_id
  | Broadcast "worker_id list"
  | HashPartition "column_ref list" u32

datatype stage_input = LocalCatalog | ExchangeInput exchange_id string

datatype stage_output = StreamOutput | Partitioned u32 "column_ref list"

record stage_limits =
  max_bytes_output :: u64
  max_rows_output :: u64
  timeout_ms :: u64
  memory_bytes :: u64

definition stage_limits_default :: stage_limits where
  "stage_limits_default =
     \<lparr>max_bytes_output = 5 * 1024 * 1024 * 1024, max_rows_output = 100000000,
      timeout_ms = 300000, memory_bytes = 2 * 1024 * 1024 * 1024\<rparr>"

record stage =
  stage_id :: stage_id
  target_workers :: "worker_id list"
  inputs :: "stage_input list"
  stage_out :: stage_output
  stage_sql :: string
  limits :: stage_limits

definition stage_new :: "stage_id \<Rightarrow> string \<Rightarrow> stage" where
  "stage_new i sql =
     \<lparr>stage_id = i, target_workers = [], inputs = [], stage_out = StreamOutput,
      stage_sql = sql, limits = stage_limits_default\<rparr>"

fun is_exchange_input :: "stage_input \<Rightarrow> bool" where
  "is_exchange_input LocalCatalog = False"
| "is_exchange_input (ExchangeInput x t) = True"

definition has_exchange_inputs :: "stage \<Rightarrow> bool" where
  "has_exchange_inputs s \<longleftrightarrow> list_ex is_exchange_input (inputs s)"

record exchange_edge =
  edge_id :: exchange_id
  kind :: exchange
  from_stage :: stage_id
  to_stage :: stage_id
  partition_to_worker :: "worker_id list"

record ldp_plan =
  query_id :: query_id
  coordinator :: worker_id
  stages :: "stage list"
  edges :: "exchange_edge list"
  root_stage :: stage_id

definition ldp_plan_new :: "query_id \<Rightarrow> worker_id \<Rightarrow> ldp_plan" where
  "ldp_plan_new q c =
     \<lparr>query_id = q, coordinator = c, stages = [], edges = [], root_stage = StageId 0\<rparr>"

definition ldp_plan_with_root :: "query_id \<Rightarrow> worker_id \<Rightarrow> stage_id \<Rightarrow> ldp_plan" where
  "ldp_plan_with_root q c r =
     \<lparr>query_id = q, coordinator = c, stages = [], edges = [], root_stage = r\<rparr>"

definition final_stage :: "ldp_plan \<Rightarrow> stage option" where
  "final_stage p = (if stages p = [] then None else Some (last (stages p)))"

definition get_stage :: "ldp_plan \<Rightarrow> stage_id \<Rightarrow> stage option" where
  "get_stage p i = find (\<lambda>s. stage_id s = i) (stages p)"

definition downstream_stages :: "ldp_plan \<Rightarrow> stage_id \<Rightarrow> stage_id list" where
  "downstream_stages p i = map to_stage (filter (\<lambda>e. from_stage e = i) (edges p))"

definition upstream_stages :: "ldp_plan \<Rightarrow> stage_id \<Rightarrow> stage_id list" where
  "upstream_stages p i = map from_stage (filter (\<lambda>e. to_stage e = i) (edges p))"

section \<open>Topological order\<close>

text \<open>
  The body of the inner loop of \<open>topological_order\<close>: decrement the in-degree of one
  downstream stage and enqueue it when it reaches zero and is not visited. The in-degree
  table is a map from the stages of the plan; a stage that is not in it is skipped.
\<close>

fun topo_release ::
  "stage_id set \<Rightarrow> stage_id list \<Rightarrow> (stage_id \<rightharpoonup> nat) \<times> stage_id list \<Rightarrow>
   (stage_id \<rightharpoonup> nat) \<times> stage_id list" where
  "topo_release visited [] (deg, queue) = (deg, queue)"
| "topo_release visited (d # ds) (deg, queue) =
     (case deg d of
        None \<Rightarrow> topo_release visited ds (deg, queue)
      | Some n \<Rightarrow> topo_release visited ds
          (deg(d \<mapsto> n - 1), if n - 1 = 0 \<and> d \<notin> visited then queue @ [d] else queue))"

lemma topo_release_queue:
  "set (snd (topo_release visited ds (deg, queue))) \<subseteq> set queue \<union> set ds"
proof (induction ds arbitrary: deg queue)
  case (Cons d ds)
  show ?case
  proof (cases "deg d")
    case None
    with Cons [of deg queue] show ?thesis by auto
  next
    case (Some n)
    define queue' where "queue' = (if n - 1 = 0 \<and> d \<notin> visited then queue @ [d] else queue)"
    have "set queue' \<subseteq> insert d (set queue)" by (auto simp: queue'_def)
    moreover have "set (snd (topo_release visited ds (deg(d \<mapsto> n - 1), queue')))
        \<subseteq> set queue' \<union> set ds" by (rule Cons)
    moreover have "topo_release visited (d # ds) (deg, queue) =
        topo_release visited ds (deg(d \<mapsto> n - 1), queue')" using Some by (simp add: queue'_def)
    ultimately show ?thesis by auto
  qed
qed simp

text \<open>
  The outer loop. It ends because every round removes an occurrence from the queue and
  either the set of stages that may still be visited or the queue itself gets smaller.
\<close>

function topo_loop ::
  "ldp_plan \<Rightarrow> stage_id list \<Rightarrow> stage_id list \<Rightarrow> (stage_id \<rightharpoonup> nat) \<Rightarrow> stage_id list" where
  "topo_loop p [] result deg = result"
| "topo_loop p (s # queue) result deg =
     (if s \<in> set result then topo_loop p queue result deg
      else let (deg', queue') =
             topo_release (set (result @ [s])) (downstream_stages p s) (deg, queue)
           in topo_loop p queue' (result @ [s]) deg')"
  by pat_completeness auto
termination
proof (relation "inv_image (less_than <*lex*> less_than)
    (\<lambda>(p, queue, result, deg).
      (card ((set queue \<union> set (map to_stage (edges p))) - set result), length queue))",
    goal_cases)
  case 1
  show ?case by (intro wf_inv_image wf_lex_prod) auto
next
  case (2 p s queue result deg)
  then have "(set queue \<union> set (map to_stage (edges p))) - set result =
      (set (s # queue) \<union> set (map to_stage (edges p))) - set result" by auto
  then show ?case by simp
next
  case (3 p s queue result deg x deg' queue')
  let ?old = "(set (s # queue) \<union> set (map to_stage (edges p))) - set result"
  let ?new = "(set queue' \<union> set (map to_stage (edges p))) - set (result @ [s])"
  have "set (downstream_stages p s) \<subseteq> set (map to_stage (edges p))"
    by (auto simp: downstream_stages_def)
  moreover have "queue' = snd (topo_release (set (result @ [s])) (downstream_stages p s) (deg, queue))"
    using 3(2,3) by (metis snd_conv)
  ultimately have "set queue' \<subseteq> set queue \<union> set (map to_stage (edges p))"
    using topo_release_queue [of "set (result @ [s])" "downstream_stages p s" deg queue] by blast
  then have "?new \<subset> ?old" using 3(1) by auto
  then have "card ?new < card ?old" by (intro psubset_card_mono) auto
  then show ?case by simp
qed

definition initial_in_degree :: "ldp_plan \<Rightarrow> stage_id \<rightharpoonup> nat" where
  "initial_in_degree p =
     map_of (map (\<lambda>s. (stage_id s, length (upstream_stages p (stage_id s)))) (stages p))"

definition topological_order :: "ldp_plan \<Rightarrow> stage_id list" where
  "topological_order p =
     (let deg = initial_in_degree p;
          queue = map stage_id (filter (\<lambda>s. deg (stage_id s) = Some 0) (stages p))
      in topo_loop p queue [] deg)"

section \<open>Epoch statistics\<close>

record epoch_stats =
  es_rows :: u64
  es_bytes :: u64
  es_ndv :: "string \<rightharpoonup> u64"
  es_source :: stats_source

definition epoch_stats_exact :: "u64 \<Rightarrow> u64 \<Rightarrow> epoch_stats" where
  "epoch_stats_exact r b = \<lparr>es_rows = r, es_bytes = b, es_ndv = Map.empty, es_source = Exact\<rparr>"

definition epoch_stats_estimated :: "u64 \<Rightarrow> u64 \<Rightarrow> epoch_stats" where
  "epoch_stats_estimated r b =
     \<lparr>es_rows = r, es_bytes = b, es_ndv = Map.empty, es_source = Estimated\<rparr>"

definition with_ndv :: "epoch_stats \<Rightarrow> string \<Rightarrow> u64 \<Rightarrow> epoch_stats" where
  "with_ndv s c n = s\<lparr>es_ndv := (es_ndv s)(c \<mapsto> n)\<rparr>"

end
