(* ===== verification/Planner_Policy.thy ===== *)
theory Planner_Policy
  imports Ldp_Types
begin

text \<open>
  \<^verbatim>\<open>ldp/planner/policy.rs\<close>: the thresholds of the planner, its presets and builder
  methods, and the admission predicates. The lemmas say what a positive answer of a
  predicate guarantees about the unscaled estimates.
\<close>

record planner_policy =
  broadcast_bytes_max :: u64
  shuffle_bytes_max :: u64
  gather_rows_max :: u64
  gather_bytes_max :: u64
  default_partitions :: u32
  policy_coordinator :: worker_id
  safety_factor :: f64
  enable_streaming_pipeline :: bool
  pipeline_buffer_bytes :: u64

definition policy_default :: planner_policy where
  "policy_default =
     \<lparr>broadcast_bytes_max = 256 * 1024 * 1024, shuffle_bytes_max = 2 * 1024 * 1024 * 1024,
      gather_rows_max = 50000000, gather_bytes_max = 5 * 1024 * 1024 * 1024,
      default_partitions = 16, policy_coordinator = worker_default, safety_factor = f64_two,
      enable_streaming_pipeline = False, pipeline_buffer_bytes = 32 * 1024 * 1024\<rparr>"

definition conservative :: planner_policy where
  "conservative =
     \<lparr>broadcast_bytes_max = 0, shuffle_bytes_max = u64_max,
      gather_rows_max = u64_max, gather_bytes_max = u64_max,
      default_partitions = 16, policy_coordinator = worker_default, safety_factor = f64_three,
      enable_streaming_pipeline = False, pipeline_buffer_bytes = 32 * 1024 * 1024\<rparr>"

definition aggressive :: planner_policy where
  "aggressive =
     \<lparr>broadcast_bytes_max = 1024 * 1024 * 1024, shuffle_bytes_max = 10 * 1024 * 1024 * 1024,
      gather_rows_max = 100000000, gather_bytes_max = 10 * 1024 * 1024 * 1024,
      default_partitions = 32, policy_coordinator = worker_default, safety_factor = f64_one_tenth,
      enable_streaming_pipeline = False, pipeline_buffer_bytes = 32 * 1024 * 1024\<rparr>"

definition with_coordinator :: "worker_id \<Rightarrow> planner_policy" where
  "with_coordinator w = policy_default\<lparr>policy_coordinator := w\<rparr>"

definition set_broadcast_bytes_max :: "u64 \<Rightarrow> planner_policy \<Rightarrow> planner_policy" where
  "set_broadcast_bytes_max b pol = pol\<lparr>broadcast_bytes_max := b\<rparr>"

definition set_shuffle_bytes_max :: "u64 \<Rightarrow> planner_policy \<Rightarrow> planner_policy" where
  "set_shuffle_bytes_max b pol = pol\<lparr>shuffle_bytes_max := b\<rparr>"

definition set_gather_rows_max :: "u64 \<Rightarrow> planner_policy \<Rightarrow> planner_policy" where
  "set_gather_rows_max r pol = pol\<lparr>gather_rows_max := r\<rparr>"

definition set_gather_bytes_max :: "u64 \<Rightarrow> planner_policy \<Rightarrow> planner_policy" where
  "set_gather_bytes_max b pol = pol\<lparr>gather_bytes_max := b\<rparr>"

definition set_default_partitions :: "u32 \<Rightarrow> planner_policy \<Rightarrow> planner_policy" where
  "set_default_partitions n pol = pol\<lparr>default_partitions := n\<rparr>"

definition set_safety_factor :: "f64 \<Rightarrow> planner_policy \<Rightarrow> planner_policy" where
  "set_safety_factor f pol = pol\<lparr>safety_factor := f\<rparr>"

definition with_broadcast_enabled :: "bool \<Rightarrow> planner_policy \<Rightarrow> planner_policy" where
  "with_broadcast_enabled enabled pol =
     pol\<lparr>broadcast_bytes_max := if enabled then 256 * 1024 * 1024 else 0\<rparr>"

definition with_streaming_pipeline :: "bool \<Rightarrow> planner_policy \<Rightarrow> planner_policy" where
  "with_streaming_pipeline enabled pol = pol\<lparr>enable_streaming_pipeline := enabled\<rparr>"

definition with_pipeline_buffer_bytes :: "u64 \<Rightarrow> planner_policy \<Rightarrow> planner_policy" where
  "with_pipeline_buffer_bytes b pol = pol\<lparr>pipeline_buffer_bytes := b\<rparr>"

definition for_testing :: planner_policy where
  "for_testing = set_safety_factor f64_one (with_broadcast_enabled True policy_default)"

section \<open>Admission predicates\<close>

definition can_broadcast :: "planner_policy \<Rightarrow> u64 \<Rightarrow> bool" where
  "can_broadcast pol bytes \<longleftrightarrow> bytes \<le> broadcast_bytes_max pol"

definition can_optimize_to_broadcast :: "planner_policy \<Rightarrow> u64 \<Rightarrow> bool \<Rightarrow> bool \<Rightarrow> bool" where
  "can_optimize_to_broadcast pol bytes stats_exact is_join_context \<longleftrightarrow>
     is_join_context \<and> stats_exact \<and> bytes \<le> broadcast_bytes_max pol"

definition can_shuffle :: "planner_policy \<Rightarrow> u64 \<Rightarrow> bool" where
  "can_shuffle pol bytes \<longleftrightarrow> bytes \<le> shuffle_bytes_max pol"

definition can_gather :: "planner_policy \<Rightarrow> u64 \<Rightarrow> u64 \<Rightarrow> bool" where
  "can_gather pol rows bytes \<longleftrightarrow> rows \<le> gather_rows_max pol \<and> bytes \<le> gather_bytes_max pol"

definition can_gather_with_safety :: "planner_policy \<Rightarrow> u64 \<Rightarrow> u64 \<Rightarrow> bool \<Rightarrow> bool" where
  "can_gather_with_safety pol rows bytes stats_exact =
     (let (r, b) = (if stats_exact then (rows, bytes)
        else (scale_u64 rows (safety_factor pol), scale_u64 bytes (safety_factor pol)))
      in r \<le> gather_rows_max pol \<and> b \<le> gather_bytes_max pol)"

definition apply_safety_factor :: "planner_policy \<Rightarrow> u64 \<Rightarrow> bool \<Rightarrow> u64" where
  "apply_safety_factor pol v stats_exact = (if stats_exact then v else scale_u64 v (safety_factor pol))"

section \<open>Lemmas\<close>

text \<open>
  A factor of at least one never lowers an estimate, so an admission under the safety
  factor is an admission without it. The bound \<open>2 ^ 53\<close> is where the conversion to
  \<open>f64\<close> stops being exact.
\<close>

lemma with_safety_factor_ge:
  assumes "f64_ge_one f" and "unat (est_rows a) < 2 ^ 53" and "unat (est_bytes a) < 2 ^ 53"
  shows "est_rows a \<le> fst (with_safety_factor a f)" "est_bytes a \<le> snd (with_safety_factor a f)"
  using assms by (auto simp: with_safety_factor_def intro: scale_u64_ge)

lemma with_safety_factor_exact [simp]:
  "stats_source a = Exact \<Longrightarrow> with_safety_factor a f = (est_rows a, est_bytes a)"
  by (simp add: with_safety_factor_def is_uncertain_def)

lemma can_gather_with_safety_exact [simp]:
  "can_gather_with_safety pol rows bytes True = can_gather pol rows bytes"
  by (simp add: can_gather_with_safety_def can_gather_def)

lemma can_gather_with_safety_sound:
  assumes "f64_ge_one (safety_factor pol)" and "unat rows < 2 ^ 53" and "unat bytes < 2 ^ 53"
    and "can_gather_with_safety pol rows bytes exact"
  shows "can_gather pol rows bytes"
proof (cases exact)
  case True
  with assms(4) show ?thesis by simp
next
  case False
  with assms(4) have "scale_u64 rows (safety_factor pol) \<le> gather_rows_max pol"
    "scale_u64 bytes (safety_factor pol) \<le> gather_bytes_max pol"
    by (simp_all add: can_gather_with_safety_def)
  with scale_u64_ge [OF assms(1,2)] scale_u64_ge [OF assms(1,3)] show ?thesis
    unfolding can_gather_def by (meson order_trans)
qed

lemma presets_factor_ge_one:
  "f64_ge_one (safety_factor policy_default)" "f64_ge_one (safety_factor conservative)"
  "f64_ge_one (safety_factor aggressive)" "f64_ge_one (safety_factor for_testing)"
  by (simp_all add: policy_default_def conservative_def aggressive_def for_testing_def
      set_safety_factor_def with_broadcast_enabled_def f64_two_def f64_three_def
      f64_one_tenth_def f64_one_def)

end
