(* ===== verification/Requirements.thy ===== *)
theory Requirements
  imports Ldp_Types
begin

text \<open>
  \<^verbatim>\<open>ldp/planner/requirements.rs\<close>: the distribution an operator requires of each of its
  inputs, and the satisfaction checks over all inputs of an operator.
\<close>

fun get_logical_plan_requirements :: "logical_plan \<Rightarrow> required_distribution list" where
  "get_logical_plan_requirements (Scan t a f) = []"
| "get_logical_plan_requirements (ExchangeRead i a) = []"
| "get_logical_plan_requirements (Filter p e) = [ReqAny]"
| "get_logical_plan_requirements (Project p xs) = [ReqAny]"
| "get_logical_plan_requirements (Sort p os) = [ReqSingleton]"
| "get_logical_plan_requirements (Limit p l f) = [ReqSingleton]"
| "get_logical_plan_requirements (Aggregate p g xs h group_keys) =
     (if group_keys = [] then [ReqSingleton] else [ReqHashPartitioned group_keys])"
| "get_logical_plan_requirements (Join l r op left_keys right_keys) =
     (if left_keys = [] \<or> right_keys = [] then [ReqAny, ReqSingleton]
      else [ReqHashPartitioned left_keys, ReqHashPartitioned right_keys])"
| "get_logical_plan_requirements (SetOp l r op q) =
     (if op = SetUnion \<and> q = QAll then [ReqAny, ReqAny] else [ReqSingleton, ReqSingleton])"
| "get_logical_plan_requirements (Window p xs partition_keys) =
     (if partition_keys = [] then [ReqSingleton] else [ReqHashPartitioned partition_keys])"
| "get_logical_plan_requirements (SubqueryScan p a) = [ReqAny]"

definition satisfies :: "distribution \<Rightarrow> required_distribution \<Rightarrow> bool" where
  "satisfies actual required = is_satisfied_by required actual"

definition all_satisfied :: "distribution list \<Rightarrow> required_distribution list \<Rightarrow> bool" where
  "all_satisfied ds rs =
     (if length ds \<noteq> length rs then False else list_all (\<lambda>(d, r). satisfies d r) (zip ds rs))"

definition unsatisfied_requirements ::
  "distribution list \<Rightarrow> required_distribution list \<Rightarrow>
   (nat \<times> distribution \<times> required_distribution) list" where
  "unsatisfied_requirements ds rs =
     filter (\<lambda>(i, d, r). \<not> satisfies d r) (zip [0..<min (length ds) (length rs)] (zip ds rs))"

section \<open>Lemmas\<close>

lemma requirements_length [simp]:
  "length (get_logical_plan_requirements p) = length (plan_children p)"
  by (cases p) auto

lemma all_satisfied_list_all2:
  "all_satisfied ds rs \<longleftrightarrow> list_all2 satisfies ds rs"
  by (auto simp: all_satisfied_def list_all2_iff list_all_iff)

lemma set_unsatisfied:
  "(i, d, r) \<in> set (unsatisfied_requirements ds rs) \<longleftrightarrow>
     i < length ds \<and> i < length rs \<and> d = ds ! i \<and> r = rs ! i \<and> \<not> satisfies d r"
  by (auto simp: unsatisfied_requirements_def set_zip intro!: exI [of _ i])

lemma unsatisfied_empty:
  "length ds = length rs \<Longrightarrow> unsatisfied_requirements ds rs = [] \<longleftrightarrow> all_satisfied ds rs"
proof -
  assume len: "length ds = length rs"
  have "unsatisfied_requirements ds rs = [] \<longleftrightarrow>
      (\<forall>i d r. (i, d, r) \<notin> set (unsatisfied_requirements ds rs))"
    by (metis list.set_intros(1) neq_Nil_conv prod_cases3 empty_iff set_empty)
  then show ?thesis
    unfolding all_satisfied_list_all2 set_unsatisfied using len
    by (auto simp: list_all2_conv_all_nth)
qed

text \<open>A requirement on the input of an operator never asks for empty hash keys.\<close>

lemma requirements_keys_nonempty:
  "ReqHashPartitioned ks \<in> set (get_logical_plan_requirements p) \<Longrightarrow> ks \<noteq> []"
  by (cases p) (auto split: if_splits)

end
