(* ===== verification/Exchange_Select.thy ===== *)
theory Exchange_Select
  imports Planner_Policy Requirements
begin

text \<open>
  \<^verbatim>\<open>ldp/planner/exchange.rs\<close>: which exchange brings an input to the distribution its
  operator requires, or the reason to reject the query.
\<close>

datatype reject_reason =
    ShuffleTooLarge u64 u64
  | GatherTooLarge u64 u64 u64 u64
  | CannotDetermineExchange string

datatype exchange_decision = NoExchange | Insert exchange | Reject reject_reason

record join_exchange_context =
  left_annotation :: distribution_annotation
  right_annotation :: distribution_annotation
  left_actual :: distribution
  right_actual :: distribution
  left_keys :: "column_ref list"
  right_keys :: "column_ref list"
  join_policy :: planner_policy
  join_target_workers :: "worker_id list"

definition determine_gather_exchange ::
  "u64 \<Rightarrow> u64 \<Rightarrow> bool \<Rightarrow> planner_policy \<Rightarrow> exchange_decision" where
  "determine_gather_exchange rows bytes stats_exact policy =
     (if can_gather_with_safety policy rows bytes stats_exact
      then Insert (Gather (policy_coordinator policy))
      else Reject (GatherTooLarge rows bytes (gather_rows_max policy) (gather_bytes_max policy)))"

definition determine_hash_or_broadcast_exchange ::
  "distribution \<Rightarrow> distribution_annotation \<Rightarrow> column_ref list \<Rightarrow> planner_policy \<Rightarrow> bool \<Rightarrow>
   worker_id list \<Rightarrow> exchange_decision" where
  "determine_hash_or_broadcast_exchange actual annotation required_refs policy is_join targets =
     (let bytes = snd (with_safety_factor annotation (safety_factor policy));
          stats_exact = is_exact (stats_source annotation)
      in if can_optimize_to_broadcast policy bytes stats_exact is_join
         then Insert (Broadcast (if targets = [] then dist_workers actual else targets))
         else if \<not> can_shuffle policy bytes
         then Reject (ShuffleTooLarge bytes (shuffle_bytes_max policy))
         else Insert (HashPartition required_refs (default_partitions policy)))"

definition determine_exchange ::
  "distribution \<Rightarrow> distribution_annotation \<Rightarrow> required_distribution \<Rightarrow> planner_policy \<Rightarrow> bool \<Rightarrow>
   worker_id list \<Rightarrow> exchange_decision" where
  "determine_exchange actual annotation required policy is_join targets =
     (if is_satisfied_by required actual then NoExchange
      else let (rows, bytes) = with_safety_factor annotation (safety_factor policy);
               stats_exact = is_exact (stats_source annotation)
           in case required of
                ReqAny \<Rightarrow> NoExchange
              | ReqSingleton \<Rightarrow> determine_gather_exchange rows bytes stats_exact policy
              | ReqHashPartitioned refs \<Rightarrow>
                  determine_hash_or_broadcast_exchange actual annotation refs policy is_join targets)"

fun is_replicated :: "distribution \<Rightarrow> bool" where
  "is_replicated (Replicated ws) = True"
| "is_replicated _ = False"

text \<open>The co-partitioning test of the second shortcut.\<close>

fun co_partitioned ::
  "distribution \<Rightarrow> distribution \<Rightarrow> column_ref list \<Rightarrow> column_ref list \<Rightarrow> bool" where
  "co_partitioned (HashPartitioned lp lw) (HashPartitioned rp rw) lk rk =
     (keys_match lp lk \<and> keys_match rp rk \<and> lw = rw)"
| "co_partitioned _ _ lk rk = False"

definition insert_unless :: "bool \<Rightarrow> exchange \<Rightarrow> exchange_decision" where
  "insert_unless satisfied ex = (if satisfied then NoExchange else Insert ex)"

definition determine_join_exchanges ::
  "join_exchange_context \<Rightarrow> exchange_decision \<times> exchange_decision" where
  "determine_join_exchanges ctx =
     (let policy = join_policy ctx;
          lk = left_keys ctx; rk = right_keys ctx;
          la = left_actual ctx; ra = right_actual ctx;
          targets = join_target_workers ctx
      in if is_replicated ra then (NoExchange, NoExchange)
         else if co_partitioned la ra lk rk then (NoExchange, NoExchange)
         else let left_satisfied = is_satisfied_by (ReqHashPartitioned lk) la;
                  right_satisfied = is_satisfied_by (ReqHashPartitioned rk) ra
              in if left_satisfied \<and> right_satisfied then (NoExchange, NoExchange)
              else let left_bytes = snd (with_safety_factor (left_annotation ctx) (safety_factor policy));
                       right_bytes = snd (with_safety_factor (right_annotation ctx) (safety_factor policy));
                       left_exact = is_exact (stats_source (left_annotation ctx));
                       right_exact = is_exact (stats_source (right_annotation ctx));
                       left_can = can_optimize_to_broadcast policy left_bytes left_exact True;
                       right_can = can_optimize_to_broadcast policy right_bytes right_exact True;
                       for_left = (if targets \<noteq> [] then targets else dist_workers ra);
                       for_right = (if targets \<noteq> [] then targets else dist_workers la)
                   in case (left_can, right_can) of
                        (True, True) \<Rightarrow>
                          if left_bytes \<le> right_bytes
                          then (insert_unless left_satisfied (Broadcast for_left), NoExchange)
                          else (NoExchange, insert_unless right_satisfied (Broadcast for_right))
                      | (True, False) \<Rightarrow>
                          (insert_unless left_satisfied (Broadcast for_left), NoExchange)
                      | (False, True) \<Rightarrow>
                          (NoExchange, insert_unless right_satisfied (Broadcast for_right))
                      | (False, False) \<Rightarrow>
                          let total = left_bytes + right_bytes
                          in if \<not> can_shuffle policy total
                             then (Reject (ShuffleTooLarge total (shuffle_bytes_max policy)),
                                   Reject (ShuffleTooLarge total (shuffle_bytes_max policy)))
                             else (insert_unless left_satisfied
                                     (HashPartition lk (default_partitions policy)),
                                   insert_unless right_satisfied
                                     (HashPartition rk (default_partitions policy))))"

section \<open>Lemmas\<close>

lemma determine_exchange_none_iff:
  "determine_exchange actual annotation required policy is_join targets = NoExchange \<longleftrightarrow>
     is_satisfied_by required actual"
  by (cases required)
    (auto simp: determine_exchange_def determine_gather_exchange_def
      determine_hash_or_broadcast_exchange_def Let_def split: prod.splits)

lemma determine_exchange_gather:
  assumes "determine_exchange actual a required policy is_join targets = Insert (Gather w)"
  shows "required = ReqSingleton" "w = policy_coordinator policy"
    "can_gather_with_safety policy (fst (with_safety_factor a (safety_factor policy)))
       (snd (with_safety_factor a (safety_factor policy))) (is_exact (stats_source a))"
  using assms
  by (cases required; auto simp: determine_exchange_def determine_gather_exchange_def
      determine_hash_or_broadcast_exchange_def Let_def split: prod.splits if_splits)+

lemma determine_exchange_broadcast:
  assumes "determine_exchange actual a required policy is_join targets = Insert (Broadcast ws)"
  shows "is_join" "stats_source a = Exact" "est_bytes a \<le> broadcast_bytes_max policy"
    "ws = (if targets = [] then dist_workers actual else targets)"
  using assms
  by (cases required; auto simp: determine_exchange_def determine_gather_exchange_def
      determine_hash_or_broadcast_exchange_def can_optimize_to_broadcast_def Let_def
      split: prod.splits if_splits)+

lemma determine_exchange_hash:
  assumes "determine_exchange actual a required policy is_join targets = Insert (HashPartition ks n)"
  shows "required = ReqHashPartitioned ks" "n = default_partitions policy"
    "snd (with_safety_factor a (safety_factor policy)) \<le> shuffle_bytes_max policy"
  using assms
  by (cases required; auto simp: determine_exchange_def determine_gather_exchange_def
      determine_hash_or_broadcast_exchange_def can_shuffle_def Let_def
      split: prod.splits if_splits)+

text \<open>A join decision never inserts a gather, and a rejection is a rejection of both sides.\<close>

lemma join_exchanges_reject:
  "(\<exists>r. fst (determine_join_exchanges ctx) = Reject r) \<longleftrightarrow>
   (\<exists>r. snd (determine_join_exchanges ctx) = Reject r)"
  by (auto simp: determine_join_exchanges_def insert_unless_def Let_def split: bool.splits if_splits)


text \<open>
  The outcomes of a join decision. In \<open>skip_left\<close> and \<open>skip_right\<close> the side chosen for
  the broadcast is already partitioned by its keys, so nothing is inserted, and the other
  side stays as it is.
\<close>

abbreviation join_left_sat :: "join_exchange_context \<Rightarrow> bool" where
  "join_left_sat ctx \<equiv> is_satisfied_by (ReqHashPartitioned (left_keys ctx)) (left_actual ctx)"

abbreviation join_right_sat :: "join_exchange_context \<Rightarrow> bool" where
  "join_right_sat ctx \<equiv> is_satisfied_by (ReqHashPartitioned (right_keys ctx)) (right_actual ctx)"

abbreviation small_exact :: "planner_policy \<Rightarrow> distribution_annotation \<Rightarrow> bool" where
  "small_exact policy a \<equiv> stats_source a = Exact \<and> est_bytes a \<le> broadcast_bytes_max policy"

abbreviation join_bytes :: "join_exchange_context \<Rightarrow> u64" where
  "join_bytes ctx \<equiv> snd (with_safety_factor (left_annotation ctx) (safety_factor (join_policy ctx))) +
     snd (with_safety_factor (right_annotation ctx) (safety_factor (join_policy ctx)))"

lemma can_optimize_exact:
  "can_optimize_to_broadcast policy (snd (with_safety_factor a f)) (is_exact (stats_source a)) True \<longleftrightarrow>
     small_exact policy a"
  by (auto simp: can_optimize_to_broadcast_def)

lemma co_partitioned_sat:
  "co_partitioned d e lk rk \<Longrightarrow>
     is_satisfied_by (ReqHashPartitioned lk) d \<and> is_satisfied_by (ReqHashPartitioned rk) e"
  by (cases "(d, e, lk, rk)" rule: co_partitioned.cases) (auto simp: keys_match_sym)

lemma join_exchanges_cases:
  obtains
    (placed) "determine_join_exchanges ctx = (NoExchange, NoExchange)"
      "is_replicated (right_actual ctx) \<or> join_left_sat ctx \<and> join_right_sat ctx"
  | (skip_left) "determine_join_exchanges ctx = (NoExchange, NoExchange)"
      "small_exact (join_policy ctx) (left_annotation ctx)" "join_left_sat ctx" "\<not> join_right_sat ctx"
  | (skip_right) "determine_join_exchanges ctx = (NoExchange, NoExchange)"
      "small_exact (join_policy ctx) (right_annotation ctx)" "join_right_sat ctx" "\<not> join_left_sat ctx"
  | (broadcast_left) ws where "determine_join_exchanges ctx = (Insert (Broadcast ws), NoExchange)"
      "small_exact (join_policy ctx) (left_annotation ctx)"
      "ws = (if join_target_workers ctx \<noteq> [] then join_target_workers ctx else dist_workers (right_actual ctx))"
  | (broadcast_right) ws where "determine_join_exchanges ctx = (NoExchange, Insert (Broadcast ws))"
      "small_exact (join_policy ctx) (right_annotation ctx)"
      "ws = (if join_target_workers ctx \<noteq> [] then join_target_workers ctx else dist_workers (left_actual ctx))"
  | (too_large) "determine_join_exchanges ctx =
        (Reject (ShuffleTooLarge (join_bytes ctx) (shuffle_bytes_max (join_policy ctx))),
         Reject (ShuffleTooLarge (join_bytes ctx) (shuffle_bytes_max (join_policy ctx))))"
      "shuffle_bytes_max (join_policy ctx) < join_bytes ctx"
  | (shuffle) "determine_join_exchanges ctx =
        (insert_unless (join_left_sat ctx)
           (HashPartition (left_keys ctx) (default_partitions (join_policy ctx))),
         insert_unless (join_right_sat ctx)
           (HashPartition (right_keys ctx) (default_partitions (join_policy ctx))))"
      "join_bytes ctx \<le> shuffle_bytes_max (join_policy ctx)"
proof -
  let ?d = "determine_join_exchanges ctx" and ?p = "join_policy ctx"
  let ?sl = "small_exact ?p (left_annotation ctx)" and ?sr = "small_exact ?p (right_annotation ctx)"
  let ?lb = "snd (with_safety_factor (left_annotation ctx) (safety_factor ?p))"
  let ?rb = "snd (with_safety_factor (right_annotation ctx) (safety_factor ?p))"
  let ?wl = "if join_target_workers ctx \<noteq> [] then join_target_workers ctx else dist_workers (right_actual ctx)"
  let ?wr = "if join_target_workers ctx \<noteq> [] then join_target_workers ctx else dist_workers (left_actual ctx)"
  consider
      (a) "is_replicated (right_actual ctx) \<or> co_partitioned (left_actual ctx) (right_actual ctx) (left_keys ctx) (right_keys ctx) \<or>
        join_left_sat ctx \<and> join_right_sat ctx" "?d = (NoExchange, NoExchange)"
    | (b) "?sl" "\<not> (join_left_sat ctx \<and> join_right_sat ctx)"
        "?d = (insert_unless (join_left_sat ctx) (Broadcast ?wl), NoExchange)"
    | (c) "?sr" "\<not> (join_left_sat ctx \<and> join_right_sat ctx)"
        "?d = (NoExchange, insert_unless (join_right_sat ctx) (Broadcast ?wr))"
    | (d) "\<not> can_shuffle ?p (?lb + ?rb)" "?d = (Reject (ShuffleTooLarge (?lb + ?rb) (shuffle_bytes_max ?p)),
        Reject (ShuffleTooLarge (?lb + ?rb) (shuffle_bytes_max ?p)))"
    | (e) "can_shuffle ?p (?lb + ?rb)" "?d =
        (insert_unless (join_left_sat ctx) (HashPartition (left_keys ctx) (default_partitions ?p)),
         insert_unless (join_right_sat ctx) (HashPartition (right_keys ctx) (default_partitions ?p)))"
    unfolding determine_join_exchanges_def Let_def can_optimize_exact
    by (cases "is_replicated (right_actual ctx)";
        cases "co_partitioned (left_actual ctx) (right_actual ctx) (left_keys ctx) (right_keys ctx)";
        cases "join_left_sat ctx \<and> join_right_sat ctx"; cases ?sl; cases ?sr; cases "?lb \<le> ?rb";
        cases "can_shuffle ?p (?lb + ?rb)"; simp only: if_True if_False bool.case prod.case simp_thms)
  then show ?thesis
  proof cases
    case a
    then show ?thesis using placed co_partitioned_sat by blast
  next
    case b
    then show ?thesis using skip_left broadcast_left by (cases "join_left_sat ctx") (auto simp: insert_unless_def)
  next
    case c
    then show ?thesis using skip_right broadcast_right by (cases "join_right_sat ctx") (auto simp: insert_unless_def)
  next
    case d
    then show ?thesis using too_large by (simp add: can_shuffle_def)
  next
    case e
    then show ?thesis using shuffle by (simp add: can_shuffle_def)
  qed
qed

end
