(* ===== verification/Storage_Types.thy ===== *)
theory Storage_Types
  imports Ldp_Types
begin

text \<open>
  \<^verbatim>\<open>engine/storage_engine.rs\<close>: the values the storage engine exchanges with its
  clients. An Arrow schema is the third-party type \<open>'s\<close>. A \<open>HashMap\<close> is a finite map.
\<close>

datatype storage_error =
    ArrowError string
  | IoError string
  | InvalidArgument string
  | BackendError string string
  | ShuttingDown

record epoch_memory_stats =
  em_dataset_id :: string
  em_epoch_id :: string
  em_rows_count :: u64
  em_approx_bytes :: u64

record memory_stats =
  total_storage_bytes_estimate :: u64
  ms_epochs :: "epoch_memory_stats list"

record 's table_metadata =
  tm_table_name :: string
  tm_total_rows :: u64
  tm_total_bytes :: u64
  tm_create_at :: u64
  tm_schema :: 's

record epoch_view =
  ev_epoch_id :: string
  ev_table_name :: string
  ev_time_range :: "u64 \<times> u64"
  ev_time_column_name :: string
  ev_time_partition_value :: string
  ev_dimension_values :: "string \<rightharpoonup> string"

record engine_metrics =
  total_batches_written :: u64
  total_rows_written :: u64
  total_flushes :: u64
  active_epochs :: nat
  committed_epochs :: nat

end
