(* ===== verification/Metadata.thy ===== *)
theory Metadata
  imports Storage_Types Rust_Text
begin

text \<open>
  \<^verbatim>\<open>ldp/planner/metadata.rs\<close> and \<^verbatim>\<open>ldp/planner/storage_metadata.rs\<close>: the
  statistics and placement the planner reads. The \<open>Metadata\<close> trait is the record of its four
  methods; \<open>InMemoryMetadata\<close> and \<open>ClusterMetadata\<close> are states with their operations
  and the record each of them implements. The iteration order of a \<open>HashMap\<close> is an argument
  of the definitions that iterate over one.
\<close>

section \<open>Scan statistics\<close>

record table_scan_stats =
  ts_rows :: u64
  ts_bytes :: u64
  ts_workers :: "worker_id list"
  ts_source :: stats_source
  ts_distribution :: "distribution option"

definition to_distribution :: "table_scan_stats \<Rightarrow> distribution" where
  "to_distribution s =
     (case ts_distribution s of
        Some d \<Rightarrow> d
      | None \<Rightarrow> if length (ts_workers s) = 1 then Singleton (ts_workers s ! 0)
                else EpochPartitioned (ts_workers s))"

record metadata_ops =
  get_epoch_stats :: "string \<Rightarrow> epoch_stats option"
  get_epoch_worker :: "string \<Rightarrow> worker_id option"
  get_epochs_for_table :: "string \<Rightarrow> string option \<Rightarrow> string option \<Rightarrow> (string \<times> worker_id) list"
  get_table_scan_stats :: "string \<Rightarrow> table_scan_stats"

text \<open>
  The loop over the epochs of a table: totals, the workers in order of first appearance, and
  whether all statistics are exact.
\<close>

fun scan_step ::
  "(string \<Rightarrow> epoch_stats option) \<Rightarrow> string \<times> worker_id \<Rightarrow>
   u64 \<times> u64 \<times> worker_id list \<times> bool \<Rightarrow> u64 \<times> u64 \<times> worker_id list \<times> bool" where
  "scan_step stats_of (epoch, worker) (rows, bytes, workers, all_exact) =
     (case stats_of epoch of
        Some s \<Rightarrow> (rows + es_rows s, bytes + es_bytes s, push_new workers worker,
                   all_exact \<and> es_source s = Exact)
      | None \<Rightarrow> (rows, bytes, push_new workers worker, False))"

definition aggregate_scan_stats ::
  "(string \<Rightarrow> epoch_stats option) \<Rightarrow> (string \<times> worker_id) list \<Rightarrow> table_scan_stats" where
  "aggregate_scan_stats stats_of epochs =
     (let (rows, bytes, workers, all_exact) = fold (scan_step stats_of) epochs (0, 0, [], True)
      in \<lparr>ts_rows = rows, ts_bytes = bytes, ts_workers = workers,
          ts_source = (if all_exact \<and> epochs \<noteq> [] then Exact
                       else if epochs \<noteq> [] then Estimated else Unknown),
          ts_distribution = None\<rparr>)"

section \<open>The in-memory provider\<close>

record in_memory_metadata =
  im_epochs :: "string \<rightharpoonup> epoch_stats \<times> worker_id"
  im_table_epochs :: "string \<rightharpoonup> (string \<times> (u64 \<times> u64) option) list"
  im_table_stats :: "string \<rightharpoonup> table_scan_stats"

definition in_memory_new :: in_memory_metadata where
  "in_memory_new =
     \<lparr>im_epochs = Map.empty, im_table_epochs = Map.empty, im_table_stats = Map.empty\<rparr>"

text \<open>\<open>entry(key).or_default().push(x)\<close>.\<close>

definition entry_push :: "('k \<rightharpoonup> 'v list) \<Rightarrow> 'k \<Rightarrow> 'v \<Rightarrow> 'k \<rightharpoonup> 'v list" where
  "entry_push m k v = m(k \<mapsto> (case m k of None \<Rightarrow> [v] | Some vs \<Rightarrow> vs @ [v]))"

definition add_epoch ::
  "string \<Rightarrow> string \<Rightarrow> epoch_stats \<Rightarrow> worker_id \<Rightarrow> in_memory_metadata \<Rightarrow> in_memory_metadata" where
  "add_epoch epoch table stats worker m =
     m\<lparr>im_epochs := (im_epochs m)(epoch \<mapsto> (stats, worker)),
       im_table_epochs := entry_push (im_table_epochs m) table (epoch, None)\<rparr>"

definition add_epoch_with_time_range ::
  "string \<Rightarrow> string \<Rightarrow> epoch_stats \<Rightarrow> worker_id \<Rightarrow> u64 \<times> u64 \<Rightarrow>
   in_memory_metadata \<Rightarrow> in_memory_metadata" where
  "add_epoch_with_time_range epoch table stats worker tr m =
     m\<lparr>im_epochs := (im_epochs m)(epoch \<mapsto> (stats, worker)),
       im_table_epochs := entry_push (im_table_epochs m) table (epoch, Some tr)\<rparr>"

definition in_memory_sort_epochs_by_time :: "string \<Rightarrow> in_memory_metadata \<Rightarrow> in_memory_metadata" where
  "in_memory_sort_epochs_by_time table m =
     (case im_table_epochs m table of
        None \<Rightarrow> m
      | Some es \<Rightarrow> m\<lparr>im_table_epochs := (im_table_epochs m)(table \<mapsto>
          sort_key (\<lambda>(_, tr). case tr of Some (start, _) \<Rightarrow> start | None \<Rightarrow> 0) es)\<rparr>)"

definition register_table_stats ::
  "string \<Rightarrow> worker_id list \<Rightarrow> distribution \<Rightarrow> u64 \<Rightarrow> u64 \<Rightarrow> stats_source \<Rightarrow>
   in_memory_metadata \<Rightarrow> in_memory_metadata" where
  "register_table_stats table workers d rows bytes source m =
     m\<lparr>im_table_stats := (im_table_stats m)(table \<mapsto>
        \<lparr>ts_rows = rows, ts_bytes = bytes, ts_workers = workers, ts_source = source,
         ts_distribution = Some d\<rparr>)\<rparr>"

text \<open>\<open>x.and_then(parse)\<close> on an optional bound.\<close>

definition parse_bound :: "(string \<Rightarrow> u64 option) \<Rightarrow> string option \<Rightarrow> u64 option" where
  "parse_bound parse b = Option.bind b parse"

definition query_overlap :: "u64 \<times> u64 \<Rightarrow> u64 option \<Rightarrow> u64 option \<Rightarrow> bool" where
  "query_overlap tr start stop =
     (case tr of (epoch_start, epoch_end) \<Rightarrow>
       epoch_start < (case stop of Some e \<Rightarrow> e | None \<Rightarrow> u64_max) \<and>
       epoch_end > (case start of Some s \<Rightarrow> s | None \<Rightarrow> 0))"

definition epoch_in_range :: "(u64 \<times> u64) option \<Rightarrow> u64 option \<Rightarrow> u64 option \<Rightarrow> bool" where
  "epoch_in_range tr start stop =
     (case (tr, start, stop) of
        (None, _, _) \<Rightarrow> True
      | (_, None, None) \<Rightarrow> True
      | (Some r, _, _) \<Rightarrow> query_overlap r start stop)"

definition scan_prefix :: string where "scan_prefix = ''scan_''"

definition resolve_table_name :: "in_memory_metadata \<Rightarrow> string \<Rightarrow> string" where
  "resolve_table_name m table =
     (if im_table_epochs m table \<noteq> None then table
      else case strip_prefix scan_prefix table of
             Some base \<Rightarrow> if im_table_epochs m base \<noteq> None then base else table
           | None \<Rightarrow> table)"

definition in_memory_epochs_for_table ::
  "in_memory_metadata \<Rightarrow> string \<Rightarrow> string option \<Rightarrow> string option \<Rightarrow> (string \<times> worker_id) list" where
  "in_memory_epochs_for_table m table start stop =
     (let start_ms = parse_bound parse_u64 start; stop_ms = parse_bound parse_u64 stop
      in case im_table_epochs m (resolve_table_name m table) of
           None \<Rightarrow> []
         | Some entries \<Rightarrow> List.map_filter (\<lambda>(i, tr).
             if epoch_in_range tr start_ms stop_ms
             then map_option (\<lambda>(_, w). (i, w)) (im_epochs m i) else None) entries)"

definition in_memory_epoch_stats :: "in_memory_metadata \<Rightarrow> string \<Rightarrow> epoch_stats option" where
  "in_memory_epoch_stats m epoch = map_option fst (im_epochs m epoch)"

definition in_memory_epoch_worker :: "in_memory_metadata \<Rightarrow> string \<Rightarrow> worker_id option" where
  "in_memory_epoch_worker m epoch = map_option snd (im_epochs m epoch)"

definition in_memory_table_scan_stats :: "in_memory_metadata \<Rightarrow> string \<Rightarrow> table_scan_stats" where
  "in_memory_table_scan_stats m table =
     (let aggregated = aggregate_scan_stats (in_memory_epoch_stats m)
            (in_memory_epochs_for_table m table None None)
      in case im_table_stats m table of
           Some s \<Rightarrow> s
         | None \<Rightarrow> (case strip_prefix scan_prefix table of
             Some base \<Rightarrow> (case im_table_stats m base of Some s \<Rightarrow> s | None \<Rightarrow> aggregated)
           | None \<Rightarrow> aggregated))"

definition in_memory_ops :: "in_memory_metadata \<Rightarrow> metadata_ops" where
  "in_memory_ops m =
     \<lparr>get_epoch_stats = in_memory_epoch_stats m, get_epoch_worker = in_memory_epoch_worker m,
      get_epochs_for_table = in_memory_epochs_for_table m,
      get_table_scan_stats = in_memory_table_scan_stats m\<rparr>"

section \<open>The cluster provider\<close>

record epoch_placement =
  ep_epoch_id :: string
  ep_dataset_id :: string
  ep_worker_id :: worker_id
  ep_time_range :: "u64 \<times> u64"
  ep_stats :: epoch_stats

definition overlaps_time_range :: "epoch_placement \<Rightarrow> u64 option \<Rightarrow> u64 option \<Rightarrow> bool" where
  "overlaps_time_range p start stop = query_overlap (ep_time_range p) start stop"

record cluster_metadata =
  cm_epochs :: "string \<times> string \<rightharpoonup> epoch_placement"
  cm_dataset_epochs :: "string \<rightharpoonup> string list"
  cm_local_worker :: "worker_id option"

definition cluster_new :: cluster_metadata where
  "cluster_new =
     \<lparr>cm_epochs = Map.empty, cm_dataset_epochs = Map.empty, cm_local_worker = None\<rparr>"

definition with_local_worker :: "worker_id \<Rightarrow> cluster_metadata" where
  "with_local_worker w = cluster_new\<lparr>cm_local_worker := Some w\<rparr>"

definition set_local_worker :: "worker_id \<Rightarrow> cluster_metadata \<Rightarrow> cluster_metadata" where
  "set_local_worker w m = m\<lparr>cm_local_worker := Some w\<rparr>"

definition register_epoch :: "epoch_placement \<Rightarrow> cluster_metadata \<Rightarrow> cluster_metadata" where
  "register_epoch p m =
     m\<lparr>cm_dataset_epochs := entry_push (cm_dataset_epochs m) (ep_dataset_id p) (ep_epoch_id p),
       cm_epochs := (cm_epochs m)((ep_dataset_id p, ep_epoch_id p) \<mapsto> p)\<rparr>"

definition register_from_epoch_view ::
  "string \<Rightarrow> epoch_view \<Rightarrow> string \<Rightarrow> u64 \<Rightarrow> u64 \<Rightarrow> cluster_metadata \<Rightarrow> cluster_metadata" where
  "register_from_epoch_view dataset view worker rows bytes m =
     register_epoch \<lparr>ep_epoch_id = ev_epoch_id view, ep_dataset_id = dataset,
       ep_worker_id = WorkerId worker, ep_time_range = ev_time_range view,
       ep_stats = epoch_stats_exact rows bytes\<rparr> m"

definition epochs_for ::
  "cluster_metadata \<Rightarrow> string \<Rightarrow> u64 option \<Rightarrow> u64 option \<Rightarrow> (string \<times> worker_id) list" where
  "epochs_for m dataset start stop =
     (case cm_dataset_epochs m dataset of
        None \<Rightarrow> []
      | Some ids \<Rightarrow> List.map_filter (\<lambda>i.
          case cm_epochs m (dataset, i) of
            None \<Rightarrow> None
          | Some p \<Rightarrow> if overlaps_time_range p start stop then Some (i, ep_worker_id p) else None) ids)"

definition worker_for :: "cluster_metadata \<Rightarrow> string \<Rightarrow> string \<Rightarrow> worker_id option" where
  "worker_for m dataset epoch = map_option ep_worker_id (cm_epochs m (dataset, epoch))"

definition stats_for :: "cluster_metadata \<Rightarrow> string \<Rightarrow> string \<Rightarrow> epoch_stats option" where
  "stats_for m dataset epoch = map_option ep_stats (cm_epochs m (dataset, epoch))"

definition epoch_start :: "cluster_metadata \<Rightarrow> string \<Rightarrow> string \<Rightarrow> u64" where
  "epoch_start m dataset epoch =
     (case cm_epochs m (dataset, epoch) of Some p \<Rightarrow> fst (ep_time_range p) | None \<Rightarrow> 0)"

definition cluster_sort_epochs_by_time :: "string \<Rightarrow> cluster_metadata \<Rightarrow> cluster_metadata" where
  "cluster_sort_epochs_by_time dataset m =
     (case cm_dataset_epochs m dataset of
        None \<Rightarrow> m
      | Some ids \<Rightarrow> m\<lparr>cm_dataset_epochs := (cm_dataset_epochs m)(dataset \<mapsto>
          sort_key (epoch_start m dataset) ids)\<rparr>)"

definition workers_for_dataset :: "cluster_metadata \<Rightarrow> string \<Rightarrow> worker_id list" where
  "workers_for_dataset m dataset =
     (case cm_dataset_epochs m dataset of
        None \<Rightarrow> []
      | Some ids \<Rightarrow> fold (\<lambda>i ws. case cm_epochs m (dataset, i) of
          Some p \<Rightarrow> push_new ws (ep_worker_id p) | None \<Rightarrow> ws) ids [])"

definition fallback_placement :: "epoch_memory_stats \<Rightarrow> string \<Rightarrow> epoch_placement" where
  "fallback_placement stat worker =
     \<lparr>ep_epoch_id = em_epoch_id stat, ep_dataset_id = em_dataset_id stat,
      ep_worker_id = WorkerId worker, ep_time_range = (0, u64_max),
      ep_stats = epoch_stats_exact (em_rows_count stat) (em_approx_bytes stat)\<rparr>"

text \<open>
  \<open>keys\<close> is the iteration order of the keys of a \<open>HashMap\<close> (\<open>datasets\<close> collects it).
\<close>

definition from_memory_stats ::
  "((string \<rightharpoonup> string list) \<Rightarrow> string list) \<Rightarrow> memory_stats \<Rightarrow>
   (string \<rightharpoonup> epoch_view \<times> u64 \<times> u64) \<Rightarrow> string \<Rightarrow> cluster_metadata" where
  "from_memory_stats keys stats views worker =
     (let m = fold (\<lambda>stat m.
            case views (em_dataset_id stat @ ''__'' @ em_epoch_id stat) of
              Some (view, rows, bytes) \<Rightarrow>
                register_from_epoch_view (em_dataset_id stat) view worker rows bytes m
            | None \<Rightarrow> register_epoch (fallback_placement stat worker) m)
          (ms_epochs stats) (with_local_worker (WorkerId worker))
      in fold cluster_sort_epochs_by_time (keys (cm_dataset_epochs m)) m)"

text \<open>
  The trait methods look an epoch up by its identifier alone: the first entry of the
  iteration order whose epoch identifier, or whose joined name, is the one asked for.
\<close>

definition find_epoch ::
  "((string \<times> string) \<times> epoch_placement) list \<Rightarrow> string \<Rightarrow> epoch_placement option" where
  "find_epoch entries epoch =
     map_option snd (find (\<lambda>((d, e), p). e = epoch \<or> d @ ''__'' @ e = epoch) entries)"

definition parse_epoch_timestamp :: "string \<Rightarrow> u64 option" where
  "parse_epoch_timestamp s =
     (case parse_u64 s of
        Some ts \<Rightarrow> Some ts
      | None \<Rightarrow> parse_u64 (hd (split_char (CHR ''_'') s)))"

definition cluster_epoch_stats ::
  "((string \<times> string \<rightharpoonup> epoch_placement) \<Rightarrow> ((string \<times> string) \<times> epoch_placement) list) \<Rightarrow>
   cluster_metadata \<Rightarrow> string \<Rightarrow> epoch_stats option" where
  "cluster_epoch_stats iter m epoch = map_option ep_stats (find_epoch (iter (cm_epochs m)) epoch)"

definition cluster_epoch_worker ::
  "((string \<times> string \<rightharpoonup> epoch_placement) \<Rightarrow> ((string \<times> string) \<times> epoch_placement) list) \<Rightarrow>
   cluster_metadata \<Rightarrow> string \<Rightarrow> worker_id option" where
  "cluster_epoch_worker iter m epoch = map_option ep_worker_id (find_epoch (iter (cm_epochs m)) epoch)"

definition cluster_epochs_for_table ::
  "cluster_metadata \<Rightarrow> string \<Rightarrow> string option \<Rightarrow> string option \<Rightarrow> (string \<times> worker_id) list" where
  "cluster_epochs_for_table m table start stop =
     epochs_for m table (parse_bound parse_epoch_timestamp start) (parse_bound parse_epoch_timestamp stop)"

text \<open>\<open>ClusterMetadata\<close> keeps the default \<open>get_table_scan_stats\<close> of the trait.\<close>

definition default_table_scan_stats ::
  "(string \<Rightarrow> epoch_stats option) \<Rightarrow>
   (string \<Rightarrow> string option \<Rightarrow> string option \<Rightarrow> (string \<times> worker_id) list) \<Rightarrow>
   string \<Rightarrow> table_scan_stats" where
  "default_table_scan_stats stats_of epochs_of table =
     aggregate_scan_stats stats_of (epochs_of table None None)"

definition cluster_ops ::
  "((string \<times> string \<rightharpoonup> epoch_placement) \<Rightarrow> ((string \<times> string) \<times> epoch_placement) list) \<Rightarrow>
   cluster_metadata \<Rightarrow> metadata_ops" where
  "cluster_ops iter m =
     \<lparr>get_epoch_stats = cluster_epoch_stats iter m, get_epoch_worker = cluster_epoch_worker iter m,
      get_epochs_for_table = cluster_epochs_for_table m,
      get_table_scan_stats =
        default_table_scan_stats (cluster_epoch_stats iter m) (cluster_epochs_for_table m)\<rparr>"


section \<open>The storage-backed provider\<close>

text \<open>
  \<open>StorageEngineMetadata\<close> caches a \<open>ClusterMetadata\<close>. \<open>refresh\<close> rebuilds the cache
  from three calls of the storage engine, which are arguments here; a failing
  \<open>list_epochs\<close> is logged and skipped, a failing \<open>get_epoch_stats\<close> aborts the
  refresh and leaves the cache as it was. \<open>order\<close> is the iteration order of a \<open>HashSet\<close>.
\<close>

record storage_engine_metadata =
  sm_cached :: cluster_metadata
  sm_worker_id :: worker_id

definition storage_metadata_new :: "worker_id \<Rightarrow> storage_engine_metadata" where
  "storage_metadata_new w = \<lparr>sm_cached = with_local_worker w, sm_worker_id = w\<rparr>"

definition collect_epoch_views ::
  "(string \<Rightarrow> 'err + epoch_view list) \<Rightarrow> string list \<Rightarrow> string \<times> string \<rightharpoonup> epoch_view" where
  "collect_epoch_views list_epochs datasets =
     fold (\<lambda>d m. case list_epochs d of
         Inl err \<Rightarrow> m
       | Inr views \<Rightarrow> fold (\<lambda>v m. m((d, ev_epoch_id v) \<mapsto> v)) views m) datasets Map.empty"

definition refresh_placement ::
  "worker_id \<Rightarrow> (string \<times> string \<rightharpoonup> epoch_view) \<Rightarrow> epoch_memory_stats \<Rightarrow> epoch_stats option \<Rightarrow>
   epoch_placement" where
  "refresh_placement w views stat detailed =
     \<lparr>ep_epoch_id = em_epoch_id stat, ep_dataset_id = em_dataset_id stat, ep_worker_id = w,
      ep_time_range = (case views (em_dataset_id stat, em_epoch_id stat) of
          Some v \<Rightarrow> ev_time_range v | None \<Rightarrow> (0, u64_max)),
      ep_stats = (case detailed of Some s \<Rightarrow> s
          | None \<Rightarrow> epoch_stats_exact (em_rows_count stat) (em_approx_bytes stat))\<rparr>"

fun refresh_register ::
  "(string \<Rightarrow> string \<Rightarrow> 'err + epoch_stats option) \<Rightarrow> worker_id \<Rightarrow>
   (string \<times> string \<rightharpoonup> epoch_view) \<Rightarrow> epoch_memory_stats list \<Rightarrow> cluster_metadata \<Rightarrow>
   'err + cluster_metadata" where
  "refresh_register stats_of w views [] m = Inr m"
| "refresh_register stats_of w views (stat # rest) m =
     bind_ok (stats_of (em_dataset_id stat) (em_epoch_id stat))
       (\<lambda>detailed. refresh_register stats_of w views rest
          (register_epoch (refresh_placement w views stat detailed) m))"

definition refresh ::
  "((string \<rightharpoonup> string list) \<Rightarrow> string list) \<Rightarrow> (string set \<Rightarrow> string list) \<Rightarrow>
   'err + memory_stats \<Rightarrow> (string \<Rightarrow> 'err + epoch_view list) \<Rightarrow>
   (string \<Rightarrow> string \<Rightarrow> 'err + epoch_stats option) \<Rightarrow>
   storage_engine_metadata \<Rightarrow> 'err + storage_engine_metadata" where
  "refresh keys order mem list_epochs stats_of sm =
     bind_ok mem (\<lambda>stats.
       let views = collect_epoch_views list_epochs (order (set (map em_dataset_id (ms_epochs stats))))
       in bind_ok (refresh_register stats_of (sm_worker_id sm) views (ms_epochs stats)
              (with_local_worker (sm_worker_id sm)))
            (\<lambda>m. Inr (sm\<lparr>sm_cached :=
               fold cluster_sort_epochs_by_time (keys (cm_dataset_epochs m)) m\<rparr>)))"

section \<open>Scan statistics: lemmas\<close>

lemma scan_fold:
  "fold (scan_step st) es (r, b, ws, ex) =
     (r + (\<Sum>(i, w)\<leftarrow>es. case st i of Some s \<Rightarrow> es_rows s | None \<Rightarrow> 0),
      b + (\<Sum>(i, w)\<leftarrow>es. case st i of Some s \<Rightarrow> es_bytes s | None \<Rightarrow> 0),
      fold (\<lambda>(i, w) ws. push_new ws w) es ws,
      ex \<and> (\<forall>(i, w) \<in> set es. \<exists>s. st i = Some s \<and> es_source s = Exact))"
  by (induction es arbitrary: r b ws ex) (auto split: option.splits)

lemma push_new_fold:
  "set (fold (\<lambda>(i, w) ws. push_new ws w) es ws) = set ws \<union> snd ` set es"
  "distinct ws \<Longrightarrow> distinct (fold (\<lambda>(i, w) ws. push_new ws w) es ws)"
  by (induction es arbitrary: ws) auto

lemma aggregate_scan_rows:
  "ts_rows (aggregate_scan_stats st es) = (\<Sum>(i, w)\<leftarrow>es. case st i of Some s \<Rightarrow> es_rows s | None \<Rightarrow> 0)"
  "ts_bytes (aggregate_scan_stats st es) = (\<Sum>(i, w)\<leftarrow>es. case st i of Some s \<Rightarrow> es_bytes s | None \<Rightarrow> 0)"
  by (simp_all add: aggregate_scan_stats_def scan_fold)

lemma aggregate_scan_workers:
  "set (ts_workers (aggregate_scan_stats st es)) = snd ` set es"
  "distinct (ts_workers (aggregate_scan_stats st es))"
  by (simp_all add: aggregate_scan_stats_def scan_fold push_new_fold)

lemma aggregate_scan_source:
  "ts_source (aggregate_scan_stats st es) =
     (if es = [] then Unknown
      else if \<forall>(i, w) \<in> set es. \<exists>s. st i = Some s \<and> es_source s = Exact then Exact else Estimated)"
  by (simp add: aggregate_scan_stats_def scan_fold)

lemma aggregate_scan_distribution [simp]: "ts_distribution (aggregate_scan_stats st es) = None"
  by (simp add: aggregate_scan_stats_def scan_fold)

lemma to_distribution_workers:
  "ts_distribution s = None \<Longrightarrow> dist_workers (to_distribution s) = ts_workers s"
  by (cases "ts_workers s") (auto simp: to_distribution_def)

section \<open>Pruning by time: lemmas\<close>

text \<open>An instant of an epoch, and an instant a query asks for. Both ranges exclude their end.\<close>

definition covers :: "u64 \<times> u64 \<Rightarrow> u64 \<Rightarrow> bool" where
  "covers tr x \<longleftrightarrow> fst tr \<le> x \<and> x < snd tr"

definition asks_for :: "u64 option \<Rightarrow> u64 option \<Rightarrow> u64 \<Rightarrow> bool" where
  "asks_for start stop x \<longleftrightarrow>
     (case start of Some s \<Rightarrow> s \<le> x | None \<Rightarrow> True) \<and> (case stop of Some e \<Rightarrow> x < e | None \<Rightarrow> True)"

lemma less_u64_max: "(x :: u64) < y \<Longrightarrow> x < u64_max"
  by (rule order_less_le_trans) auto

lemma query_overlap_complete:
  assumes "covers tr x" and "asks_for start stop x"
  shows "query_overlap tr start stop"
proof -
  have "fst tr < (case stop of Some e \<Rightarrow> e | None \<Rightarrow> u64_max)"
  proof (cases stop)
    case None
    with assms(1) show ?thesis by (simp add: covers_def) (meson less_u64_max order_le_less_trans)
  next
    case (Some e)
    with assms show ?thesis by (simp add: covers_def asks_for_def) (meson order_le_less_trans)
  qed
  moreover have "(case start of Some s \<Rightarrow> s | None \<Rightarrow> 0) < snd tr"
  proof (cases start)
    case None
    with assms(1) show ?thesis
      by (simp add: covers_def) (meson order_le_less_trans word_zero_le)
  next
    case (Some s)
    with assms show ?thesis by (simp add: covers_def asks_for_def) (meson order_le_less_trans)
  qed
  ultimately show ?thesis by (simp add: query_overlap_def case_prod_beta)
qed

lemma query_overlap_sound:
  assumes "query_overlap tr (Some s) (Some e)" and "fst tr < snd tr" and "s < e"
  shows "covers tr (max (fst tr) s) \<and> asks_for (Some s) (Some e) (max (fst tr) s)"
  using assms by (cases "fst tr \<le> s") (auto simp: covers_def asks_for_def query_overlap_def max_def
      case_prod_beta)

lemma epoch_in_range_complete:
  "(\<And>r. tr = Some r \<Longrightarrow> covers r x) \<Longrightarrow> asks_for start stop x \<Longrightarrow> epoch_in_range tr start stop"
  unfolding epoch_in_range_def
  by (auto split: option.splits intro: query_overlap_complete)

lemma set_map_filter: "y \<in> set (List.map_filter f xs) \<longleftrightarrow> (\<exists>x \<in> set xs. f x = Some y)"
  by (induction xs) (auto simp: List.map_filter_simps split: option.splits)

section \<open>The directory contract\<close>

text \<open>
  What the planner relies on when it asks a provider for the epochs of a table: nothing is
  made up, and an epoch that holds an instant the query asks for is not left out.
\<close>

locale epoch_directory =
  fixes entries :: "string \<Rightarrow> (string \<times> worker_id \<times> (u64 \<times> u64) option) set"
    and listed :: "string \<Rightarrow> u64 option \<Rightarrow> u64 option \<Rightarrow> (string \<times> worker_id) list"
  assumes listed_registered: "(i, w) \<in> set (listed t s e) \<Longrightarrow> \<exists>r. (i, w, r) \<in> entries t"
    and listed_complete: "(i, w, r) \<in> entries t \<Longrightarrow> (\<And>tr. r = Some tr \<Longrightarrow> covers tr x) \<Longrightarrow>
      asks_for s e x \<Longrightarrow> (i, w) \<in> set (listed t s e)"
begin

lemma relevant_worker_listed:
  "(i, w, Some tr) \<in> entries t \<Longrightarrow> covers tr x \<Longrightarrow> asks_for s e x \<Longrightarrow>
     w \<in> snd ` set (listed t s e)"
  by (drule listed_complete [of i w "Some tr" t x s e]) force+

lemma unbounded_lists_nonempty:
  "(i, w, Some tr) \<in> entries t \<Longrightarrow> fst tr < snd tr \<Longrightarrow> (i, w) \<in> set (listed t None None)"
  by (rule listed_complete [of i w "Some tr" t "fst tr"]) (auto simp: covers_def asks_for_def)

lemma scan_covers_relevant:
  "(i, w, Some tr) \<in> entries t \<Longrightarrow> covers tr x \<Longrightarrow> asks_for s e x \<Longrightarrow>
     w \<in> set (dist_workers (to_distribution (aggregate_scan_stats st (listed t s e))))"
  by (simp add: to_distribution_workers aggregate_scan_workers relevant_worker_listed)

end

definition in_memory_entries ::
  "in_memory_metadata \<Rightarrow> string \<Rightarrow> (string \<times> worker_id \<times> (u64 \<times> u64) option) set" where
  "in_memory_entries m t =
     {(i, w, r). \<exists>es st. im_table_epochs m (resolve_table_name m t) = Some es \<and> (i, r) \<in> set es \<and>
        im_epochs m i = Some (st, w)}"

definition in_memory_listed ::
  "in_memory_metadata \<Rightarrow> string \<Rightarrow> u64 option \<Rightarrow> u64 option \<Rightarrow> (string \<times> worker_id) list" where
  "in_memory_listed m t s e = in_memory_epochs_for_table m t
     (map_option (\<lambda>x. show_nat (unat x)) s) (map_option (\<lambda>x. show_nat (unat x)) e)"

lemma parse_shown_bound [simp]:
  "parse_bound parse_u64 (map_option (\<lambda>x. show_nat (unat x)) b) = b"
proof (cases b)
  case (Some x)
  have "unat x < 2 ^ 64" using unsigned_less [of x, where ?'a = nat] by simp
  then have "parse_u64 (show_nat (unat x)) = Some x" by (simp add: parse_u64_show_nat)
  with Some show ?thesis by (simp add: parse_bound_def)
qed (simp add: parse_bound_def)

lemma if_then_map_Some:
  "(if b then map_option (\<lambda>(_, w). (i, w)) v else None) = Some (j, w') \<longleftrightarrow>
     b \<and> i = j \<and> (\<exists>st. v = Some (st, w'))"
  by (cases v) auto

lemma in_memory_listed_iff:
  "(i, w) \<in> set (in_memory_listed m t s e) \<longleftrightarrow>
     (\<exists>r. (i, w, r) \<in> in_memory_entries m t \<and> epoch_in_range r s e)"
proof (cases "im_table_epochs m (resolve_table_name m t)")
  case (Some es)
  then have "(i, w) \<in> set (in_memory_listed m t s e) \<longleftrightarrow>
      (\<exists>(j, r) \<in> set es. epoch_in_range r s e \<and> j = i \<and> (\<exists>st. im_epochs m j = Some (st, w)))"
    by (simp add: in_memory_listed_def in_memory_epochs_for_table_def Let_def set_map_filter
        case_prod_beta if_then_map_Some)
  with Some show ?thesis by (auto simp: in_memory_entries_def)
qed (simp add: in_memory_listed_def in_memory_epochs_for_table_def in_memory_entries_def)

interpretation in_memory_dir: epoch_directory "in_memory_entries m" "in_memory_listed m" for m
proof
  show "\<exists>r. (i, w, r) \<in> in_memory_entries m t" if "(i, w) \<in> set (in_memory_listed m t s e)" for i w t s e
    using that by (auto simp: in_memory_listed_iff)
  show "(i, w) \<in> set (in_memory_listed m t s e)"
    if "(i, w, r) \<in> in_memory_entries m t" "\<And>tr. r = Some tr \<Longrightarrow> covers tr x" "asks_for s e x"
    for i w r t x s e
    unfolding in_memory_listed_iff using that(1) epoch_in_range_complete [OF that(2,3)] by blast
qed

definition cluster_entries ::
  "cluster_metadata \<Rightarrow> string \<Rightarrow> (string \<times> worker_id \<times> (u64 \<times> u64) option) set" where
  "cluster_entries m d =
     {(i, w, r). \<exists>ids p. cm_dataset_epochs m d = Some ids \<and> i \<in> set ids \<and>
        cm_epochs m (d, i) = Some p \<and> w = ep_worker_id p \<and> r = Some (ep_time_range p)}"

lemma case_then_Some:
  "(case v of None \<Rightarrow> None | Some p \<Rightarrow> if b p then Some (f p) else None) = Some y \<longleftrightarrow>
     (\<exists>p. v = Some p \<and> b p \<and> y = f p)"
  by (cases v) auto

lemma epochs_for_iff:
  "(i, w) \<in> set (epochs_for m d s e) \<longleftrightarrow>
     (\<exists>r. (i, w, Some r) \<in> cluster_entries m d \<and> query_overlap r s e)"
proof (cases "cm_dataset_epochs m d")
  case (Some ids)
  then have "(i, w) \<in> set (epochs_for m d s e) \<longleftrightarrow>
      (\<exists>j \<in> set ids. \<exists>p. cm_epochs m (d, j) = Some p \<and> query_overlap (ep_time_range p) s e \<and>
        (i, w) = (j, ep_worker_id p))"
    by (simp only: epochs_for_def option.case set_map_filter case_then_Some overlaps_time_range_def)
  with Some show ?thesis by (simp add: cluster_entries_def del: split_paired_Ex) blast
qed (simp add: epochs_for_def cluster_entries_def)

interpretation cluster_dir: epoch_directory "cluster_entries m" "epochs_for m" for m
proof
  show "\<exists>r. (i, w, r) \<in> cluster_entries m t" if "(i, w) \<in> set (epochs_for m t s e)" for i w t s e
    using that by (auto simp: epochs_for_iff)
  show "(i, w) \<in> set (epochs_for m t s e)"
    if "(i, w, r) \<in> cluster_entries m t" "\<And>tr. r = Some tr \<Longrightarrow> covers tr x" "asks_for s e x"
    for i w r t x s e
  proof -
    from that(1) obtain tr where "r = Some tr" unfolding cluster_entries_def by blast
    with that query_overlap_complete [of tr x s e] show ?thesis unfolding epochs_for_iff by blast
  qed
qed


section \<open>Refreshing the cache: lemmas\<close>

lemma cluster_sort_epochs [simp]: "cm_epochs (cluster_sort_epochs_by_time d m) = cm_epochs m"
  by (simp add: cluster_sort_epochs_by_time_def split: option.splits)

lemma cluster_sort_start [simp]: "epoch_start (cluster_sort_epochs_by_time d m) = epoch_start m"
  by (simp add: epoch_start_def fun_eq_iff)

lemma cluster_sort_dataset:
  "cm_dataset_epochs (cluster_sort_epochs_by_time d m) d' =
     (if d' = d then map_option (sort_key (epoch_start m d)) (cm_dataset_epochs m d)
      else cm_dataset_epochs m d')"
  by (simp add: cluster_sort_epochs_by_time_def split: option.splits)

lemma sort_all_epochs [simp]: "cm_epochs (fold cluster_sort_epochs_by_time ds m) = cm_epochs m"
  by (induction ds arbitrary: m) simp_all

lemma sort_key_idem: "sort_key f (sort_key f xs) = sort_key f xs"
  by (simp add: sort_key_id_if_sorted)

lemma sort_all_datasets:
  "cm_dataset_epochs (fold cluster_sort_epochs_by_time ds m) d =
     (if d \<in> set ds then map_option (sort_key (epoch_start m d)) (cm_dataset_epochs m d)
      else cm_dataset_epochs m d)"
proof (induction ds arbitrary: m)
  case (Cons x ds)
  then show ?case by (auto simp: cluster_sort_dataset option.map_comp o_def sort_key_idem)
qed simp

lemma refresh_register_epochs:
  "refresh_register st w views stats m = Inr m' \<Longrightarrow>
   distinct (map (\<lambda>s. (em_dataset_id s, em_epoch_id s)) stats) \<Longrightarrow> stat \<in> set stats \<Longrightarrow>
   \<exists>detailed. st (em_dataset_id stat) (em_epoch_id stat) = Inr detailed \<and>
     cm_epochs m' (em_dataset_id stat, em_epoch_id stat) = Some (refresh_placement w views stat detailed)"
proof (induction stats arbitrary: m)
  case (Cons s stats)
  have keep: "cm_epochs m' k = cm_epochs n k"
    if "refresh_register st w views xs n = Inr m'" "k \<notin> (\<lambda>s. (em_dataset_id s, em_epoch_id s)) ` set xs"
    for xs n k
    using that by (induction xs arbitrary: n) (auto simp: register_epoch_def refresh_placement_def)
  show ?case
  proof (cases "stat = s")
    case True
    from Cons.prems(1) obtain detailed where d: "st (em_dataset_id s) (em_epoch_id s) = Inr detailed"
      and r: "refresh_register st w views stats (register_epoch (refresh_placement w views s detailed) m) = Inr m'"
      by auto
    have "cm_epochs m' (em_dataset_id s, em_epoch_id s) = Some (refresh_placement w views s detailed)"
      using keep [OF r, of "(em_dataset_id s, em_epoch_id s)"] Cons.prems(2)
      by (auto simp: register_epoch_def refresh_placement_def)
    with d True show ?thesis by blast
  next
    case False
    with Cons show ?thesis by auto
  qed
qed simp

lemma refresh_register_datasets:
  "refresh_register st w views stats m = Inr m' \<Longrightarrow>
     dom (cm_dataset_epochs m') \<subseteq> dom (cm_dataset_epochs m) \<union> em_dataset_id ` set stats"
  by (induction stats arbitrary: m)
    (fastforce simp: register_epoch_def refresh_placement_def entry_push_def split: if_splits)+

section \<open>Properties\<close>


definition sample_placement :: "string \<Rightarrow> string \<Rightarrow> string \<Rightarrow> u64 \<Rightarrow> u64 \<Rightarrow> u64 \<Rightarrow> epoch_placement" where
  "sample_placement d i w a b rows = \<lparr>ep_epoch_id = i, ep_dataset_id = d, ep_worker_id = WorkerId w,
     ep_time_range = (a, b), ep_stats = epoch_stats_exact rows (rows * 10)\<rparr>"

definition sample_cluster :: cluster_metadata where
  "sample_cluster = register_epoch (sample_placement ''sales'' ''e2'' ''w2'' 20 30 7)
     (register_epoch (sample_placement ''sales'' ''e1'' ''w1'' 10 20 5) cluster_new)"

lemmas sample_cluster_defs = sample_cluster_def register_epoch_def sample_placement_def
  cluster_new_def entry_push_def



definition sample_in_memory :: in_memory_metadata where
  "sample_in_memory = add_epoch ''e2'' ''sales'' (epoch_stats_exact 2000 20000) (WorkerId ''w2'')
     (add_epoch ''e1'' ''sales'' (epoch_stats_exact 1000 10000) (WorkerId ''w1'') in_memory_new)"

lemmas sample_in_memory_defs = sample_in_memory_def add_epoch_def in_memory_new_def entry_push_def



definition sample_report :: memory_stats where
  "sample_report = \<lparr>total_storage_bytes_estimate = 50,
     ms_epochs = [\<lparr>em_dataset_id = ''sales'', em_epoch_id = ''e1'', em_rows_count = 5, em_approx_bytes = 50\<rparr>]\<rparr>"

definition sample_refresh :: "string + storage_engine_metadata" where
  "sample_refresh = refresh (\<lambda>m. filter (\<lambda>d. m d \<noteq> None) [''sales'']) (\<lambda>s. [''sales'']) (Inr sample_report)
     (\<lambda>d. Inl ''unavailable'') (\<lambda>d e. Inr None) (storage_metadata_new (WorkerId ''w1''))"


definition shared_epoch_cluster :: cluster_metadata where
  "shared_epoch_cluster = register_epoch (sample_placement ''big'' ''day1'' ''w2'' 0 10 1000)
     (register_epoch (sample_placement ''small'' ''day1'' ''w1'' 0 10 5) cluster_new)"

definition shared_epoch_order ::
  "(string \<times> string \<rightharpoonup> epoch_placement) \<Rightarrow> ((string \<times> string) \<times> epoch_placement) list" where
  "shared_epoch_order m = List.map_filter (\<lambda>k. map_option (Pair k) (m k))
     [(''small'', ''day1''), (''big'', ''day1'')]"


end
