(* ===== verification/Annotate.thy ===== *)
theory Annotate
  imports Exchange_Select Metadata
begin

text \<open>
  \<^verbatim>\<open>ldp/planner/annotate.rs\<close>: the bottom-up annotation of a logical plan with
  distributions and statistics, and the insertion of exchanges where an input does not have
  the distribution its operator requires.
\<close>

datatype annotated_plan =
  AnnotatedPlan (ap_plan: logical_plan) (ap_annotation: distribution_annotation)
    (exchange_before: "exchange option") (pre_exchange_distribution: "distribution option")
    (ap_children: "annotated_plan list")

definition annotated_new ::
  "logical_plan \<Rightarrow> distribution_annotation \<Rightarrow> annotated_plan list \<Rightarrow> annotated_plan" where
  "annotated_new p a cs = AnnotatedPlan p a None None cs"

definition annotated_with_exchange ::
  "logical_plan \<Rightarrow> distribution_annotation \<Rightarrow> annotated_plan list \<Rightarrow> exchange \<Rightarrow> annotated_plan" where
  "annotated_with_exchange p a cs ex = AnnotatedPlan p a (Some ex) None cs"

fun has_any_exchange :: "annotated_plan \<Rightarrow> bool" where
  "has_any_exchange (AnnotatedPlan p a ex pre cs) \<longleftrightarrow> ex \<noteq> None \<or> list_ex has_any_exchange cs"

fun count_exchanges :: "annotated_plan \<Rightarrow> nat" where
  "count_exchanges (AnnotatedPlan p a ex pre cs) =
     (if ex \<noteq> None then 1 else 0) + sum_list (map count_exchanges cs)"

datatype planning_error = Rejected reject_reason | MissingMetadata string | InvalidPlan string

abbreviation ap_distribution :: "annotated_plan \<Rightarrow> distribution" where
  "ap_distribution c \<equiv> distribution (ap_annotation c)"

section \<open>Choosing the exchanges of an operator\<close>

definition handle_join_exchanges ::
  "logical_plan \<Rightarrow> annotated_plan \<Rightarrow> annotated_plan \<Rightarrow> planner_policy \<Rightarrow> worker_id list \<Rightarrow>
   planning_error + exchange_decision \<times> exchange_decision" where
  "handle_join_exchanges plan l r policy targets =
     (case plan of
        Join _ _ _ lk rk \<Rightarrow>
          if lk = [] \<or> rk = []
          then if is_singleton (ap_distribution r) then Inr (NoExchange, NoExchange)
               else (case determine_exchange (ap_distribution r) (ap_annotation r) ReqSingleton
                            policy False targets of
                       Reject reason \<Rightarrow> Inl (Rejected reason)
                     | d \<Rightarrow> Inr (NoExchange, d))
          else (case determine_join_exchanges
                  \<lparr>left_annotation = ap_annotation l, right_annotation = ap_annotation r,
                   left_actual = ap_distribution l, right_actual = ap_distribution r,
                   left_keys = lk, right_keys = rk, join_policy = policy,
                   join_target_workers = targets\<rparr> of
                  (Reject reason, _) \<Rightarrow> Inl (Rejected reason)
                | (_, Reject reason) \<Rightarrow> Inl (Rejected reason)
                | (dl, dr) \<Rightarrow> Inr (dl, dr))
      | _ \<Rightarrow> Inr (NoExchange, NoExchange))"

text \<open>\<open>if let ExchangeDecision::Insert(ex) = d\<close>.\<close>

fun inserted :: "exchange_decision \<Rightarrow> exchange option" where
  "inserted (Insert ex) = Some ex"
| "inserted _ = None"

text \<open>
  The loop over the inputs of an operator that is not a join. Inputs beyond the list of
  requirements keep \<open>None\<close>.
\<close>

fun standard_exchanges ::
  "planner_policy \<Rightarrow> worker_id list \<Rightarrow> annotated_plan list \<Rightarrow> required_distribution list \<Rightarrow>
   planning_error + exchange option list" where
  "standard_exchanges policy targets [] rs = Inr []"
| "standard_exchanges policy targets (c # cs) [] = Inr (map (\<lambda>_. None) (c # cs))"
| "standard_exchanges policy targets (c # cs) (r # rs) =
     (if is_satisfied_by r (ap_distribution c)
      then bind_ok (standard_exchanges policy targets cs rs) (\<lambda>xs. Inr (None # xs))
      else case determine_exchange (ap_distribution c) (ap_annotation c) r policy False targets of
             Reject reason \<Rightarrow> Inl (Rejected reason)
           | d \<Rightarrow> bind_ok (standard_exchanges policy targets cs rs) (\<lambda>xs. Inr (inserted d # xs)))"

fun is_join :: "logical_plan \<Rightarrow> bool" where
  "is_join (Join l r op lk rk) = True"
| "is_join _ = False"

definition exchanges_to_insert ::
  "logical_plan \<Rightarrow> planner_policy \<Rightarrow> worker_id list \<Rightarrow> annotated_plan list \<Rightarrow>
   planning_error + exchange option list" where
  "exchanges_to_insert plan policy targets cs =
     (if is_join plan \<and> length cs = 2
      then bind_ok (handle_join_exchanges plan (cs ! 0) (cs ! 1) policy targets)
             (\<lambda>(dl, dr). Inr [inserted dl, inserted dr])
      else standard_exchanges policy targets cs (get_logical_plan_requirements plan))"

section \<open>Applying an exchange\<close>

fun compute_post_exchange_distribution ::
  "exchange \<Rightarrow> planner_policy \<Rightarrow> worker_id list \<Rightarrow> distribution" where
  "compute_post_exchange_distribution (Gather target) policy upstream = Singleton target"
| "compute_post_exchange_distribution (Broadcast targets) policy upstream = Replicated targets"
| "compute_post_exchange_distribution (HashPartition refs n) policy upstream =
     HashPartitioned refs
       (if upstream \<noteq> [] then upstream else replicate (unat n) (policy_coordinator policy))"

fun apply_exchange :: "planner_policy \<Rightarrow> annotated_plan \<times> exchange option \<Rightarrow> annotated_plan" where
  "apply_exchange policy (c, None) = c"
| "apply_exchange policy (AnnotatedPlan p a ex pre cs, Some ex') =
     AnnotatedPlan p
       (a\<lparr>distribution := compute_post_exchange_distribution ex' policy (dist_workers (distribution a))\<rparr>)
       (Some ex') (Some (distribution a)) cs"

section \<open>Output distribution and estimates\<close>

fun combine_stats_sources :: "stats_source \<Rightarrow> stats_source \<Rightarrow> stats_source" where
  "combine_stats_sources Exact Exact = Exact"
| "combine_stats_sources Unknown _ = Unknown"
| "combine_stats_sources _ Unknown = Unknown"
| "combine_stats_sources _ _ = Estimated"

definition estimate_group_cardinality :: "u64 \<Rightarrow> nat \<Rightarrow> u64" where
  "estimate_group_cardinality input_rows num_group_keys =
     (if num_group_keys = 0 then 1
      else let base = u64_of_f64 (f64_sqrt (f64_of_u64 input_rows));
               factor = f64_sqrt (f64_of_nat num_group_keys)
           in scale_u64 base factor)"

definition coordinator_unknown ::
  "planner_policy \<Rightarrow> distribution \<times> u64 \<times> u64 \<times> stats_source" where
  "coordinator_unknown policy = (Singleton (policy_coordinator policy), 0, 0, Unknown)"

text \<open>The annotation of the first input, passed on unchanged.\<close>

definition preserved :: "annotated_plan \<Rightarrow> distribution \<times> u64 \<times> u64 \<times> stats_source" where
  "preserved c = (ap_distribution c, est_rows (ap_annotation c), est_bytes (ap_annotation c),
     stats_source (ap_annotation c))"

definition aggregate_estimate ::
  "column_ref list \<Rightarrow> annotated_plan list \<Rightarrow> u64 \<times> u64 \<times> stats_source" where
  "aggregate_estimate group_keys cs =
     (case cs of
        [] \<Rightarrow> (0, 0, Unknown)
      | c # _ \<Rightarrow>
          let a = ap_annotation c in
          if group_keys = [] then (1, 100, stats_source a)
          else let groups = estimate_group_cardinality (est_rows a) (length group_keys);
                   per_row = (if est_rows a > 0 then est_bytes a div est_rows a else 100)
               in (groups, groups * per_row, stats_source a))"

definition aggregate_distribution :: "planner_policy \<Rightarrow> annotated_plan list \<Rightarrow> distribution" where
  "aggregate_distribution policy cs =
     (case cs of
        [] \<Rightarrow> Singleton (policy_coordinator policy)
      | c # _ \<Rightarrow> (case ap_distribution c of
            Singleton w \<Rightarrow> Singleton w
          | HashPartitioned refs ws \<Rightarrow> HashPartitioned refs ws
          | _ \<Rightarrow> Singleton (policy_coordinator policy)))"

definition join_output ::
  "planner_policy \<Rightarrow> annotated_plan list \<Rightarrow> distribution \<times> u64 \<times> u64 \<times> stats_source" where
  "join_output policy cs =
     (case cs of
        l # r # _ \<Rightarrow>
          let la = ap_annotation l; ra = ap_annotation r;
              rows = scale_u64 (est_rows la) f64_tenth;
              per_row = (if est_rows la > 0
                         then (est_bytes la + est_bytes ra) div max (est_rows la) 1 else 100);
              dist = (case (distribution la, distribution ra) of
                        (Replicated _, _) \<Rightarrow> distribution ra
                      | (_, Replicated _) \<Rightarrow> distribution la
                      | _ \<Rightarrow> distribution la)
          in (dist, rows, rows * per_row,
              combine_stats_sources (stats_source la) (stats_source ra))
      | _ \<Rightarrow> coordinator_unknown policy)"

definition set_op_output ::
  "planner_policy \<Rightarrow> annotated_plan list \<Rightarrow> distribution \<times> u64 \<times> u64 \<times> stats_source" where
  "set_op_output policy cs =
     ((case cs of [] \<Rightarrow> Singleton (policy_coordinator policy) | c # _ \<Rightarrow> ap_distribution c),
      sum_list (map (\<lambda>c. est_rows (ap_annotation c)) cs),
      sum_list (map (\<lambda>c. est_bytes (ap_annotation c)) cs),
      fold (\<lambda>c acc. combine_stats_sources acc (stats_source (ap_annotation c))) cs Exact)"

text \<open>
  A hash-partitioned input is passed on whether or not its keys are the window's: the guarded
  arm and the fallback arm of the source return the same value.
\<close>

definition window_distribution :: "column_ref list \<Rightarrow> distribution \<Rightarrow> distribution" where
  "window_distribution partition_keys d =
     (if partition_keys \<noteq> []
      then case d of
             HashPartitioned refs ws \<Rightarrow> HashPartitioned refs ws
           | Replicated ws \<Rightarrow> HashPartitioned partition_keys ws
           | other \<Rightarrow> other
      else d)"

fun compute_output_distribution ::
  "logical_plan \<Rightarrow> annotated_plan list \<Rightarrow> planner_policy \<Rightarrow> metadata_ops \<Rightarrow>
   planning_error + distribution \<times> u64 \<times> u64 \<times> stats_source" where
  "compute_output_distribution (Scan t a f) cs policy md =
     (let s = get_table_scan_stats md t
      in Inr (to_distribution s, ts_rows s, ts_bytes s, ts_source s))"
| "compute_output_distribution (ExchangeRead i al) cs policy md = Inr (coordinator_unknown policy)"
| "compute_output_distribution (Filter p e) cs policy md =
     (case cs of
        [] \<Rightarrow> Inr (coordinator_unknown policy)
      | c # _ \<Rightarrow> Inr (ap_distribution c, scale_u64 (est_rows (ap_annotation c)) f64_half,
          scale_u64 (est_bytes (ap_annotation c)) f64_half, stats_source (ap_annotation c)))"
| "compute_output_distribution (Project p xs) cs policy md =
     (case cs of [] \<Rightarrow> Inr (coordinator_unknown policy) | c # _ \<Rightarrow> Inr (preserved c))"
| "compute_output_distribution (Sort p os) cs policy md =
     (case cs of [] \<Rightarrow> Inr (coordinator_unknown policy)
      | c # _ \<Rightarrow> Inr (Singleton (policy_coordinator policy), snd (preserved c)))"
| "compute_output_distribution (Limit p l off) cs policy md =
     (case cs of [] \<Rightarrow> Inr (coordinator_unknown policy)
      | c # _ \<Rightarrow> Inr (Singleton (policy_coordinator policy), snd (preserved c)))"
| "compute_output_distribution (Aggregate p g xs h group_keys) cs policy md =
     Inr (aggregate_distribution policy cs, aggregate_estimate group_keys cs)"
| "compute_output_distribution (Join l r op lk rk) cs policy md = Inr (join_output policy cs)"
| "compute_output_distribution (SetOp l r op q) cs policy md = Inr (set_op_output policy cs)"
| "compute_output_distribution (Window p xs partition_keys) cs policy md =
     (case cs of
        [] \<Rightarrow> Inr (coordinator_unknown policy)
      | c # _ \<Rightarrow> Inr (window_distribution partition_keys (ap_distribution c), snd (preserved c)))"
| "compute_output_distribution (SubqueryScan p a) cs policy md =
     (case cs of [] \<Rightarrow> Inr (coordinator_unknown policy) | c # _ \<Rightarrow> Inr (preserved c))"

section \<open>The annotation pass\<close>

function annotate_recursive ::
  "logical_plan \<Rightarrow> planner_policy \<Rightarrow> metadata_ops \<Rightarrow> worker_id list \<Rightarrow>
   planning_error + annotated_plan" where
  "annotate_recursive plan policy md targets =
     bind_ok (map_ok (\<lambda>c. annotate_recursive c policy md targets) (plan_children plan)) (\<lambda>cs.
     bind_ok (exchanges_to_insert plan policy targets cs) (\<lambda>exs.
       let cs' = map (apply_exchange policy) (zip cs exs)
       in bind_ok (compute_output_distribution plan cs' policy md) (\<lambda>(d, rows, bytes, source).
            Inr (annotated_new plan (annotation_with_source d rows bytes source) cs'))))"
  by pat_completeness auto
termination
  by (relation "measure (\<lambda>(plan, _). size plan)") (auto dest: plan_children_size)

declare annotate_recursive.simps [simp del]

definition annotate_logical_plan ::
  "logical_plan \<Rightarrow> planner_policy \<Rightarrow> metadata_ops \<Rightarrow> planning_error + annotated_plan" where
  "annotate_logical_plan plan policy md = annotate_recursive plan policy md []"


section \<open>The nodes of an annotated plan\<close>

fun nodes :: "annotated_plan \<Rightarrow> annotated_plan list" where
  "nodes (AnnotatedPlan p a ex pre cs) = AnnotatedPlan p a ex pre cs # concat (map nodes cs)"

text \<open>
  What the pass promises of the inputs of a node. For an operator that is not an equi-join
  every requirement holds. For an equi-join both inputs are partitioned by their keys, or one
  of them is replicated, or the code inserted no exchange although one input is not
  partitioned by its keys (\<open>broadcast_gap\<close>).
\<close>

definition broadcast_gap :: "column_ref list \<Rightarrow> column_ref list \<Rightarrow> annotated_plan \<Rightarrow> annotated_plan \<Rightarrow> bool" where
  "broadcast_gap lk rk l r \<longleftrightarrow> exchange_before l = None \<and> exchange_before r = None \<and>
     (is_satisfied_by (ReqHashPartitioned lk) (ap_distribution l) \<noteq>
      is_satisfied_by (ReqHashPartitioned rk) (ap_distribution r))"

definition equi_join_ok :: "column_ref list \<Rightarrow> column_ref list \<Rightarrow> annotated_plan \<Rightarrow> annotated_plan \<Rightarrow> bool" where
  "equi_join_ok lk rk l r \<longleftrightarrow>
     is_satisfied_by (ReqHashPartitioned lk) (ap_distribution l) \<and>
       is_satisfied_by (ReqHashPartitioned rk) (ap_distribution r) \<or>
     is_replicated (ap_distribution l) \<or> is_replicated (ap_distribution r) \<or>
     broadcast_gap lk rk l r"

fun equi_join_keys :: "logical_plan \<Rightarrow> (column_ref list \<times> column_ref list) option" where
  "equi_join_keys (Join l r op lk rk) = (if lk = [] \<or> rk = [] then None else Some (lk, rk))"
| "equi_join_keys _ = None"

definition inputs_ok :: "logical_plan \<Rightarrow> annotated_plan list \<Rightarrow> bool" where
  "inputs_ok p cs \<longleftrightarrow>
     (case equi_join_keys p of
        None \<Rightarrow> all_satisfied (map ap_distribution cs) (get_logical_plan_requirements p)
      | Some (lk, rk) \<Rightarrow> equi_join_ok lk rk (cs ! 0) (cs ! 1))"

definition exchange_recorded :: "planner_policy \<Rightarrow> annotated_plan \<Rightarrow> bool" where
  "exchange_recorded policy n \<longleftrightarrow>
     (case (exchange_before n, pre_exchange_distribution n) of
        (None, None) \<Rightarrow> True
      | (Some ex, Some d) \<Rightarrow>
          ap_distribution n = compute_post_exchange_distribution ex policy (dist_workers d)
      | _ \<Rightarrow> False)"

definition node_ok :: "planner_policy \<Rightarrow> annotated_plan \<Rightarrow> bool" where
  "node_ok policy n \<longleftrightarrow> map ap_plan (ap_children n) = plan_children (ap_plan n) \<and>
     exchange_recorded policy n \<and> inputs_ok (ap_plan n) (ap_children n)"

text \<open>The limits an inserted exchange respects, in terms of the annotation of its input.\<close>

fun exchange_admitted :: "planner_policy \<Rightarrow> distribution_annotation \<Rightarrow> exchange \<Rightarrow> bool" where
  "exchange_admitted policy a (Gather w) \<longleftrightarrow> w = policy_coordinator policy \<and>
     can_gather_with_safety policy (fst (with_safety_factor a (safety_factor policy)))
       (snd (with_safety_factor a (safety_factor policy))) (is_exact (stats_source a))"
| "exchange_admitted policy a (Broadcast ws) \<longleftrightarrow>
     stats_source a = Exact \<and> est_bytes a \<le> broadcast_bytes_max policy"
| "exchange_admitted policy a (HashPartition ks n) \<longleftrightarrow> n = default_partitions policy"

definition node_admitted :: "planner_policy \<Rightarrow> annotated_plan \<Rightarrow> bool" where
  "node_admitted policy n \<longleftrightarrow>
     (case exchange_before n of None \<Rightarrow> True | Some ex \<Rightarrow> exchange_admitted policy (ap_annotation n) ex)"

section \<open>Lemmas\<close>

lemma post_satisfies:
  "determine_exchange d a r policy j t = Insert ex \<Longrightarrow>
     is_satisfied_by r (compute_post_exchange_distribution ex policy ws)"
  by (cases r) (auto simp: determine_exchange_def determine_gather_exchange_def
      determine_hash_or_broadcast_exchange_def Let_def split: prod.splits if_splits)

lemma exchange_admitted_update [simp]:
  "exchange_admitted policy (a\<lparr>distribution := d\<rparr>) ex = exchange_admitted policy a ex"
  by (cases ex) (simp_all add: with_safety_factor_def)

lemma determine_exchange_admitted:
  "determine_exchange d a r policy j t = Insert ex \<Longrightarrow> exchange_admitted policy a ex"
  by (cases ex) (auto dest: determine_exchange_gather determine_exchange_broadcast
      determine_exchange_hash)

lemma apply_exchange_simps [simp]:
  "ap_plan (apply_exchange policy (c, x)) = ap_plan c"
  "ap_children (apply_exchange policy (c, x)) = ap_children c"
  "exchange_before (apply_exchange policy (c, Some ex)) = Some ex"
  "ap_distribution (apply_exchange policy (c, Some ex)) =
     compute_post_exchange_distribution ex policy (dist_workers (ap_distribution c))"
  by (cases c; cases x; simp)+

lemma apply_exchange_recorded:
  "exchange_recorded policy c \<Longrightarrow> exchange_recorded policy (apply_exchange policy (c, x))"
  by (cases c; cases x) (auto simp: exchange_recorded_def)

lemma node_ok_apply:
  "node_ok policy c \<Longrightarrow> node_ok policy (apply_exchange policy (c, x))"
  by (simp add: node_ok_def apply_exchange_recorded)

lemma nodes_eq: "nodes c = c # concat (map nodes (ap_children c))"
  by (cases c) simp

text \<open>Applying an exchange changes the top node only.\<close>

lemma nodes_apply:
  "nodes (apply_exchange policy (c, x)) = apply_exchange policy (c, x) # tl (nodes c)"
  by (simp add: nodes_eq [of "apply_exchange policy (c, x)"] nodes_eq [of c])

lemma standard_exchanges_length:
  "standard_exchanges policy t cs rs = Inr xs \<Longrightarrow> length xs = length cs"
  by (induction policy t cs rs arbitrary: xs rule: standard_exchanges.induct)
    (auto split: if_splits exchange_decision.splits)

lemma standard_exchanges_enforce:
  "standard_exchanges policy t cs rs = Inr xs \<Longrightarrow> length rs = length cs \<Longrightarrow>
     list_all2 satisfies (map (\<lambda>c. ap_distribution (apply_exchange policy c)) (zip cs xs)) rs"
proof (induction policy t cs rs arbitrary: xs rule: standard_exchanges.induct)
  case (3 policy t c cs r rs)
  show ?case
  proof (cases "is_satisfied_by r (ap_distribution c)")
    case True
    with 3 show ?thesis by (auto simp: satisfies_def)
  next
    case False
    then obtain ex where ex: "determine_exchange (ap_distribution c) (ap_annotation c) r policy False t = Insert ex"
      using "3.prems"(1) by (auto simp: determine_exchange_none_iff split: exchange_decision.splits)
    with False 3 show ?thesis by (auto simp: satisfies_def dest: post_satisfies)
  qed
qed simp_all

lemma standard_exchanges_admitted:
  "standard_exchanges policy t cs rs = Inr xs \<Longrightarrow> (c, Some ex) \<in> set (zip cs xs) \<Longrightarrow>
     exchange_admitted policy (ap_annotation c) ex"
proof (induction policy t cs rs arbitrary: xs rule: standard_exchanges.induct)
  case (3 policy t c' cs r rs)
  then show ?case
    by (auto split: if_splits exchange_decision.splits dest: determine_exchange_admitted)
qed (auto dest!: set_zip_rightD)


lemma join_decision_ok:
  assumes dec: "determine_join_exchanges ctx = (dl, dr)"
    and "\<And>x. dl \<noteq> Reject x"
    and l: "ap_distribution l = left_actual ctx" "exchange_before l = None"
    and r: "ap_distribution r = right_actual ctx" "exchange_before r = None"
  shows "equi_join_ok (left_keys ctx) (right_keys ctx)
    (apply_exchange policy (l, inserted dl)) (apply_exchange policy (r, inserted dr))"
  by (cases ctx rule: join_exchanges_cases)
    (use assms in \<open>auto simp: equi_join_ok_def broadcast_gap_def insert_unless_def\<close>)

lemma join_decision_admitted:
  assumes "determine_join_exchanges ctx = (dl, dr)"
  shows "dl = Insert ex \<Longrightarrow> exchange_admitted (join_policy ctx) (left_annotation ctx) ex"
    "dr = Insert ex \<Longrightarrow> exchange_admitted (join_policy ctx) (right_annotation ctx) ex"
  by (cases ctx rule: join_exchanges_cases; use assms in \<open>auto simp: insert_unless_def split: if_splits\<close>)+

text \<open>The exchanges of one operator: one entry per input, requirements met, limits respected.\<close>

lemma determine_exchange_after:
  assumes "determine_exchange (ap_distribution c) a r policy j t = dec" and "\<And>x. dec \<noteq> Reject x"
  shows "is_satisfied_by r (ap_distribution (apply_exchange policy (c, inserted dec)))"
proof (cases dec)
  case NoExchange
  with assms(1) show ?thesis by (simp add: determine_exchange_none_iff)
next
  case (Insert ex)
  with assms(1) show ?thesis by (simp add: post_satisfies)
qed (use assms(2) in blast)

lemma handle_join_ok:
  assumes "handle_join_exchanges (Join pl pr op lk rk) l r policy t = Inr (dl, dr)"
    and "exchange_before l = None" and "exchange_before r = None"
  shows "inputs_ok (Join pl pr op lk rk)
      [apply_exchange policy (l, inserted dl), apply_exchange policy (r, inserted dr)]"
proof (cases "lk = [] \<or> rk = []")
  case True
  have "is_satisfied_by ReqSingleton (ap_distribution (apply_exchange policy (r, inserted dr)))"
  proof (cases "is_singleton (ap_distribution r)")
    case True
    with assms(1) \<open>lk = [] \<or> rk = []\<close> show ?thesis by (auto simp: handle_join_exchanges_def)
  next
    case False
    with assms(1) True have "determine_exchange (ap_distribution r) (ap_annotation r) ReqSingleton
        policy False t = dr" "\<And>x. dr \<noteq> Reject x"
      by (auto simp: handle_join_exchanges_def split: exchange_decision.splits)
    then show ?thesis by (rule determine_exchange_after)
  qed
  with True show ?thesis
    by (auto simp: inputs_ok_def all_satisfied_list_all2 satisfies_def)
next
  case False
  define ctx where "ctx = \<lparr>left_annotation = ap_annotation l, right_annotation = ap_annotation r,
     left_actual = ap_distribution l, right_actual = ap_distribution r, left_keys = lk,
     right_keys = rk, join_policy = policy, join_target_workers = t\<rparr>"
  from assms(1) False have dec: "determine_join_exchanges ctx = (dl, dr)" and rej: "\<And>x. dl \<noteq> Reject x"
    by (auto simp: handle_join_exchanges_def ctx_def split: exchange_decision.splits prod.splits)
  have "equi_join_ok (left_keys ctx) (right_keys ctx)
      (apply_exchange policy (l, inserted dl)) (apply_exchange policy (r, inserted dr))"
    by (rule join_decision_ok [OF dec rej]) (simp_all add: ctx_def assms(2,3))
  with False show ?thesis by (simp add: inputs_ok_def ctx_def)
qed

lemma handle_join_admitted:
  assumes "handle_join_exchanges (Join pl pr op lk rk) l r policy t = Inr (dl, dr)"
  shows "inserted dl = Some ex \<Longrightarrow> exchange_admitted policy (ap_annotation l) ex"
    "inserted dr = Some ex \<Longrightarrow> exchange_admitted policy (ap_annotation r) ex"
proof -
  have ins: "inserted d = Some ex \<longleftrightarrow> d = Insert ex" for d by (cases d) auto
  define ctx where "ctx = \<lparr>left_annotation = ap_annotation l, right_annotation = ap_annotation r,
     left_actual = ap_distribution l, right_actual = ap_distribution r, left_keys = lk,
     right_keys = rk, join_policy = policy, join_target_workers = t\<rparr>"
  consider (cross) "dl = NoExchange" "dr = NoExchange \<or>
      determine_exchange (ap_distribution r) (ap_annotation r) ReqSingleton policy False t = dr"
    | (equi) "determine_join_exchanges ctx = (dl, dr)"
    using assms by (cases "lk = [] \<or> rk = []")
      (auto simp: handle_join_exchanges_def ctx_def split: if_splits exchange_decision.splits prod.splits)
  then have "(inserted dl = Some ex \<longrightarrow> exchange_admitted policy (ap_annotation l) ex) \<and>
      (inserted dr = Some ex \<longrightarrow> exchange_admitted policy (ap_annotation r) ex)"
  proof cases
    case cross
    then show ?thesis unfolding ins by (auto dest: determine_exchange_admitted)
  next
    case equi
    from join_decision_admitted [OF this] show ?thesis unfolding ins by (simp add: ctx_def)
  qed
  then show "inserted dl = Some ex \<Longrightarrow> exchange_admitted policy (ap_annotation l) ex"
    "inserted dr = Some ex \<Longrightarrow> exchange_admitted policy (ap_annotation r) ex" by blast+
qed

lemma is_join_conv: "is_join p \<longleftrightarrow> (\<exists>l r op lk rk. p = Join l r op lk rk)"
  by (cases p) auto

lemma equi_join_keys_not_join: "\<not> is_join p \<Longrightarrow> equi_join_keys p = None"
  by (cases p) auto

lemma exchanges_to_insert_ok:
  assumes "exchanges_to_insert p policy t cs = Inr xs" and "length cs = length (plan_children p)"
    and "\<forall>c \<in> set cs. exchange_before c = None"
  shows "length xs = length cs" "inputs_ok p (map (apply_exchange policy) (zip cs xs))"
    "\<And>c ex. (c, Some ex) \<in> set (zip cs xs) \<Longrightarrow> exchange_admitted policy (ap_annotation c) ex"
proof -
  have "length xs = length cs \<and> inputs_ok p (map (apply_exchange policy) (zip cs xs)) \<and>
    (\<forall>c ex. (c, Some ex) \<in> set (zip cs xs) \<longrightarrow> exchange_admitted policy (ap_annotation c) ex)"
  proof (cases "is_join p")
    case True
    then obtain pl pr op lk rk where p: "p = Join pl pr op lk rk" by (auto simp: is_join_conv)
    with assms(2) obtain l r where cs: "cs = [l, r]" by (auto simp: length_Suc_conv)
    with assms(1) p obtain dl dr where h: "handle_join_exchanges p l r policy t = Inr (dl, dr)"
      and xs: "xs = [inserted dl, inserted dr]"
      by (auto simp: exchanges_to_insert_def)
    from handle_join_ok [OF h [unfolded p]] handle_join_admitted [OF h [unfolded p]] assms(3)
    show ?thesis by (auto simp: cs xs p)
  next
    case False
    with assms(1) have h: "standard_exchanges policy t cs (get_logical_plan_requirements p) = Inr xs"
      by (simp add: exchanges_to_insert_def)
    from standard_exchanges_enforce [OF h] assms(2) False
    have "inputs_ok p (map (apply_exchange policy) (zip cs xs))"
      by (simp add: inputs_ok_def equi_join_keys_not_join all_satisfied_list_all2 o_def)
    with standard_exchanges_length [OF h] standard_exchanges_admitted [OF h] show ?thesis by blast
  qed
  then show "length xs = length cs" "inputs_ok p (map (apply_exchange policy) (zip cs xs))"
    "\<And>c ex. (c, Some ex) \<in> set (zip cs xs) \<Longrightarrow> exchange_admitted policy (ap_annotation c) ex"
    by blast+
qed


lemma annotate_recursive_Inr:
  "annotate_recursive p policy md t = Inr ap \<longleftrightarrow>
     (\<exists>cs xs d rows bytes source cs'.
        list_all2 (\<lambda>c a. annotate_recursive c policy md t = Inr a) (plan_children p) cs \<and>
        exchanges_to_insert p policy t cs = Inr xs \<and>
        cs' = map (apply_exchange policy) (zip cs xs) \<and>
        compute_output_distribution p cs' policy md = Inr (d, rows, bytes, source) \<and>
        ap = annotated_new p (annotation_with_source d rows bytes source) cs')"
  by (subst annotate_recursive.simps) (auto simp: Let_def map_ok_Inr)

lemma apply_exchange_admitted:
  assumes "node_admitted policy c" and "\<And>ex. x = Some ex \<Longrightarrow> exchange_admitted policy (ap_annotation c) ex"
  shows "node_admitted policy (apply_exchange policy (c, x))"
  using assms by (cases c; cases x) (simp_all add: node_admitted_def)

definition annotated_ok :: "planner_policy \<Rightarrow> annotated_plan \<Rightarrow> bool" where
  "annotated_ok policy ap \<longleftrightarrow> (\<forall>n \<in> set (nodes ap). node_ok policy n \<and> node_admitted policy n)"

lemma annotated_ok_apply:
  assumes "annotated_ok policy c" and "\<And>ex. x = Some ex \<Longrightarrow> exchange_admitted policy (ap_annotation c) ex"
  shows "annotated_ok policy (apply_exchange policy (c, x))"
proof -
  have "set (tl (nodes c)) \<subseteq> set (nodes c)" "c \<in> set (nodes c)"
    using nodes_eq [of c] by (metis list.sel(3) list.set_intros(1,2) subsetI)+
  with assms show ?thesis
    unfolding annotated_ok_def nodes_apply by (auto intro: node_ok_apply apply_exchange_admitted)
qed

lemma annotate_ok:
  "annotate_recursive p policy md t = Inr ap \<Longrightarrow>
     ap_plan ap = p \<and> exchange_before ap = None \<and> annotated_ok policy ap"
proof (induction p policy md t arbitrary: ap rule: annotate_recursive.induct)
  case (1 p policy md t)
  from iffD1 [OF annotate_recursive_Inr "1.prems"] obtain cs xs a where
    cs: "list_all2 (\<lambda>c a. annotate_recursive c policy md t = Inr a) (plan_children p) cs" and
    xs: "exchanges_to_insert p policy t cs = Inr xs" and
    ap: "ap = annotated_new p a (map (apply_exchange policy) (zip cs xs))"
    by blast
  have len: "length cs = length (plan_children p)" using list_all2_lengthD [OF cs] by simp
  have IH: "ap_plan (cs ! i) = plan_children p ! i \<and> exchange_before (cs ! i) = None \<and>
      annotated_ok policy (cs ! i)" if "i < length cs" for i
  proof (rule "1.IH")
    show "plan_children p ! i \<in> set (plan_children p)" using that len by simp
    show "annotate_recursive (plan_children p ! i) policy md t = Inr (cs ! i)"
      using list_all2_nthD2 [OF cs that] .
  qed
  then have "\<forall>c \<in> set cs. exchange_before c = None" by (metis in_set_conv_nth)
  note ok = exchanges_to_insert_ok [OF xs len this]
  have "map ap_plan (map (apply_exchange policy) (zip cs xs)) = plan_children p"
    using IH len ok(1) by (intro nth_equalityI) simp_all
  then have "node_ok policy ap"
    using ok(2) by (simp add: node_ok_def ap annotated_new_def exchange_recorded_def)
  moreover have "annotated_ok policy (apply_exchange policy (c, x))" if "(c, x) \<in> set (zip cs xs)" for c x
  proof (rule annotated_ok_apply)
    from that obtain i where "i < length cs" "c = cs ! i" by (metis in_set_conv_nth set_zip_leftD)
    with IH show "annotated_ok policy c" by simp
    show "exchange_admitted policy (ap_annotation c) ex" if "x = Some ex" for ex
      using ok(3) \<open>(c, x) \<in> set (zip cs xs)\<close> that by blast
  qed
  moreover have "node_admitted policy ap" by (simp add: ap annotated_new_def node_admitted_def)
  moreover have "nodes ap = ap # concat (map (\<lambda>c. nodes (apply_exchange policy c)) (zip cs xs))"
    by (simp add: ap annotated_new_def o_def)
  ultimately have "annotated_ok policy ap"
    unfolding annotated_ok_def by fastforce
  then show ?case by (simp add: ap annotated_new_def)
qed

section \<open>Errors\<close>

lemma compute_output_total [simp]: "compute_output_distribution p cs policy md \<noteq> Inl e"
  by (cases p) (auto simp: Let_def split: list.splits)

text \<open>The reasons a query can be rejected for, and what the rejection reports.\<close>

fun reject_truthful :: "planner_policy \<Rightarrow> reject_reason \<Rightarrow> bool" where
  "reject_truthful policy (ShuffleTooLarge b l) \<longleftrightarrow> l = shuffle_bytes_max policy \<and> l < b"
| "reject_truthful policy (GatherTooLarge r b rl bl) \<longleftrightarrow> rl = gather_rows_max policy \<and>
     bl = gather_bytes_max policy \<and>
     (\<not> can_gather policy r b \<or> \<not> can_gather_with_safety policy r b False)"
| "reject_truthful policy (CannotDetermineExchange m) \<longleftrightarrow> False"

lemma determine_exchange_reject:
  "determine_exchange d a r policy j t = Reject x \<Longrightarrow> reject_truthful policy x"
  by (cases r) (auto simp: determine_exchange_def determine_gather_exchange_def
      determine_hash_or_broadcast_exchange_def can_shuffle_def can_gather_with_safety_def can_gather_def
      Let_def split: prod.splits if_splits)

lemma handle_join_error:
  "handle_join_exchanges p l r policy t = Inl e \<Longrightarrow> \<exists>x. e = Rejected x \<and> reject_truthful policy x"
proof (cases "equi_join_keys p")
  case (Some ks)
  assume h: "handle_join_exchanges p l r policy t = Inl e"
  from Some obtain pl pr op lk rk where p: "p = Join pl pr op lk rk" "\<not> (lk = [] \<or> rk = [])"
    by (cases p) (auto split: if_splits)
  define ctx where "ctx = \<lparr>left_annotation = ap_annotation l, right_annotation = ap_annotation r,
     left_actual = ap_distribution l, right_actual = ap_distribution r, left_keys = lk,
     right_keys = rk, join_policy = policy, join_target_workers = t\<rparr>"
  obtain dl dr where dec: "determine_join_exchanges ctx = (dl, dr)" by fastforce
  have "(\<forall>x. dl = Reject x \<longrightarrow> reject_truthful policy x) \<and> (\<forall>x. dr = Reject x \<longrightarrow> reject_truthful policy x)"
    by (cases ctx rule: join_exchanges_cases)
      (use dec in \<open>auto simp: insert_unless_def ctx_def split: if_splits\<close>)
  with h p dec show ?thesis
    by (auto simp: handle_join_exchanges_def ctx_def [symmetric] split: exchange_decision.splits)
qed (cases p; auto simp: handle_join_exchanges_def determine_exchange_reject
      split: if_splits exchange_decision.splits)

lemma standard_exchanges_error:
  "standard_exchanges policy t cs rs = Inl e \<Longrightarrow> \<exists>x. e = Rejected x \<and> reject_truthful policy x"
  by (induction policy t cs rs rule: standard_exchanges.induct)
    (auto simp: bind_ok_Inl split: if_splits exchange_decision.splits dest: determine_exchange_reject)

lemma map_ok_Inl: "map_ok f xs = Inl e \<Longrightarrow> \<exists>x \<in> set xs. f x = Inl e"
  by (induction xs) (auto simp: bind_ok_Inl)

lemma annotate_error:
  "annotate_recursive p policy md t = Inl e \<Longrightarrow> \<exists>x. e = Rejected x \<and> reject_truthful policy x"
proof (induction p policy md t rule: annotate_recursive.induct)
  case (1 p policy md t)
  have "\<exists>x. e = Rejected x \<and> reject_truthful policy x" if "exchanges_to_insert p policy t cs = Inl e" for cs
    using that handle_join_error standard_exchanges_error
    by (auto simp: exchanges_to_insert_def bind_ok_Inl split: if_splits)
  moreover from "1.prems" have
    "map_ok (\<lambda>c. annotate_recursive c policy md t) (plan_children p) = Inl e \<or>
     (\<exists>cs. exchanges_to_insert p policy t cs = Inl e)"
  proof (cases "map_ok (\<lambda>c. annotate_recursive c policy md t) (plan_children p)")
    case (Inr cs)
    with "1.prems" have "exchanges_to_insert p policy t cs = Inl e"
      unfolding annotate_recursive.simps [of p policy md t]
      by (auto simp: bind_ok_Inl Let_def case_prod_beta)
    then show ?thesis by blast
  qed (use "1.prems" in \<open>simp add: annotate_recursive.simps [of p policy md t]\<close>)
  moreover have "\<exists>x. e = Rejected x \<and> reject_truthful policy x"
    if "map_ok (\<lambda>c. annotate_recursive c policy md t) (plan_children p) = Inl e"
  proof -
    from map_ok_Inl [OF that] obtain c where "c \<in> set (plan_children p)"
      "annotate_recursive c policy md t = Inl e" by blast
    then show ?thesis by (rule "1.IH")
  qed
  ultimately show ?case by blast
qed


text \<open>Unfolding the pass at a known constructor.\<close>

lemmas annotate_at =
  annotate_recursive.simps [of "Scan t a f" for t a f]
  annotate_recursive.simps [of "Filter p e" for p e]
  annotate_recursive.simps [of "Sort p os" for p os]
  annotate_recursive.simps [of "Aggregate p g xs h ks" for p g xs h ks]
  annotate_recursive.simps [of "Join l r op lk rk" for l r op lk rk]
  annotate_recursive.simps [of "Window p xs ks" for p xs ks]

section \<open>Properties\<close>


definition sample_sort :: logical_plan where
  "sample_sort = Sort (Scan ''sales'' None (OtherFactor ''sales'')) []"

lemma sample_sales_scan:
  "in_memory_table_scan_stats sample_in_memory ''sales'' =
     \<lparr>ts_rows = 3000, ts_bytes = 30000, ts_workers = [WorkerId ''w1'', WorkerId ''w2''],
      ts_source = Exact, ts_distribution = None\<rparr>"
  by (simp add: in_memory_table_scan_stats_def aggregate_scan_stats_def sample_in_memory_defs
      in_memory_epochs_for_table_def resolve_table_name_def epoch_in_range_def parse_bound_def
      List.map_filter_simps in_memory_epoch_stats_def epoch_stats_exact_def push_new_def scan_prefix_def)

lemmas annotate_eval = annotate_logical_plan_def sample_sort_def annotate_at exchanges_to_insert_def
  in_memory_ops_def sample_sales_scan to_distribution_def determine_exchange_def
  annotated_new_def annotation_with_source_def determine_gather_exchange_def can_gather_def
  policy_default_def preserved_def


text \<open>
  C16. Admission bounds: in a successful annotation under a safety factor of at least one, a
  broadcast input has exact statistics and at most \<open>broadcast_bytes_max\<close> bytes, and a
  gathered input goes to the coordinator and has at most \<open>gather_rows_max\<close> rows and
  \<open>gather_bytes_max\<close> bytes, as long as the scaled estimates convert to \<open>f64\<close> exactly.
\<close>

theorem annotate_within_limits:
  assumes "annotate_logical_plan plan policy md = Inr ap" and "n \<in> set (nodes ap)"
    and "f64_ge_one (safety_factor policy)"
  shows "(exchange_before n = Some (Broadcast ws) \<longrightarrow>
      stats_source (ap_annotation n) = Exact \<and> est_bytes (ap_annotation n) \<le> broadcast_bytes_max policy) \<and>
    (exchange_before n = Some (Gather w) \<longrightarrow> w = policy_coordinator policy \<and>
      (unat (est_rows (ap_annotation n)) < 2 ^ 53 \<and> unat (est_bytes (ap_annotation n)) < 2 ^ 53 \<and>
       unat (fst (with_safety_factor (ap_annotation n) (safety_factor policy))) < 2 ^ 53 \<and>
       unat (snd (with_safety_factor (ap_annotation n) (safety_factor policy))) < 2 ^ 53 \<longrightarrow>
       est_rows (ap_annotation n) \<le> gather_rows_max policy \<and>
       est_bytes (ap_annotation n) \<le> gather_bytes_max policy))"
proof -
  let ?a = "ap_annotation n" and ?f = "safety_factor policy"
  have adm: "node_admitted policy n"
    using annotate_ok [OF assms(1) [unfolded annotate_logical_plan_def]] assms(2)
    by (simp add: annotated_ok_def)
  have "est_rows ?a \<le> gather_rows_max policy \<and> est_bytes ?a \<le> gather_bytes_max policy"
    if "exchange_before n = Some (Gather w)" "unat (est_rows ?a) < 2 ^ 53" "unat (est_bytes ?a) < 2 ^ 53"
      "unat (fst (with_safety_factor ?a ?f)) < 2 ^ 53" "unat (snd (with_safety_factor ?a ?f)) < 2 ^ 53"
  proof -
    from adm that(1) have "can_gather_with_safety policy (fst (with_safety_factor ?a ?f))
        (snd (with_safety_factor ?a ?f)) (is_exact (stats_source ?a))"
      by (simp add: node_admitted_def)
    from can_gather_with_safety_sound [OF assms(3) that(4,5) this]
    have "fst (with_safety_factor ?a ?f) \<le> gather_rows_max policy"
      "snd (with_safety_factor ?a ?f) \<le> gather_bytes_max policy" by (simp_all add: can_gather_def)
    with with_safety_factor_ge [OF assms(3) that(2,3)] show ?thesis by (meson order_trans)
  qed
  with adm show ?thesis by (auto simp: node_admitted_def)
qed

theorem annotate_within_limits_witness:
  "\<exists>ap n. annotate_logical_plan sample_sort policy_default (in_memory_ops sample_in_memory) = Inr ap \<and>
     n \<in> set (nodes ap) \<and> exchange_before n = Some (Gather worker_default) \<and>
     est_rows (ap_annotation n) \<le> gather_rows_max policy_default"
proof -
  obtain ap where ap: "annotate_logical_plan sample_sort policy_default (in_memory_ops sample_in_memory) = Inr ap"
    and c: "\<exists>c. ap_children ap = [c] \<and> exchange_before c = Some (Gather worker_default) \<and>
      stats_source (ap_annotation c) = Exact \<and> est_rows (ap_annotation c) = 3000 \<and>
      est_bytes (ap_annotation c) = 30000"
    by (simp add: annotate_eval)
  then obtain n where n: "ap_children ap = [n]" "exchange_before n = Some (Gather worker_default)"
    "stats_source (ap_annotation n) = Exact" "est_rows (ap_annotation n) = 3000"
    "est_bytes (ap_annotation n) = 30000" by blast
  then have "n \<in> set (nodes ap)" using nodes_eq [of ap] nodes_eq [of n] by simp
  from annotate_within_limits [OF ap this presets_factor_ge_one(1), of "[]" worker_default] n(2-5)
  have "est_rows (ap_annotation n) \<le> gather_rows_max policy_default" by simp
  with ap n \<open>n \<in> set (nodes ap)\<close> show ?thesis by blast
qed

definition gap_metadata :: in_memory_metadata where
  "gap_metadata =
     register_table_stats ''facts'' [WorkerId ''w1'', WorkerId ''w2'']
       (EpochPartitioned [WorkerId ''w1'', WorkerId ''w2'']) 1000000 1000000000 Exact
     (register_table_stats ''dim'' [WorkerId ''w1'', WorkerId ''w2'']
       (HashPartitioned [unqualified_ref ''k''] [WorkerId ''w1'', WorkerId ''w2'']) 10 100 Exact
     in_memory_new)"

definition gap_join :: logical_plan where
  "gap_join = Join (Scan ''dim'' None (OtherFactor ''dim'')) (Scan ''facts'' None (OtherFactor ''facts''))
     (Inner (On (OtherExpr ''dim.k = facts.k''))) [unqualified_ref ''k''] [unqualified_ref ''k'']"




text \<open>
  C15. Under the \<open>conservative\<close> preset every plan is accepted: planning is total, whatever
  the metadata says about the size of the data.
\<close>

theorem conservative_accepts: "\<exists>ap. annotate_logical_plan plan conservative md = Inr ap"
proof (cases "annotate_logical_plan plan conservative md")
  case (Inl e)
  then have "annotate_recursive plan conservative md [] = Inl e" by (simp add: annotate_logical_plan_def)
  from annotate_error [OF this] obtain x where "reject_truthful conservative x" by blast
  then have False
    by (cases x) (simp_all add: conservative_def can_gather_def can_gather_with_safety_def)
  then show ?thesis ..
qed blast

text \<open>
  C18. The safety factor is applied twice on the way to a gather: once in
  \<open>determine_exchange\<close> and once more in \<open>can_gather_with_safety\<close>. Under the default
  policy (factor two) an input with uncertain statistics is gathered only when four times its
  estimate is within the limits.
\<close>

theorem gather_scaled_twice:
  assumes "stats_source a \<noteq> Exact" and "\<not> is_singleton d"
    and "unat (est_rows a) < 2 ^ 50" and "unat (est_bytes a) < 2 ^ 50"
  shows "determine_exchange d a ReqSingleton policy_default j t = Insert (Gather worker_default) \<longleftrightarrow>
    4 * est_rows a \<le> gather_rows_max policy_default \<and> 4 * est_bytes a \<le> gather_bytes_max policy_default"
proof -
  have twice: "scale_u64 (scale_u64 w f64_two) f64_two = 4 * w" if "unat w < 2 ^ 50" for w :: u64
  proof -
    from that have one: "scale_u64 w f64_two = 2 * w" by (intro scale_u64_two) simp
    have "unat (2 * w) = 2 * unat w"
      using that by (subst unat_mult_lem [THEN iffD1]) simp_all
    with that have "scale_u64 (2 * w) f64_two = 2 * (2 * w)" by (intro scale_u64_two) simp
    then show ?thesis by (simp add: one)
  qed
  have "safety_factor policy_default = f64_two" "policy_coordinator policy_default = worker_default"
    by (simp_all add: policy_default_def)
  with assms show ?thesis
    by (simp add: determine_exchange_def determine_gather_exchange_def can_gather_with_safety_def
        with_safety_factor_def is_uncertain_def twice)
qed

theorem gather_scaled_twice_witness:
  "determine_exchange (EpochPartitioned []) (annotation_with_source (EpochPartitioned []) 20000000 1000 Estimated)
     ReqSingleton policy_default False [] \<noteq> Insert (Gather worker_default)"
  using gather_scaled_twice [of "annotation_with_source (EpochPartitioned []) 20000000 1000 Estimated"
      "EpochPartitioned []" False "[]"]
  by (simp add: annotation_with_source_def policy_default_def)

end
