(* ===== verification/Stage_Sql.thy ===== *)
theory Stage_Sql
  imports Logical_Plan Rust_Text
begin

text \<open>
  \<^verbatim>\<open>sql/stage_sql_gen.rs\<close>: the SQL text of a plan fragment. A generator writes to the end
  of a buffer; the model returns the text it appends. The \<open>Display\<close> implementations of the
  syntax tree are the record \<open>sql_display\<close>.
\<close>

section \<open>Stripping table qualifiers\<close>

fun is_exchange_backed_plan :: "logical_plan \<Rightarrow> bool" where
  "is_exchange_backed_plan (ExchangeRead i a) = True"
| "is_exchange_backed_plan (SubqueryScan p a) = is_exchange_backed_plan p"
| "is_exchange_backed_plan (Filter p e) = is_exchange_backed_plan p"
| "is_exchange_backed_plan (Project p xs) = is_exchange_backed_plan p"
| "is_exchange_backed_plan (Aggregate p g xs h ks) = is_exchange_backed_plan p"
| "is_exchange_backed_plan (Sort p os) = is_exchange_backed_plan p"
| "is_exchange_backed_plan (Limit p l f) = is_exchange_backed_plan p"
| "is_exchange_backed_plan (Window p xs ks) = is_exchange_backed_plan p"
| "is_exchange_backed_plan (Join l r op lk rk) = False"
| "is_exchange_backed_plan (SetOp l r op q) = False"
| "is_exchange_backed_plan (Scan t a f) = False"

fun plan_contains_bare_exchange :: "logical_plan \<Rightarrow> bool" where
  "plan_contains_bare_exchange (ExchangeRead i a) = True"
| "plan_contains_bare_exchange (SubqueryScan p a) = False"
| "plan_contains_bare_exchange (Filter p e) = plan_contains_bare_exchange p"
| "plan_contains_bare_exchange (Project p xs) = plan_contains_bare_exchange p"
| "plan_contains_bare_exchange (Aggregate p g xs h ks) = plan_contains_bare_exchange p"
| "plan_contains_bare_exchange (Sort p os) = plan_contains_bare_exchange p"
| "plan_contains_bare_exchange (Limit p l f) = plan_contains_bare_exchange p"
| "plan_contains_bare_exchange (Window p xs ks) = plan_contains_bare_exchange p"
| "plan_contains_bare_exchange (Join l r op lk rk) =
     (plan_contains_bare_exchange l \<or> plan_contains_bare_exchange r)"
| "plan_contains_bare_exchange (SetOp l r op q) =
     (plan_contains_bare_exchange l \<or> plan_contains_bare_exchange r)"
| "plan_contains_bare_exchange (Scan t a f) = False"

fun dequalify_expr :: "expr \<Rightarrow> expr" where
  "dequalify_expr (CompoundIdentifier parts) =
     (if parts = [] then CompoundIdentifier parts else Identifier (last parts))"
| "dequalify_expr (BinaryOp l op r) = BinaryOp (dequalify_expr l) op (dequalify_expr r)"
| "dequalify_expr (UnaryOp op e) = UnaryOp op (dequalify_expr e)"
| "dequalify_expr (Nested e) = Nested (dequalify_expr e)"
| "dequalify_expr (Cast e t r) = Cast (dequalify_expr e) t r"
| "dequalify_expr (Function name args over rest) =
     Function name
       (case args of
          ArgList xs r \<Rightarrow> ArgList (map (\<lambda>arg. case arg of
              UnnamedArg (ArgExpr e) \<Rightarrow> UnnamedArg (ArgExpr (dequalify_expr e))
            | _ \<Rightarrow> arg) xs) r
        | OtherArguments r \<Rightarrow> args)
       over rest"
| "dequalify_expr (IsTest t e) = IsTest t (dequalify_expr e)"
| "dequalify_expr (Case operand conditions else_result) =
     Case (map_option dequalify_expr operand)
       (map (\<lambda>cw. CaseWhen (dequalify_expr (when_condition cw)) (dequalify_expr (when_result cw)))
          conditions)
       (map_option dequalify_expr else_result)"
| "dequalify_expr (Between e negated low high) =
     Between (dequalify_expr e) negated (dequalify_expr low) (dequalify_expr high)"
| "dequalify_expr (InList e xs negated) =
     InList (dequalify_expr e) (map dequalify_expr xs) negated"
| "dequalify_expr (InSubquery e q negated) = InSubquery (dequalify_expr e) q negated"
| "dequalify_expr (Matches t negated e pattern escape) =
     Matches t negated (dequalify_expr e) (dequalify_expr pattern) escape"
| "dequalify_expr (Extract field syntax e) = Extract field ''From'' (dequalify_expr e)"
| "dequalify_expr (Substring e sfrom sfor special shorthand) =
     Substring (dequalify_expr e) (map_option dequalify_expr sfrom)
       (map_option dequalify_expr sfor) False False"
| "dequalify_expr (Trim e w what chars) =
     Trim (dequalify_expr e) w (map_option dequalify_expr what)
       (map_option (map dequalify_expr) chars)"
| "dequalify_expr (IsDistinctFrom negated l r) =
     IsDistinctFrom negated (dequalify_expr l) (dequalify_expr r)"
| "dequalify_expr (Tuple xs) = Tuple (map dequalify_expr xs)"
| "dequalify_expr e = e"

definition dequalify_order_by_expr :: "order_by_expr \<Rightarrow> order_by_expr" where
  "dequalify_order_by_expr o' = OrderByExpr (dequalify_expr (ob_expr o')) (ob_options o')"

fun dequalify_group_by :: "group_by_expr \<Rightarrow> group_by_expr" where
  "dequalify_group_by (GroupByExpressions es m) = GroupByExpressions (map dequalify_expr es) m"
| "dequalify_group_by (GroupByAll m) = GroupByAll m"

fun dequalify_select_item :: "select_item \<Rightarrow> select_item" where
  "dequalify_select_item (UnnamedExpr e) = UnnamedExpr (dequalify_expr e)"
| "dequalify_select_item (ExprWithAlias e a) = ExprWithAlias (dequalify_expr e) a"
| "dequalify_select_item item = item"

section \<open>Lists of clauses\<close>

definition write_select_items :: "sql_display \<Rightarrow> select_item list \<Rightarrow> string" where
  "write_select_items d items =
     (if items = [] then ''*'' else join_with '', '' (map (fmt_item d) items))"

definition write_select_items_dequalified :: "sql_display \<Rightarrow> select_item list \<Rightarrow> string" where
  "write_select_items_dequalified d items =
     (if items = [] then ''*''
      else join_with '', '' (map (\<lambda>item. fmt_item d (dequalify_select_item item)) items))"

definition write_cte_prefix :: "sql_display \<Rightarrow> cte list \<Rightarrow> string" where
  "write_cte_prefix d ctes = ''WITH '' @ join_with '', '' (map (fmt_cte d) ctes) @ '' ''"

section \<open>Joins\<close>

fun format_join_type :: "join_operator \<Rightarrow> string" where
  "format_join_type (InnerJoinOp c) = ''JOIN''"
| "format_join_type (Inner c) = ''JOIN''"
| "format_join_type (LeftJoin c) = ''LEFT JOIN''"
| "format_join_type (LeftOuter c) = ''LEFT JOIN''"
| "format_join_type (RightJoin c) = ''RIGHT JOIN''"
| "format_join_type (RightOuter c) = ''RIGHT JOIN''"
| "format_join_type (FullOuter c) = ''FULL OUTER JOIN''"
| "format_join_type (CrossJoin c) = ''CROSS JOIN''"
| "format_join_type (Semi c) = ''SEMI JOIN''"
| "format_join_type (LeftSemi c) = ''LEFT SEMI JOIN''"
| "format_join_type (RightSemi c) = ''RIGHT SEMI JOIN''"
| "format_join_type (Anti c) = ''ANTI JOIN''"
| "format_join_type (LeftAnti c) = ''LEFT ANTI JOIN''"
| "format_join_type (RightAnti c) = ''RIGHT ANTI JOIN''"
| "format_join_type CrossApply = ''CROSS APPLY''"
| "format_join_type OuterApply = ''OUTER APPLY''"
| "format_join_type (AsOf e c) = ''ASOF JOIN''"
| "format_join_type (StraightJoin c) = ''STRAIGHT_JOIN''"

fun write_constraint :: "sql_display \<Rightarrow> join_constraint \<Rightarrow> bool \<Rightarrow> string" where
  "write_constraint d (On e) dequalify =
     '' ON '' @ fmt_expr d (if dequalify then dequalify_expr e else e)"
| "write_constraint d (Using columns) dequalify =
     '' USING('' @ join_with '', '' (map (fmt_name d) columns) @ '')''"
| "write_constraint d Natural dequalify = []"
| "write_constraint d NoConstraint dequalify = []"

definition write_join_constraint :: "sql_display \<Rightarrow> join_operator \<Rightarrow> string" where
  "write_join_constraint d op = (case extract_join_constraint op of
     Some c \<Rightarrow> write_constraint d c False | None \<Rightarrow> [])"

definition write_join_constraint_dequalified :: "sql_display \<Rightarrow> join_operator \<Rightarrow> string" where
  "write_join_constraint_dequalified d op = (case extract_join_constraint op of
     Some c \<Rightarrow> write_constraint d c True | None \<Rightarrow> [])"

section \<open>Whole statements and FROM fragments\<close>

definition order_by_text :: "sql_display \<Rightarrow> logical_plan \<Rightarrow> order_by_expr list \<Rightarrow> string" where
  "order_by_text d input order_by =
     (if order_by = [] then []
      else '' ORDER BY '' @ join_with '', '' (map (\<lambda>e. fmt_order d
             (if is_exchange_backed_plan input then dequalify_order_by_expr e else e)) order_by))"

definition where_text :: "sql_display \<Rightarrow> logical_plan \<Rightarrow> expr \<Rightarrow> string" where
  "where_text d input predicate =
     '' WHERE '' @ fmt_expr d
       (if plan_contains_bare_exchange input then dequalify_expr predicate else predicate)"

fun has_group_by :: "group_by_expr \<Rightarrow> bool" where
  "has_group_by (GroupByExpressions es m) = (es \<noteq> [])"
| "has_group_by (GroupByAll m) = True"

text \<open>What the arm of \<open>Aggregate\<close> writes before and after the FROM fragment.\<close>

definition aggregate_select :: "sql_display \<Rightarrow> logical_plan \<Rightarrow> select_item list \<Rightarrow> string" where
  "aggregate_select d input aggr_exprs =
     ''SELECT '' @ (if is_exchange_backed_plan input
                    then write_select_items_dequalified d aggr_exprs
                    else write_select_items d aggr_exprs)"

definition aggregate_tail ::
  "sql_display \<Rightarrow> logical_plan \<Rightarrow> group_by_expr \<Rightarrow> expr option \<Rightarrow> string" where
  "aggregate_tail d input group_by having =
     (let exchange_backed = is_exchange_backed_plan input in
      (if has_group_by group_by
       then '' '' @ fmt_group d (if exchange_backed then dequalify_group_by group_by else group_by)
       else []) @
      (case having of
         Some h \<Rightarrow> '' HAVING '' @ fmt_expr d (if exchange_backed then dequalify_expr h else h)
       | None \<Rightarrow> []))"

definition limit_text :: "sql_display \<Rightarrow> expr option \<Rightarrow> expr option \<Rightarrow> string" where
  "limit_text d limit offset =
     (case limit of Some l \<Rightarrow> '' LIMIT '' @ fmt_expr d l | None \<Rightarrow> []) @
     (case offset of Some f \<Rightarrow> '' OFFSET '' @ fmt_expr d f | None \<Rightarrow> [])"

definition set_op_text :: "sql_display \<Rightarrow> set_operator \<Rightarrow> set_quantifier \<Rightarrow> string" where
  "set_op_text d op q =
     '' '' @ fmt_set_operator d op @ '' '' @
     (if q = QNone then [] else fmt_set_quantifier d q @ '' '')"

definition join_text :: "sql_display \<Rightarrow> logical_plan \<Rightarrow> logical_plan \<Rightarrow> join_operator \<Rightarrow> string" where
  "join_text d l r op =
     (if plan_contains_bare_exchange l \<or> plan_contains_bare_exchange r
      then write_join_constraint_dequalified d op else write_join_constraint d op)"

text \<open>
  Each generator may hand the node it is at to the other one: \<open>generate_sql\<close> at a join,
  \<open>generate_from_fragment\<close> at the nodes it wraps. Never both at one node.
\<close>

fun wraps_itself :: "logical_plan \<Rightarrow> bool" where
  "wraps_itself (Join l r op lk rk) = True"
| "wraps_itself _ = False"

function generate_sql :: "sql_display \<Rightarrow> logical_plan \<Rightarrow> string"
  and generate_from_fragment :: "sql_display \<Rightarrow> logical_plan \<Rightarrow> string"
where
  "generate_sql d (Limit input limit offset) = generate_sql d input @ limit_text d limit offset"
| "generate_sql d (Sort input order_by) = generate_sql d input @ order_by_text d input order_by"
| "generate_sql d (Aggregate input group_by aggr_exprs having group_keys) =
     aggregate_select d input aggr_exprs @ '' FROM '' @ generate_from_fragment d input @
     aggregate_tail d input group_by having"
| "generate_sql d (Project input items) =
     ''SELECT '' @ (if plan_contains_bare_exchange input
                    then write_select_items_dequalified d items
                    else write_select_items d items) @
     '' FROM '' @ generate_from_fragment d input"
| "generate_sql d (Window input window_exprs partition_keys) =
     ''SELECT '' @ write_select_items d window_exprs @ '' FROM '' @ generate_from_fragment d input"
| "generate_sql d (SetOp l r op q) = generate_sql d l @ set_op_text d op q @ generate_sql d r"
| "generate_sql d (SubqueryScan input alias) = generate_sql d input"
| "generate_sql d (Scan t a factor) = ''SELECT * FROM '' @ fmt_factor d factor"
| "generate_sql d (ExchangeRead i alias) = ''SELECT * FROM '' @ alias"
| "generate_sql d (Filter input predicate) =
     ''SELECT * FROM '' @ generate_from_fragment d input @ where_text d input predicate"
| "generate_sql d (Join l r op lk rk) =
     ''SELECT * FROM '' @ generate_from_fragment d (Join l r op lk rk)"
| "generate_from_fragment d (Scan t a factor) = fmt_factor d factor"
| "generate_from_fragment d (ExchangeRead i alias) = alias"
| "generate_from_fragment d (Join l r op lk rk) =
     generate_from_fragment d l @ '' '' @ format_join_type op @ '' '' @
     generate_from_fragment d r @ join_text d l r op"
| "generate_from_fragment d (Filter input predicate) =
     generate_from_fragment d input @ where_text d input predicate"
| "generate_from_fragment d (SubqueryScan input alias) =
     ''('' @ generate_sql d input @ '') '' @ fmt_alias d alias"
| "generate_from_fragment d (Limit input l f) =
     ''('' @ generate_sql d (Limit input l f) @ '') AS __subquery''"
| "generate_from_fragment d (Sort input os) =
     ''('' @ generate_sql d (Sort input os) @ '') AS __subquery''"
| "generate_from_fragment d (Aggregate input g xs h ks) =
     ''('' @ generate_sql d (Aggregate input g xs h ks) @ '') AS __subquery''"
| "generate_from_fragment d (Project input items) =
     ''('' @ generate_sql d (Project input items) @ '') AS __subquery''"
| "generate_from_fragment d (Window input xs ks) =
     ''('' @ generate_sql d (Window input xs ks) @ '') AS __subquery''"
| "generate_from_fragment d (SetOp l r op q) =
     ''('' @ generate_sql d (SetOp l r op q) @ '') AS __subquery''"
  by pat_completeness auto

termination
  by (relation "measure (case_sum
        (\<lambda>(d, p). 2 * size p + (if wraps_itself p then 1 else 0))
        (\<lambda>(d, p). 2 * size p + (if wraps_itself p then 0 else 1)))") auto

definition generate_stage_sql :: "sql_display \<Rightarrow> logical_plan \<Rightarrow> plan_context \<Rightarrow> string" where
  "generate_stage_sql d plan context =
     (if cte_definitions context \<noteq> [] then write_cte_prefix d (cte_definitions context) else []) @
     generate_sql d plan"

definition generate_stage_sql_no_context :: "sql_display \<Rightarrow> logical_plan \<Rightarrow> string" where
  "generate_stage_sql_no_context d plan = generate_sql d plan"

section \<open>A reference grammar\<close>

text \<open>
  The statements that need no parentheses beyond those around a nested query: joins and set
  operations associate to the left, INTERSECT binds tighter than the other set operations, a
  SELECT has one WHERE clause after its table expression, and ORDER BY, LIMIT and OFFSET
  come once, at the end. \<open>print_query\<close> is the text of such a statement.
\<close>

datatype table_primary =
    TableLeaf table_factor
  | ExchangeLeaf string
  | DerivedTable query_tree "table_alias option"
and table_tree = Primary table_primary | JoinTree table_tree table_primary join_operator bool
and core_tree =
    SelectTree "select_item list" table_tree "expr option" "group_by_expr option" "expr option"
and body_tree = CoreBody core_tree | SetBody body_tree set_operator set_quantifier core_tree
and query_tree = QueryTree body_tree "order_by_expr list" "expr option" "expr option"

definition print_clause :: "string \<Rightarrow> ('a \<Rightarrow> string) \<Rightarrow> 'a option \<Rightarrow> string" where
  "print_clause keyword fmt x = (case x of Some e \<Rightarrow> keyword @ fmt e | None \<Rightarrow> [])"

lemma print_clause_simps [simp]:
  "print_clause k f None = []" "print_clause k f (Some x) = k @ f x"
  by (simp_all add: print_clause_def)

fun print_primary :: "sql_display \<Rightarrow> table_primary \<Rightarrow> string"
  and print_table :: "sql_display \<Rightarrow> table_tree \<Rightarrow> string"
  and print_core :: "sql_display \<Rightarrow> core_tree \<Rightarrow> string"
  and print_body :: "sql_display \<Rightarrow> body_tree \<Rightarrow> string"
  and print_query :: "sql_display \<Rightarrow> query_tree \<Rightarrow> string"
where
  "print_primary d (TableLeaf f) = fmt_factor d f"
| "print_primary d (ExchangeLeaf a) = a"
| "print_primary d (DerivedTable q alias) =
     ''('' @ print_query d q @ '') '' @ (case alias of Some a \<Rightarrow> fmt_alias d a | None \<Rightarrow> ''AS __subquery'')"
| "print_table d (Primary p) = print_primary d p"
| "print_table d (JoinTree l r op dequalify) =
     print_table d l @ '' '' @ format_join_type op @ '' '' @ print_primary d r @
     (case extract_join_constraint op of Some c \<Rightarrow> write_constraint d c dequalify | None \<Rightarrow> [])"
| "print_core d (SelectTree items t w g h) =
     ''SELECT '' @ write_select_items d items @ '' FROM '' @ print_table d t @
     print_clause '' WHERE '' (fmt_expr d) w @ print_clause '' '' (fmt_group d) g @
     print_clause '' HAVING '' (fmt_expr d) h"
| "print_body d (CoreBody c) = print_core d c"
| "print_body d (SetBody b op q c) = print_body d b @ set_op_text d op q @ print_core d c"
| "print_query d (QueryTree b order_by limit offset) =
     print_body d b @
     (if order_by = [] then [] else '' ORDER BY '' @ join_with '', '' (map (fmt_order d) order_by)) @
     print_clause '' LIMIT '' (fmt_expr d) limit @ print_clause '' OFFSET '' (fmt_expr d) offset"

text \<open>The statement that a plan denotes, when it is one of the grammar.\<close>

definition dequalify_if :: "bool \<Rightarrow> ('a \<Rightarrow> 'a) \<Rightarrow> 'a \<Rightarrow> 'a" where
  "dequalify_if b f x = (if b then f x else x)"

definition select_all :: "table_tree \<Rightarrow> expr option \<Rightarrow> query_tree" where
  "select_all t w = QueryTree (CoreBody (SelectTree [] t w None None)) [] None None"

fun may_follow :: "body_tree \<Rightarrow> set_operator \<Rightarrow> bool" where
  "may_follow (CoreBody c) op = True"
| "may_follow (SetBody b op' q c) op = (op = SetIntersect \<longrightarrow> op' = SetIntersect)"

fun add_limit :: "expr option \<Rightarrow> expr option \<Rightarrow> query_tree \<Rightarrow> query_tree option" where
  "add_limit l f (QueryTree b os None None) = Some (QueryTree b os l f)"
| "add_limit l f _ = None"

fun add_order :: "order_by_expr list \<Rightarrow> query_tree \<Rightarrow> query_tree option" where
  "add_order os (QueryTree b [] None None) = Some (QueryTree b os None None)"
| "add_order os _ = None"

fun combine_bodies :: "set_operator \<Rightarrow> set_quantifier \<Rightarrow> query_tree \<Rightarrow> query_tree \<Rightarrow> query_tree option" where
  "combine_bodies op q (QueryTree b [] None None) (QueryTree (CoreBody c) [] None None) =
     (if may_follow b op then Some (QueryTree (SetBody b op q c) [] None None) else None)"
| "combine_bodies op q _ _ = None"

function query_of :: "logical_plan \<Rightarrow> query_tree option"
  and from_of :: "logical_plan \<Rightarrow> (table_tree \<times> expr option) option"
  and table_of :: "logical_plan \<Rightarrow> table_tree option"
  and primary_of :: "logical_plan \<Rightarrow> table_primary option"
where
  "query_of (Limit p l f) = Option.bind (query_of p) (add_limit l f)"
| "query_of (Sort p os) = Option.bind (query_of p)
     (add_order (map (dequalify_if (is_exchange_backed_plan p) dequalify_order_by_expr) os))"
| "query_of (Aggregate p g xs h ks) = map_option (\<lambda>(t, w). QueryTree (CoreBody (SelectTree
       (map (dequalify_if (is_exchange_backed_plan p) dequalify_select_item) xs) t w
       (if has_group_by g then Some (dequalify_if (is_exchange_backed_plan p) dequalify_group_by g)
        else None)
       (map_option (dequalify_if (is_exchange_backed_plan p) dequalify_expr) h))) [] None None)
     (from_of p)"
| "query_of (Project p xs) = map_option (\<lambda>(t, w). QueryTree (CoreBody (SelectTree
       (map (dequalify_if (plan_contains_bare_exchange p) dequalify_select_item) xs) t w None None))
       [] None None) (from_of p)"
| "query_of (Window p xs ks) = map_option (\<lambda>(t, w).
     QueryTree (CoreBody (SelectTree xs t w None None)) [] None None) (from_of p)"
| "query_of (SetOp l r op q) = Option.bind (query_of l) (\<lambda>x. Option.bind (query_of r) (combine_bodies op q x))"
| "query_of (SubqueryScan p a) = query_of p"
| "query_of (Scan t a f) = Some (select_all (Primary (TableLeaf f)) None)"
| "query_of (ExchangeRead i a) = Some (select_all (Primary (ExchangeLeaf a)) None)"
| "query_of (Filter p e) = map_option (\<lambda>t. select_all t
     (Some (dequalify_if (plan_contains_bare_exchange p) dequalify_expr e))) (table_of p)"
| "query_of (Join l r op lk rk) =
     map_option (\<lambda>t. select_all t None) (table_of (Join l r op lk rk))"
| "from_of p = (case p of
       Filter q e \<Rightarrow> map_option (\<lambda>t.
         (t, Some (dequalify_if (plan_contains_bare_exchange q) dequalify_expr e))) (table_of q)
     | _ \<Rightarrow> map_option (\<lambda>t. (t, None)) (table_of p))"
| "table_of p = (case p of
       Join l r op lk rk \<Rightarrow> Option.bind (table_of l) (\<lambda>t. map_option (\<lambda>u.
         JoinTree t u op (plan_contains_bare_exchange l \<or> plan_contains_bare_exchange r))
           (primary_of r))
     | Filter q e \<Rightarrow> None
     | _ \<Rightarrow> map_option Primary (primary_of p))"
| "primary_of p = (case p of
       Scan t a f \<Rightarrow> Some (TableLeaf f)
     | ExchangeRead i a \<Rightarrow> Some (ExchangeLeaf a)
     | SubqueryScan q a \<Rightarrow> map_option (\<lambda>x. DerivedTable x (Some a)) (query_of q)
     | Join l r op lk rk \<Rightarrow> None
     | Filter q e \<Rightarrow> None
     | _ \<Rightarrow> map_option (\<lambda>x. DerivedTable x None) (query_of p))"
  by pat_completeness auto

termination
  by (relation "measure (\<lambda>x. case x of
      Inl (Inl p) \<Rightarrow> 4 * size p + (if wraps_itself p then 3 else 0)
    | Inl (Inr p) \<Rightarrow> 4 * size p + 3
    | Inr (Inl p) \<Rightarrow> 4 * size p + 2
    | Inr (Inr p) \<Rightarrow> 4 * size p + 1)") auto

declare query_of.simps [simp] from_of.simps [simp del] table_of.simps [simp del] primary_of.simps [simp del]

lemma from_of_cases:
  "from_of (Filter q e) = map_option (\<lambda>t.
     (t, Some (dequalify_if (plan_contains_bare_exchange q) dequalify_expr e))) (table_of q)"
  "\<nexists>q e. p = Filter q e \<Longrightarrow> from_of p = map_option (\<lambda>t. (t, None)) (table_of p)"
  by (subst from_of.simps, cases p, simp_all)+

lemma table_of_cases:
  "table_of (Join l r op lk rk) = Option.bind (table_of l) (\<lambda>t. map_option (\<lambda>u.
     JoinTree t u op (plan_contains_bare_exchange l \<or> plan_contains_bare_exchange r)) (primary_of r))"
  "table_of (Filter q e) = None"
  "\<nexists>q e. p = Filter q e \<Longrightarrow> \<not> wraps_itself p \<Longrightarrow> table_of p = map_option Primary (primary_of p)"
  by (subst table_of.simps, cases p, simp_all)+

text \<open>The text of a plan that denotes a statement is the text of that statement.\<close>

lemma write_select_items_dequalify_if:
  "write_select_items d (map (dequalify_if b dequalify_select_item) xs) =
     (if b then write_select_items_dequalified d xs else write_select_items d xs)"
  by (simp add: write_select_items_def write_select_items_dequalified_def dequalify_if_def
      comp_def)

lemma print_add_limit:
  "add_limit l f q = Some q' \<Longrightarrow> print_query d q' = print_query d q @ limit_text d l f"
  by (induction l f q rule: add_limit.induct)
     (auto simp: limit_text_def print_clause_def split: option.splits)

lemma print_add_order:
  "add_order os q = Some q' \<Longrightarrow> print_query d q' = print_query d q @
     (if os = [] then [] else '' ORDER BY '' @ join_with '', '' (map (fmt_order d) os))"
  by (induction os q rule: add_order.induct) (auto simp: print_clause_def)

lemma print_combine_bodies:
  "combine_bodies op k q r = Some s \<Longrightarrow>
     print_query d s = print_query d q @ set_op_text d op k @ print_query d r"
  by (induction op k q r rule: combine_bodies.induct) (auto simp: print_clause_def split: if_splits)

lemma join_text_constraint:
  "join_text d l r op = (case extract_join_constraint op of
     Some c \<Rightarrow> write_constraint d c (plan_contains_bare_exchange l \<or> plan_contains_bare_exchange r)
   | None \<Rightarrow> [])"
  by (simp add: join_text_def write_join_constraint_def write_join_constraint_dequalified_def
      split: option.splits)

lemma aggregate_tail_clauses:
  "aggregate_tail d p g h =
     print_clause '' '' (fmt_group d) (if has_group_by g
       then Some (dequalify_if (is_exchange_backed_plan p) dequalify_group_by g) else None) @
     print_clause '' HAVING '' (fmt_expr d)
       (map_option (dequalify_if (is_exchange_backed_plan p) dequalify_expr) h)"
  by (auto simp: aggregate_tail_def print_clause_def dequalify_if_def Let_def split: option.splits)

lemma order_by_text_dequalify:
  "order_by_text d p os =
     (let os' = map (dequalify_if (is_exchange_backed_plan p) dequalify_order_by_expr) os
      in if os' = [] then [] else '' ORDER BY '' @ join_with '', '' (map (fmt_order d) os'))"
  by (simp add: order_by_text_def dequalify_if_def comp_def)

lemma generators_print:
  "query_of p = Some q \<Longrightarrow> generate_sql d p = print_query d q"
  "from_of p = Some (t, w) \<Longrightarrow>
     generate_from_fragment d p = print_table d t @ print_clause '' WHERE '' (fmt_expr d) w"
  "table_of p = Some t \<Longrightarrow> generate_from_fragment d p = print_table d t"
  "primary_of p = Some u \<Longrightarrow> generate_from_fragment d p = print_primary d u"
proof (induction p and p and p and p arbitrary: q and t w and t and u
    rule: query_of_from_of_table_of_primary_of.induct)
  case (1 p l f)
  then show ?case by (auto simp: bind_eq_Some_conv print_add_limit)
next
  case (2 p os)
  then show ?case by (auto simp: bind_eq_Some_conv print_add_order order_by_text_dequalify)
next
  case (3 p g xs h ks)
  then show ?case
    by (auto simp: aggregate_tail_clauses aggregate_select_def write_select_items_dequalify_if)
next
  case (4 p xs)
  then show ?case by (auto simp: write_select_items_dequalify_if)
next
  case (5 p xs ks)
  then show ?case by auto
next
  case (6 l r op k)
  then show ?case by (auto simp: bind_eq_Some_conv print_combine_bodies)
next
  case (12 p)
  then show ?case
    by (cases p) (auto simp: from_of_cases where_text_def dequalify_if_def
        simp del: generate_sql.simps)
next
  case (13 p)
  then show ?case
    by (cases p) (auto simp: table_of_cases bind_eq_Some_conv join_text_constraint
        simp del: generate_sql.simps)
next
  case (14 p)
  then show ?case by (cases p) (auto simp: primary_of.simps simp del: generate_sql.simps)
qed (auto simp: select_all_def write_select_items_def where_text_def dequalify_if_def)

text \<open>Every part of a statement is a statement: what a table expression denotes, a query denotes.\<close>

lemma query_of_table: "table_of p \<noteq> None \<Longrightarrow> query_of p \<noteq> None"
  by (cases p) (auto simp: table_of_cases primary_of.simps)

lemma query_of_primary: "primary_of p \<noteq> None \<Longrightarrow> query_of p \<noteq> None"
  by (cases p) (auto simp: primary_of.simps)

lemma query_of_from: "from_of p \<noteq> None \<Longrightarrow> query_of p \<noteq> None"
  by (cases p) (auto simp: from_of_cases table_of_cases primary_of.simps)

section \<open>Qualifiers over exchanges\<close>

lemma dequalify_idem [simp]: "dequalify_expr (dequalify_expr e) = dequalify_expr e"
proof (induction e rule: dequalify_expr.induct)
  case (6 name args over rest)
  then show ?case
    by (cases args) (auto split: function_arg.splits function_arg_expr.splits)
next
  case (8 operand conditions else_result)
  then show ?case by (cases operand; cases else_result; auto)
next
  case (14 e sfrom sfor special shorthand)
  then show ?case by (cases sfrom; cases sfor; auto)
next
  case (15 e w what chars)
  then show ?case by (cases what; cases chars; auto)
qed auto

lemma dequalify_select_item_idem [simp]:
  "dequalify_select_item (dequalify_select_item x) = dequalify_select_item x"
  by (cases x) simp_all

lemma plan_contains_bare_dequalified:
  "plan_contains_bare_exchange p \<Longrightarrow>
     generate_sql d (Project p (map dequalify_select_item xs)) = generate_sql d (Project p xs)"
  by (simp add: write_select_items_dequalified_def comp_def)

section \<open>Properties\<close>

text \<open>
  C25. The text of a stage is a well-formed statement: for a plan that denotes a statement of
  the grammar, the generator writes the WITH prefix and then exactly the text of that
  statement, whatever the \<open>Display\<close> implementations print.
\<close>

theorem stage_sql_grammatical:
  assumes "query_of p = Some q"
  shows "generate_stage_sql d p context =
    (if cte_definitions context = [] then [] else write_cte_prefix d (cte_definitions context)) @
    print_query d q"
  using assms by (simp add: generate_stage_sql_def generators_print(1))

definition sample_fragment :: logical_plan where
  "sample_fragment = Limit (Sort (Project (Filter (Join (ExchangeRead 0 ''__exchange_0'')
      (Scan ''t'' None (OtherFactor ''t'')) (Inner (On (OtherExpr ''p''))) [] [])
      (CompoundIdentifier [ident_new ''o'', ident_new ''c'']))
      [UnnamedExpr (CompoundIdentifier [ident_new ''o'', ident_new ''c''])])
      [OrderByExpr (Identifier (ident_new ''c'')) []]) (Some (OtherExpr ''10'')) None"

theorem stage_sql_grammatical_witness:
  "\<exists>q. query_of sample_fragment = Some q \<and>
     (\<forall>d. generate_stage_sql d sample_fragment plan_context_default = print_query d q)"
proof -
  have "\<exists>q. query_of sample_fragment = Some q"
    by (simp add: sample_fragment_def from_of_cases table_of_cases primary_of.simps)
  then obtain q where q: "query_of sample_fragment = Some q" by blast
  from stage_sql_grammatical [OF q, of _ plan_context_default] q show ?thesis
    by (simp add: plan_context_default_def)
qed

text \<open>
  C26. Outside the grammar the grouping of the plan is lost: a set operation nested on the right
  is written like one nested on the left, the LIMIT of a right operand like a LIMIT of the
  whole, and a join nested in the second item of a FROM list like a join with the first item.
\<close>

theorem grouping_lost:
  "generate_sql d (SetOp a (SetOp b c op2 q2) op1 q1) =
     generate_sql d (SetOp (SetOp a b op1 q1) c op2 q2) \<and>
   generate_sql d (SetOp a (Limit b l f) op1 q1) = generate_sql d (Limit (SetOp a b op1 q1) l f) \<and>
   generate_from_fragment d (Join (Scan t al g) (Join b c op lk rk) (CrossJoin NoConstraint) [] []) =
     generate_from_fragment d (Join (Join (Scan t al g) b (CrossJoin NoConstraint) [] []) c op lk rk)"
  by (simp add: join_text_constraint split: option.split)

end
