(* ===== verification/Plan_Graph.thy ===== *)
theory Plan_Graph
  imports Ldp_Types
begin

text \<open>
  The stage graph of a plan: what it means to be a well-formed directed acyclic graph, the
  in-degree bookkeeping that \<open>topological_order\<close> and the coordinator's level computation
  share, and the correctness of \<open>topological_order\<close> (Kahn's algorithm).
\<close>

section \<open>The graph of a plan\<close>

definition stage_ids :: "ldp_plan \<Rightarrow> stage_id set" where
  "stage_ids p = stage_id ` set (stages p)"

definition edge_rel :: "ldp_plan \<Rightarrow> (stage_id \<times> stage_id) set" where
  "edge_rel p = (\<lambda>e. (from_stage e, to_stage e)) ` set (edges p)"

text \<open>Stage identifiers are unique, edges join stages of the plan, and there is no cycle.\<close>

definition plan_dag :: "ldp_plan \<Rightarrow> bool" where
  "plan_dag p \<longleftrightarrow> distinct (map stage_id (stages p)) \<and>
     edge_rel p \<subseteq> stage_ids p \<times> stage_ids p \<and> acyclic (edge_rel p)"

lemma finite_edge_rel [simp]: "finite (edge_rel p)"
  by (simp add: edge_rel_def)

text \<open>A ranking of the stages that every edge increases rules out cycles.\<close>

lemma acyclic_by_rank:
  assumes "\<And>a b. (a, b) \<in> r \<Longrightarrow> f a < (f b :: nat)"
  shows "acyclic r"
proof (rule acyclic_subset)
  show "acyclic (measure f)" by (rule wf_acyclic) simp
  show "r \<subseteq> measure f" using assms by auto
qed

lemma stage_ids_plan: "stage_ids p = set (map stage_id (stages p))"
  by (simp add: stage_ids_def)

section \<open>Unresolved dependencies\<close>

text \<open>The number of edges into a stage whose source is not yet done, and those from one stage.\<close>

definition pending :: "exchange_edge list \<Rightarrow> stage_id set \<Rightarrow> stage_id \<Rightarrow> nat" where
  "pending es done s = length (filter (\<lambda>e. to_stage e = s \<and> from_stage e \<notin> done) es)"

definition edges_between :: "exchange_edge list \<Rightarrow> stage_id \<Rightarrow> stage_id \<Rightarrow> nat" where
  "edges_between es s d = length (filter (\<lambda>e. to_stage e = d \<and> from_stage e = s) es)"

lemma pending_0_iff: "pending es done s = 0 \<longleftrightarrow> (\<forall>e\<in>set es. to_stage e = s \<longrightarrow> from_stage e \<in> done)"
  by (auto simp: pending_def filter_empty_conv)

lemma pending_insert:
  "s \<notin> done \<Longrightarrow> pending es done d = pending es (insert s done) d + edges_between es s d"
  by (induction es) (auto simp: pending_def edges_between_def)

lemma edges_between_pos: "0 < edges_between es s d \<longleftrightarrow> (\<exists>e\<in>set es. from_stage e = s \<and> to_stage e = d)"
  by (auto simp: edges_between_def filter_empty_conv)

lemma count_downstream: "count_list (downstream_stages p s) d = edges_between (edges p) s d"
  by (simp add: downstream_stages_def edges_between_def count_list_eq_length_filter filter_map
      o_def conj_commute eq_commute)

lemma length_upstream: "length (upstream_stages p s) = pending (edges p) {} s"
  by (simp add: upstream_stages_def pending_def)

section \<open>Releasing the dependents of a stage\<close>

lemma topo_release_deg:
  "fst (topo_release vis ds (deg, q)) d = map_option (\<lambda>n. n - count_list ds d) (deg d)"
proof (induction ds arbitrary: deg q)
  case (Cons x ds)
  show ?case
  proof (cases "deg x")
    case None
    with Cons show ?thesis by (cases "x = d") auto
  next
    case (Some n)
    with Cons show ?thesis by (cases "x = d") (auto simp: fun_upd_def)
  qed
qed (simp add: option.map_id0 id_def [symmetric])

lemma topo_release_enqueues:
  assumes "\<And>d n. d \<in> set ds \<Longrightarrow> deg d = Some n \<Longrightarrow> count_list ds d \<le> n"
    and "set ds \<inter> vis = {}"
  shows "set (snd (topo_release vis ds (deg, q))) =
    set q \<union> {d \<in> set ds. deg d = Some (count_list ds d)}"
  using assms
proof (induction ds arbitrary: deg q)
  case (Cons x ds)
  show ?case
  proof (cases "deg x")
    case None
    from Cons.prems(1) have "\<And>d n. d \<in> set ds \<Longrightarrow> deg d = Some n \<Longrightarrow> count_list ds d \<le> n"
      by (metis count_list.simps(2) list.set_intros(2) add_leD1 Suc_leD Suc_eq_plus1)
    with Cons.IH [of deg q] Cons.prems(2) None show ?thesis by auto
  next
    case (Some n)
    from Cons.prems(1) [of x n] Some have n: "Suc (count_list ds x) \<le> n" by simp
    define deg' where "deg' = deg(x \<mapsto> n - 1)"
    define q' where "q' = (if n - 1 = 0 \<and> x \<notin> vis then q @ [x] else q)"
    have "count_list ds d \<le> m" if "d \<in> set ds" "deg' d = Some m" for d m
    proof (cases "d = x")
      case True
      with that n show ?thesis by (auto simp: deg'_def)
    next
      case False
      with that Cons.prems(1) [of d m] show ?thesis by (auto simp: deg'_def)
    qed
    moreover have "set ds \<inter> vis = {}" "x \<notin> vis" using Cons.prems(2) by auto
    ultimately have "set (snd (topo_release vis ds (deg', q'))) =
        set q' \<union> {d \<in> set ds. deg' d = Some (count_list ds d)}"
      by (intro Cons.IH) auto
    moreover have "topo_release vis (x # ds) (deg, q) = topo_release vis ds (deg', q')"
      using Some by (simp add: deg'_def q'_def)
    moreover have "set q' = (if n = 1 then insert x (set q) else set q)"
      using n \<open>x \<notin> vis\<close> by (auto simp: q'_def)
    moreover have "x \<notin> set ds \<Longrightarrow> count_list ds x = 0" by simp
    ultimately show ?thesis
      using Some n by (auto simp: deg'_def split: if_splits)
  qed
qed simp

section \<open>Kahn's algorithm\<close>

text \<open>
  The loop invariant of \<open>topological_order\<close>: the in-degree table counts the edges from
  stages that are not in the result, the queue and the result together are exactly the
  stages without such edges, and the result lists every stage after its dependencies.
\<close>

definition deps_before :: "exchange_edge list \<Rightarrow> stage_id list \<Rightarrow> bool" where
  "deps_before es r \<longleftrightarrow>
     (\<forall>i < length r. \<forall>e \<in> set es. to_stage e = r ! i \<longrightarrow> from_stage e \<in> set (take i r))"

definition topo_inv ::
  "ldp_plan \<Rightarrow> stage_id list \<Rightarrow> stage_id list \<Rightarrow> (stage_id \<rightharpoonup> nat) \<Rightarrow> bool" where
  "topo_inv p queue result deg \<longleftrightarrow>
     distinct result \<and>
     (\<forall>s. deg s = (if s \<in> stage_ids p then Some (pending (edges p) (set result) s) else None)) \<and>
     set queue \<union> set result = {s \<in> stage_ids p. pending (edges p) (set result) s = 0} \<and>
     deps_before (edges p) result"

lemma deps_before_snoc:
  assumes "deps_before es r" and "pending es (set r) s = 0"
  shows "deps_before es (r @ [s])"
  using assms by (auto simp: deps_before_def pending_0_iff nth_append less_Suc_eq)

lemma map_of_keyed:
  "map_of (map (\<lambda>x. (k x, f (k x))) xs) s = (if s \<in> k ` set xs then Some (f s) else None)"
  by (induction xs) auto

lemma initial_in_degree_eq:
  "initial_in_degree p s = (if s \<in> stage_ids p then Some (pending (edges p) {} s) else None)"
  using map_of_keyed [of stage_id "pending (edges p) {}" "stages p" s]
  by (simp add: initial_in_degree_def length_upstream stage_ids_def)

lemma topo_inv_init:
  "topo_inv p (map stage_id (filter (\<lambda>s. initial_in_degree p (stage_id s) = Some 0) (stages p)))
    [] (initial_in_degree p)"
  by (auto simp: topo_inv_def deps_before_def initial_in_degree_eq stage_ids_def)

lemma topo_inv_skip:
  "topo_inv p (s # queue) result deg \<Longrightarrow> s \<in> set result \<Longrightarrow> topo_inv p queue result deg"
  by (auto simp: topo_inv_def)

lemma topo_inv_step:
  assumes inv: "topo_inv p (s # queue) result deg" and s: "s \<notin> set result"
    and edges: "edge_rel p \<subseteq> stage_ids p \<times> stage_ids p"
    and rel: "topo_release (set (result @ [s])) (downstream_stages p s) (deg, queue) = (deg', queue')"
  shows "topo_inv p queue' (result @ [s]) deg'"
proof -
  let ?ds = "downstream_stages p s" and ?done = "set result" and ?done' = "insert s (set result)"
  from inv have s0: "s \<in> stage_ids p" "pending (edges p) ?done s = 0"
    and deg: "\<And>d. deg d = (if d \<in> stage_ids p then Some (pending (edges p) ?done d) else None)"
    and ready: "insert s (set queue) \<union> ?done = {d \<in> stage_ids p. pending (edges p) ?done d = 0}"
    by (auto simp: topo_inv_def)
  have split: "pending (edges p) ?done d = pending (edges p) ?done' d + count_list ?ds d" for d
    using pending_insert [OF s] by (simp add: count_downstream)
  have ds: "d \<in> set ?ds \<longleftrightarrow> 0 < count_list ?ds d" for d
    using count_list_0_iff [of ?ds d] by auto
  have ds_ids: "d \<in> stage_ids p" if "d \<in> set ?ds" for d
    using that edges by (auto simp: downstream_stages_def edge_rel_def)
  have disj: "set ?ds \<inter> ?done' = {}"
    using split ds s0 ready by (auto simp: set_eq_iff) (metis add_is_0 less_numeral_extra(3))+
  have q': "set queue' = set queue \<union> {d \<in> set ?ds. deg d = Some (count_list ?ds d)}"
  proof -
    have "count_list ?ds d \<le> n" if "d \<in> set ?ds" "deg d = Some n" for d n
      using that split [of d] by (simp add: deg split: if_splits)
    moreover have "set ?ds \<inter> set (result @ [s]) = {}" using disj by auto
    ultimately have "set (snd (topo_release (set (result @ [s])) ?ds (deg, queue))) =
        set queue \<union> {d \<in> set ?ds. deg d = Some (count_list ?ds d)}"
      by (rule topo_release_enqueues)
    then show ?thesis unfolding rel by simp
  qed
  have deg': "deg' d = (if d \<in> stage_ids p then Some (pending (edges p) ?done' d) else None)" for d
    using topo_release_deg [of "set (result @ [s])" ?ds deg queue d] rel
    by (simp add: deg split)
  have "set queue' \<union> ?done' = {d \<in> stage_ids p. pending (edges p) ?done' d = 0}"
  proof (intro set_eqI)
    fix d
    show "d \<in> set queue' \<union> ?done' \<longleftrightarrow> d \<in> {d \<in> stage_ids p. pending (edges p) ?done' d = 0}"
      using eqset_imp_iff [OF ready, of d] split [of d] ds [of d] ds_ids [of d]
      by (cases "d \<in> set ?ds") (auto simp: q' deg)
  qed
  with inv s deg' deps_before_snoc [OF _ s0(2)] show ?thesis
    by (simp add: topo_inv_def)
qed

lemma topo_loop_final:
  "edge_rel p \<subseteq> stage_ids p \<times> stage_ids p \<Longrightarrow> topo_inv p queue result deg \<Longrightarrow>
    \<exists>deg'. topo_inv p [] (topo_loop p queue result deg) deg'"
proof (induction p queue result deg rule: topo_loop.induct)
  case (2 p s queue result deg)
  show ?case
  proof (cases "s \<in> set result")
    case True
    with 2 topo_inv_skip show ?thesis by simp
  next
    case False
    obtain deg' queue' where rel:
      "topo_release (set (result @ [s])) (downstream_stages p s) (deg, queue) = (deg', queue')"
      by (metis surj_pair)
    from topo_inv_step [OF 2(4) False 2(3) rel] 2(2) [OF False refl rel [symmetric] 2(3)]
    show ?thesis using False rel by simp
  qed
qed auto

lemma topological_order_final:
  assumes "edge_rel p \<subseteq> stage_ids p \<times> stage_ids p"
  obtains deg where "topo_inv p [] (topological_order p) deg"
  using topo_loop_final [OF assms topo_inv_init] by (auto simp: topological_order_def Let_def)

text \<open>In an acyclic plan a set of stages that is closed under readiness is everything.\<close>

lemma ready_closed_complete:
  assumes edges: "edge_rel p \<subseteq> stage_ids p \<times> stage_ids p" and acyclic: "acyclic (edge_rel p)"
    and closed: "\<And>s. s \<in> stage_ids p \<Longrightarrow> pending (edges p) R s = 0 \<Longrightarrow> s \<in> R"
  shows "stage_ids p \<subseteq> R"
proof
  fix s show "s \<in> stage_ids p \<Longrightarrow> s \<in> R"
    using finite_acyclic_wf [OF finite_edge_rel acyclic]
  proof (induction s rule: wf_induct_rule)
    case (less s)
    have "from_stage e \<in> R" if "e \<in> set (edges p)" "to_stage e = s" for e
    proof -
      from that have "(from_stage e, s) \<in> edge_rel p" by (auto simp: edge_rel_def)
      moreover from this edges have "from_stage e \<in> stage_ids p" by auto
      ultimately show ?thesis using less.IH by blast
    qed
    then show ?case using closed [OF less.prems] by (auto simp: pending_0_iff)
  qed
qed

lemma topological_order_complete:
  assumes "edge_rel p \<subseteq> stage_ids p \<times> stage_ids p" and "acyclic (edge_rel p)"
  shows "set (topological_order p) = stage_ids p"
proof -
  from assms(1) obtain deg where "topo_inv p [] (topological_order p) deg"
    by (rule topological_order_final)
  then have inv: "set (topological_order p) =
      {s \<in> stage_ids p. pending (edges p) (set (topological_order p)) s = 0}"
    by (simp add: topo_inv_def)
  then have "stage_ids p \<subseteq> set (topological_order p)"
    by (intro ready_closed_complete [OF assms]) (use inv in blast)
  with inv show ?thesis by blast
qed

text \<open>A list that puts dependencies first and holds every stage is a ranking of the edges.\<close>

lemma deps_before_acyclic:
  assumes "edge_rel p \<subseteq> set r \<times> set r" and "distinct r" and "deps_before (edges p) r"
  shows "acyclic (edge_rel p)"
proof (rule acyclic_by_rank [of _ "\<lambda>s. THE i. i < length r \<and> r ! i = s"])
  fix a b assume ab: "(a, b) \<in> edge_rel p"
  then have "b \<in> set r" using assms(1) by auto
  then obtain i where i: "i < length r" "r ! i = b" by (auto simp: in_set_conv_nth)
  with ab assms(3) have "a \<in> set (take i r)" by (auto simp: deps_before_def edge_rel_def)
  then obtain j where j: "j < i" "r ! j = a" using i by (auto simp: in_set_conv_nth)
  have pos: "(THE k. k < length r \<and> r ! k = r ! n) = n" if "n < length r" for n
    using that assms(2) by (auto simp: nth_eq_iff_index_eq)
  show "(THE i. i < length r \<and> r ! i = a) < (THE i. i < length r \<and> r ! i = b)"
    using pos [of i] pos [of j] i j by auto
qed

section \<open>Properties\<close>

text \<open>
  C13. \<open>LdpPlan::topological_order\<close> on any plan whose edges join stages of the plan: the
  result has no duplicates, lists only stages of the plan, puts every stage after all the
  stages it reads from, and holds every stage exactly when the plan has no cycle.
\<close>

theorem topological_order_correct:
  assumes "\<forall>e \<in> set (edges p). from_stage e \<in> stage_id ` set (stages p) \<and>
    to_stage e \<in> stage_id ` set (stages p)"
  shows "distinct (topological_order p) \<and>
    set (topological_order p) \<subseteq> stage_id ` set (stages p) \<and>
    (\<forall>i < length (topological_order p). \<forall>e \<in> set (edges p).
      to_stage e = topological_order p ! i \<longrightarrow>
      from_stage e \<in> set (take i (topological_order p))) \<and>
    (set (topological_order p) = stage_id ` set (stages p) \<longleftrightarrow> acyclic (edge_rel p))"
proof -
  let ?r = "topological_order p"
  have edges: "edge_rel p \<subseteq> stage_ids p \<times> stage_ids p"
    using assms by (auto simp: edge_rel_def stage_ids_def)
  then obtain deg where inv: "topo_inv p [] ?r deg" by (rule topological_order_final)
  have "set ?r = stage_ids p \<longleftrightarrow> acyclic (edge_rel p)"
  proof
    assume "set ?r = stage_ids p"
    with edges inv show "acyclic (edge_rel p)"
      by (intro deps_before_acyclic [of p ?r]) (simp_all add: topo_inv_def)
  qed (rule topological_order_complete [OF edges])
  with inv show ?thesis by (auto simp: topo_inv_def deps_before_def stage_ids_def)
qed

definition sample_stage :: "u32 \<Rightarrow> stage" where
  "sample_stage n = stage_new (StageId n) ''SELECT 1''"

definition sample_edge :: "u32 \<Rightarrow> u32 \<Rightarrow> u32 \<Rightarrow> exchange_edge" where
  "sample_edge i a b = \<lparr>edge_id = ExchangeId i, kind = Gather (WorkerId ''w1''),
     from_stage = StageId a, to_stage = StageId b, partition_to_worker = []\<rparr>"

definition sample_plan :: ldp_plan where
  "sample_plan = \<lparr>query_id = QueryId ''q'', coordinator = WorkerId ''w1'',
     stages = map sample_stage [2, 0, 1], edges = [sample_edge 0 0 2, sample_edge 1 1 2],
     root_stage = StageId 2\<rparr>"

theorem topological_order_correct_witness:
  "topological_order sample_plan = [StageId 0, StageId 1, StageId 2] \<and>
   from_stage (sample_edge 0 0 2) \<in> set (take 2 (topological_order sample_plan))"
proof -
  have order: "topological_order sample_plan = [StageId 0, StageId 1, StageId 2]"
    by (simp add: topological_order_def initial_in_degree_def upstream_stages_def
        downstream_stages_def sample_plan_def sample_edge_def sample_stage_def stage_new_def)
  moreover have "\<forall>e \<in> set (edges sample_plan). from_stage e \<in> stage_id ` set (stages sample_plan) \<and>
    to_stage e \<in> stage_id ` set (stages sample_plan)"
    by (simp add: sample_plan_def sample_edge_def sample_stage_def stage_new_def)
  from topological_order_correct [OF this]
  have "from_stage (sample_edge 0 0 2) \<in> set (take 2 (topological_order sample_plan))"
    unfolding order by (auto simp: sample_plan_def sample_edge_def)
  ultimately show ?thesis by blast
qed

end
