(* ===== verification/Stage_Cut.thy ===== *)
theory Stage_Cut
  imports Annotate Stage_Sql Plan_Graph
begin

text \<open>
  \<^verbatim>\<open>ldp/planner/cut.rs\<close>: cutting an annotated plan into stages at its exchanges. An
  indexing operation that is out of range panics in the source; the model returns
  \<open>None\<close> there, so a value \<open>Some\<close> says that the code runs through.
\<close>

section \<open>Columns of ORDER BY clauses\<close>

fun extract_all_columns_from_expr :: "expr \<Rightarrow> expr list" where
  "extract_all_columns_from_expr (Identifier i) = [Identifier i]"
| "extract_all_columns_from_expr (CompoundIdentifier parts) =
     (if parts \<noteq> [] then [CompoundIdentifier parts] else [])"
| "extract_all_columns_from_expr (BinaryOp l op r) =
     extract_all_columns_from_expr l @ extract_all_columns_from_expr r"
| "extract_all_columns_from_expr (UnaryOp op e) = extract_all_columns_from_expr e"
| "extract_all_columns_from_expr (Nested e) = extract_all_columns_from_expr e"
| "extract_all_columns_from_expr (Case operand conditions else_result) =
     (case operand of Some e \<Rightarrow> extract_all_columns_from_expr e | None \<Rightarrow> []) @
     concat (map (\<lambda>cw. extract_all_columns_from_expr (when_condition cw) @
       extract_all_columns_from_expr (when_result cw)) conditions) @
     (case else_result of Some e \<Rightarrow> extract_all_columns_from_expr e | None \<Rightarrow> [])"
| "extract_all_columns_from_expr (Function name args over rest) =
     (case args of
        ArgList xs r \<Rightarrow> concat (map (\<lambda>arg. case arg of
            UnnamedArg (ArgExpr e) \<Rightarrow> extract_all_columns_from_expr e | _ \<Rightarrow> []) xs)
      | OtherArguments r \<Rightarrow> [])"
| "extract_all_columns_from_expr (Cast e t r) = extract_all_columns_from_expr e"
| "extract_all_columns_from_expr (InList e xs negated) =
     extract_all_columns_from_expr e @ concat (map extract_all_columns_from_expr xs)"
| "extract_all_columns_from_expr _ = []"

fun extract_column_from_expr :: "expr \<Rightarrow> expr list" where
  "extract_column_from_expr (Identifier i) = [Identifier i]"
| "extract_column_from_expr (BinaryOp l op r) =
     extract_column_from_expr l @ extract_column_from_expr r"
| "extract_column_from_expr (UnaryOp op e) = extract_column_from_expr e"
| "extract_column_from_expr (Nested e) = extract_column_from_expr e"
| "extract_column_from_expr (CompoundIdentifier parts) =
     (if parts \<noteq> [] then [CompoundIdentifier parts]
      else extract_all_columns_from_expr (CompoundIdentifier parts))"
| "extract_column_from_expr e = extract_all_columns_from_expr e"

definition extract_order_by_columns :: "order_by_expr list \<Rightarrow> expr list" where
  "extract_order_by_columns order_by = concat (map (\<lambda>o'. extract_column_from_expr (ob_expr o')) order_by)"

fun get_column_alias :: "expr \<Rightarrow> string" where
  "get_column_alias (Identifier i) = ident_value i"
| "get_column_alias (CompoundIdentifier parts) =
     (if parts \<noteq> [] then ident_value (last parts) else ''order_by_col'')"
| "get_column_alias _ = ''order_by_col''"

fun get_output_column_name :: "select_item \<Rightarrow> string option" where
  "get_output_column_name (ExprWithAlias e alias) = Some (ident_value alias)"
| "get_output_column_name (UnnamedExpr (Identifier i)) = Some (ident_value i)"
| "get_output_column_name (UnnamedExpr (CompoundIdentifier parts)) =
     (if parts \<noteq> [] then Some (ident_value (last parts)) else None)"
| "get_output_column_name _ = None"

definition item_matches_column :: "select_item \<Rightarrow> string \<Rightarrow> bool" where
  "item_matches_column item col_str =
     (case get_output_column_name item of
        Some name \<Rightarrow> eq_ignore_ascii_case name (last (split_char CHR ''.'' col_str))
      | None \<Rightarrow> False)"

section \<open>Carrying the columns through an exchange\<close>

text \<open>The loops that extend a select list by the columns it does not have yet.\<close>

fun add_to_project :: "expr list \<Rightarrow> select_item list \<Rightarrow> select_item list" where
  "add_to_project [] items = items"
| "add_to_project (col # cols) items =
     (let alias = get_column_alias col;
          already_exists = list_ex (\<lambda>item. case get_output_column_name item of
            Some name \<Rightarrow> eq_ignore_ascii_case name alias | None \<Rightarrow> False) items
      in add_to_project cols
           (if already_exists then items else items @ [ExprWithAlias col (ident_new alias)]))"

fun add_to_aggregate :: "sql_display \<Rightarrow> expr list \<Rightarrow> select_item list \<Rightarrow> select_item list" where
  "add_to_aggregate d [] items = items"
| "add_to_aggregate d (col # cols) items =
     add_to_aggregate d cols
       (if list_ex (\<lambda>item. str_contains (fmt_item d item) (fmt_expr d col)) items then items
        else items @ [UnnamedExpr col])"

fun add_to_window :: "sql_display \<Rightarrow> expr list \<Rightarrow> select_item list \<Rightarrow> select_item list" where
  "add_to_window d [] items = items"
| "add_to_window d (col # cols) items =
     add_to_window d cols
       (if list_ex (\<lambda>item. item_matches_column item (fmt_expr d col)) items then items
        else items @ [ExprWithAlias col (ident_new (get_column_alias col))])"

fun add_columns_to_plan :: "sql_display \<Rightarrow> logical_plan \<Rightarrow> expr list \<Rightarrow> logical_plan" where
  "add_columns_to_plan d plan [] = plan"
| "add_columns_to_plan d (Project p items) cols = Project p (add_to_project cols items)"
| "add_columns_to_plan d (Aggregate p g items h ks) cols =
     Aggregate p g (add_to_aggregate d cols items) h ks"
| "add_columns_to_plan d (Filter p e) cols = Filter (add_columns_to_plan d p cols) e"
| "add_columns_to_plan d (Join l r op lk rk) cols =
     Project (Join l r op lk rk) (Wildcard [] #
       map (\<lambda>col. ExprWithAlias col (ident_new (get_column_alias col))) cols)"
| "add_columns_to_plan d (Sort p os) cols = Sort (add_columns_to_plan d p cols) os"
| "add_columns_to_plan d (Limit p l f) cols = Limit (add_columns_to_plan d p cols) l f"
| "add_columns_to_plan d (Window p items ks) cols =
     Window (add_columns_to_plan d p cols) (add_to_window d cols items) ks"
| "add_columns_to_plan d (SubqueryScan p a) cols = SubqueryScan (add_columns_to_plan d p cols) a"
| "add_columns_to_plan d (Scan t a f) cols = Project (Scan t a f) (map UnnamedExpr cols)"
| "add_columns_to_plan d (SetOp l r op q) cols = Project (SetOp l r op q) (map UnnamedExpr cols)"
| "add_columns_to_plan d (ExchangeRead i a) cols =
     Project (ExchangeRead i a) (map UnnamedExpr cols)"

fun extract_inner_projection_items :: "logical_plan \<Rightarrow> select_item list option" where
  "extract_inner_projection_items (Project p items) = Some items"
| "extract_inner_projection_items (Limit p l f) = extract_inner_projection_items p"
| "extract_inner_projection_items (Sort p os) = extract_inner_projection_items p"
| "extract_inner_projection_items (Window p items ks) = Some items"
| "extract_inner_projection_items _ = None"

fun has_exchange_in_descendants :: "annotated_plan \<Rightarrow> bool" where
  "has_exchange_in_descendants (AnnotatedPlan p a ex pre cs) =
     (if ex \<noteq> None then True else list_ex has_exchange_in_descendants cs)"

definition add_columns_to_plan_safe ::
  "sql_display \<Rightarrow> logical_plan \<Rightarrow> expr list \<Rightarrow> logical_plan option" where
  "add_columns_to_plan_safe d plan cols =
     (if cols = [] then None
      else case plan of
        Project p items \<Rightarrow> Some (add_columns_to_plan d plan cols)
      | Aggregate p g items h ks \<Rightarrow> Some (add_columns_to_plan d plan cols)
      | Window p items ks \<Rightarrow> Some (add_columns_to_plan d plan cols)
      | _ \<Rightarrow> None)"

fun add_order_by_columns_in_subtree :: "sql_display \<Rightarrow> expr list \<Rightarrow> annotated_plan \<Rightarrow> annotated_plan" where
  "add_order_by_columns_in_subtree d cols (AnnotatedPlan p a ex pre cs) =
     (case add_columns_to_plan_safe d p cols of
        Some p' \<Rightarrow> AnnotatedPlan p' a ex pre cs
      | None \<Rightarrow> AnnotatedPlan p a ex pre
          (map (\<lambda>c. if exchange_before c = None then add_order_by_columns_in_subtree d cols c else c) cs))"

definition with_plan :: "annotated_plan \<Rightarrow> logical_plan \<Rightarrow> annotated_plan" where
  "with_plan n p = AnnotatedPlan p (ap_annotation n) (exchange_before n)
     (pre_exchange_distribution n) (ap_children n)"

fun add_order_by_columns_to_exchange_children ::
  "sql_display \<Rightarrow> expr list \<Rightarrow> annotated_plan \<Rightarrow> annotated_plan" where
  "add_order_by_columns_to_exchange_children d cols (AnnotatedPlan p a ex pre cs) =
     AnnotatedPlan (case add_columns_to_plan_safe d p cols of Some p' \<Rightarrow> p' | None \<Rightarrow> p) a ex pre
       (map (\<lambda>c.
          if exchange_before c \<noteq> None
          then (case add_columns_to_plan_safe d (ap_plan c) cols of
                  Some p' \<Rightarrow> with_plan c p'
                | None \<Rightarrow> add_order_by_columns_in_subtree d cols c)
          else add_order_by_columns_to_exchange_children d cols c) cs)"

section \<open>Plans with placeholders\<close>

fun reconstruct_plan_with_children :: "logical_plan \<Rightarrow> logical_plan list \<Rightarrow> logical_plan option" where
  "reconstruct_plan_with_children (Scan t a f) cs = Some (Scan t a f)"
| "reconstruct_plan_with_children (ExchangeRead i a) cs = Some (ExchangeRead i a)"
| "reconstruct_plan_with_children (Filter p e) cs =
     (case cs of c # _ \<Rightarrow> Some (Filter c e) | _ \<Rightarrow> None)"
| "reconstruct_plan_with_children (Project p items) cs =
     (case cs of c # _ \<Rightarrow> Some (Project c items) | _ \<Rightarrow> None)"
| "reconstruct_plan_with_children (Aggregate p g items h ks) cs =
     (case cs of c # _ \<Rightarrow> Some (Aggregate c g items h ks) | _ \<Rightarrow> None)"
| "reconstruct_plan_with_children (Sort p os) cs =
     (case cs of c # _ \<Rightarrow> Some (Sort c os) | _ \<Rightarrow> None)"
| "reconstruct_plan_with_children (Limit p l f) cs =
     (case cs of c # _ \<Rightarrow> Some (Limit c l f) | _ \<Rightarrow> None)"
| "reconstruct_plan_with_children (Window p items ks) cs =
     (case cs of c # _ \<Rightarrow> Some (Window c items ks) | _ \<Rightarrow> None)"
| "reconstruct_plan_with_children (SubqueryScan p a) cs =
     (case cs of c # _ \<Rightarrow> Some (SubqueryScan c a) | _ \<Rightarrow> None)"
| "reconstruct_plan_with_children (Join l r op lk rk) cs =
     (case cs of c # c' # _ \<Rightarrow> Some (Join c c' op lk rk) | _ \<Rightarrow> None)"
| "reconstruct_plan_with_children (SetOp l r op q) cs =
     (case cs of c # c' # _ \<Rightarrow> Some (SetOp c c' op q) | _ \<Rightarrow> None)"

fun is_purely_exchange_backed :: "logical_plan \<Rightarrow> bool" where
  "is_purely_exchange_backed (ExchangeRead i a) = True"
| "is_purely_exchange_backed (Scan t a f) = False"
| "is_purely_exchange_backed p = list_all is_purely_exchange_backed (plan_children p)"

fun collect_scan_names :: "logical_plan \<Rightarrow> string list" where
  "collect_scan_names (Scan t a f) = [t]"
| "collect_scan_names (ExchangeRead i a) = []"
| "collect_scan_names (SubqueryScan p a) =
     (if is_purely_exchange_backed p then [] else [ident_value (alias_name a)]) @ collect_scan_names p"
| "collect_scan_names p = concat (map collect_scan_names (plan_children p))"

definition filter_ctes_for_stage :: "logical_plan \<Rightarrow> plan_context \<Rightarrow> plan_context" where
  "filter_ctes_for_stage plan context =
     (if cte_definitions context = [] then plan_context_default
      else if list_ex (\<lambda>cte. list_ex (\<lambda>name.
          eq_ignore_ascii_case name (ident_value (alias_name (cte_alias cte))))
          (collect_scan_names plan)) (cte_definitions context)
      then context else plan_context_default)"

fun collect_exchange_reads :: "logical_plan \<Rightarrow> (u32 \<times> string) list" where
  "collect_exchange_reads (ExchangeRead i a) = [(i, a)]"
| "collect_exchange_reads (Scan t a f) = []"
| "collect_exchange_reads p = concat (map collect_exchange_reads (plan_children p))"

fun derive_relation_alias :: "logical_plan \<Rightarrow> table_alias option" where
  "derive_relation_alias (Scan t a f) = (case a of
     Some alias \<Rightarrow> Some alias
   | None \<Rightarrow> Some \<lparr>alias_name = ident_new t, alias_columns = [], alias_explicit = True\<rparr>)"
| "derive_relation_alias (SubqueryScan p a) = Some a"
| "derive_relation_alias _ = None"

fun annotated_plan_has_exchange :: "annotated_plan \<Rightarrow> bool" where
  "annotated_plan_has_exchange (AnnotatedPlan p a ex pre cs) =
     (if ex \<noteq> None then True else list_ex annotated_plan_has_exchange cs)"

fun has_local_scan :: "logical_plan \<Rightarrow> bool" where
  "has_local_scan (Scan t a f) = True"
| "has_local_scan (ExchangeRead i a) = False"
| "has_local_scan p = list_ex has_local_scan (plan_children p)"

definition determine_stage_output :: "annotated_plan \<Rightarrow> stage_output" where
  "determine_stage_output n = (case exchange_before n of
     Some (HashPartition refs k) \<Rightarrow> Partitioned k refs
   | _ \<Rightarrow> StreamOutput)"

section \<open>Cutting\<close>

record cut_context =
  next_stage_id :: stage_id
  next_exchange_id :: exchange_id
  stage_annotations :: "stage_id \<rightharpoonup> distribution_annotation"
  cut_plan_context :: plan_context

definition cut_context_new :: "plan_context \<Rightarrow> cut_context" where
  "cut_context_new pc = \<lparr>next_stage_id = StageId 0, next_exchange_id = ExchangeId 0,
     stage_annotations = Map.empty, cut_plan_context = pc\<rparr>"

definition alloc_stage_id :: "cut_context \<Rightarrow> stage_id \<times> cut_context" where
  "alloc_stage_id ctx =
     (let (i, next) = stage_alloc_next (next_stage_id ctx) in (i, ctx\<lparr>next_stage_id := next\<rparr>))"

definition alloc_exchange_id :: "cut_context \<Rightarrow> exchange_id \<times> cut_context" where
  "alloc_exchange_id ctx =
     (let (i, next) = exchange_alloc_next (next_exchange_id ctx) in (i, ctx\<lparr>next_exchange_id := next\<rparr>))"

type_synonym pending_edge = "exchange_id \<times> stage_id \<times> exchange"

fun sort_order_by_columns :: "logical_plan \<Rightarrow> expr list" where
  "sort_order_by_columns (Sort p os) = extract_order_by_columns os"
| "sort_order_by_columns (Limit (Sort p os) l f) = extract_order_by_columns os"
| "sort_order_by_columns _ = []"

text \<open>The placeholder that stands for an exchanged child in the plan of its parent.\<close>

definition exchange_placeholder :: "exchange_id \<Rightarrow> logical_plan \<Rightarrow> logical_plan" where
  "exchange_placeholder x child =
     (let read = ExchangeRead (exchange_num x) (''__exchange_'' @ exchange_display x)
      in case derive_relation_alias child of
           Some alias \<Rightarrow> SubqueryScan read alias
         | None \<Rightarrow> read)"

text \<open>
  When ORDER BY columns were added below, the stage is wrapped in a projection to the
  original output columns, provided each of them has a name.
\<close>

definition restore_output_columns :: "expr list \<Rightarrow> logical_plan \<Rightarrow> logical_plan \<Rightarrow> logical_plan" where
  "restore_output_columns cols original stage_plan =
     (if cols = [] then stage_plan
      else case extract_inner_projection_items original of
             None \<Rightarrow> stage_plan
           | Some items \<Rightarrow>
               let wrapper = map (\<lambda>name. UnnamedExpr (Identifier (ident_new name)))
                               (List.map_filter get_output_column_name items)
               in if length wrapper = length items then Project stage_plan wrapper else stage_plan)"

definition stage_inputs :: "logical_plan \<Rightarrow> stage_input list" where
  "stage_inputs p =
     map (\<lambda>(i, alias). ExchangeInput (ExchangeId i) alias) (collect_exchange_reads p) @
     (if has_local_scan p then [LocalCatalog] else [])"

definition stage_annotation :: "annotated_plan \<Rightarrow> distribution_annotation" where
  "stage_annotation n = (case pre_exchange_distribution n of
     Some d \<Rightarrow> (ap_annotation n)\<lparr>distribution := d\<rparr>
   | None \<Rightarrow> ap_annotation n)"

text \<open>The second half of \<open>cut_recursive\<close>: from the plan of the stage to the stage itself.\<close>

definition finish_stage ::
  "sql_display \<Rightarrow> annotated_plan \<Rightarrow> logical_plan \<Rightarrow> pending_edge list \<Rightarrow> ldp_plan \<Rightarrow> cut_context \<Rightarrow>
   stage_id \<times> ldp_plan \<times> cut_context" where
  "finish_stage d n stage_plan pending_edges plan ctx =
     (let context = filter_ctes_for_stage stage_plan (cut_plan_context ctx);
          sql = generate_stage_sql d stage_plan context;
          (i, ctx) = alloc_stage_id ctx;
          new_edges = map (\<lambda>(x, from, k). \<lparr>edge_id = x, kind = k, from_stage = from, to_stage = i,
            partition_to_worker = []\<rparr>) pending_edges;
          new_stage = \<lparr>stage_id = i, target_workers = [], inputs = stage_inputs stage_plan,
            stage_out = determine_stage_output n, stage_sql = sql, limits = stage_limits_default\<rparr>
      in (i,
          plan\<lparr>edges := edges plan @ new_edges, stages := stages plan @ [new_stage]\<rparr>,
          ctx\<lparr>stage_annotations := (stage_annotations ctx)(i \<mapsto> stage_annotation n)\<rparr>))"

fun tree_size :: "annotated_plan \<Rightarrow> nat" where
  "tree_size (AnnotatedPlan p a ex pre cs) = Suc (sum_list (map tree_size cs))"

definition push_columns_into_child ::
  "sql_display \<Rightarrow> expr list \<Rightarrow> annotated_plan \<Rightarrow> annotated_plan" where
  "push_columns_into_child d cols c =
     (if cols = [] then c
      else if exchange_before c \<noteq> None then with_plan c (add_columns_to_plan d (ap_plan c) cols)
      else if has_exchange_in_descendants c then add_order_by_columns_to_exchange_children d cols c
      else c)"

lemma tree_size_children [simp]:
  "Suc (2 * sum_list (map tree_size (ap_children n))) < 2 * tree_size n"
  by (cases n) simp

lemma tree_size_pos [simp]: "0 < tree_size n"
  by (cases n) simp

lemma tree_size_with_plan [simp]: "tree_size (with_plan n p) = tree_size n"
  by (cases n) (simp add: with_plan_def)

lemma tree_size_in_subtree [simp]:
  "tree_size (add_order_by_columns_in_subtree d cols n) = tree_size n"
  by (induction n rule: tree_size.induct)
     (auto split: option.splits intro!: arg_cong [where f = sum_list] map_cong)

lemma tree_size_to_exchange_children [simp]:
  "tree_size (add_order_by_columns_to_exchange_children d cols n) = tree_size n"
  by (induction n rule: tree_size.induct)
     (auto split: option.splits intro!: arg_cong [where f = sum_list] map_cong)

lemma tree_size_push_columns [simp]: "tree_size (push_columns_into_child d cols c) = tree_size c"
  by (simp add: push_columns_into_child_def)

text \<open>
  \<open>extract_stage_plan\<close> runs the same loop over the children as \<open>cut_recursive\<close>, without
  columns to add; both loops are \<open>cut_children\<close>. The edges stay pending until the stage
  that reads them has its number.
\<close>

function cut_recursive ::
  "sql_display \<Rightarrow> annotated_plan \<Rightarrow> ldp_plan \<Rightarrow> cut_context \<Rightarrow> (stage_id \<times> ldp_plan \<times> cut_context) option"
and extract_stage_plan ::
  "sql_display \<Rightarrow> annotated_plan \<Rightarrow> ldp_plan \<Rightarrow> cut_context \<Rightarrow>
   (logical_plan \<times> pending_edge list \<times> ldp_plan \<times> cut_context) option"
and cut_children ::
  "sql_display \<Rightarrow> expr list \<Rightarrow> annotated_plan list \<Rightarrow> ldp_plan \<Rightarrow> cut_context \<Rightarrow>
   (logical_plan list \<times> pending_edge list \<times> ldp_plan \<times> cut_context) option"
where
  "cut_recursive d n plan ctx =
     (let cols = sort_order_by_columns (ap_plan n)
      in Option.bind (cut_children d cols (ap_children n) plan ctx) (\<lambda>(kids, pend, plan, ctx).
         Option.bind (reconstruct_plan_with_children (ap_plan n) kids) (\<lambda>p.
           Some (finish_stage d n (restore_output_columns cols (ap_plan n) p) pend plan ctx))))"
| "extract_stage_plan d n plan ctx =
     (if ap_children n = [] then Some (ap_plan n, [], plan, ctx)
      else Option.bind (cut_children d [] (ap_children n) plan ctx) (\<lambda>(kids, pend, plan, ctx).
           Option.bind (reconstruct_plan_with_children (ap_plan n) kids) (\<lambda>p.
             Some (p, pend, plan, ctx))))"
| "cut_children d cols [] plan ctx = Some ([], [], plan, ctx)"
| "cut_children d cols (c # cs) plan ctx =
     (let c' = push_columns_into_child d cols c
      in case exchange_before c of
           Some ex \<Rightarrow>
             Option.bind (cut_recursive d c' plan ctx) (\<lambda>(from, plan, ctx).
               let (x, ctx) = alloc_exchange_id ctx
               in Option.bind (cut_children d cols cs plan ctx) (\<lambda>(kids, pend, plan, ctx).
                    Some (exchange_placeholder x (ap_plan c) # kids, (x, from, ex) # pend, plan, ctx)))
         | None \<Rightarrow>
             Option.bind (extract_stage_plan d c' plan ctx) (\<lambda>(p, child_edges, plan, ctx).
               Option.bind (cut_children d cols cs plan ctx) (\<lambda>(kids, pend, plan, ctx).
                 Some (p # kids, child_edges @ pend, plan, ctx))))"
  by pat_completeness auto
termination
  by (relation "measure (\<lambda>x. case x of
      Inl (d, n, _) \<Rightarrow> 2 * tree_size n
    | Inr (Inl (d, n, _)) \<Rightarrow> 2 * tree_size n
    | Inr (Inr (d, cols, cs, _)) \<Rightarrow> Suc (2 * sum_list (map tree_size cs)))") auto

declare cut_recursive.simps [simp del] extract_stage_plan.simps [simp del] cut_children.simps [simp del]

text \<open>What a call that runs through has computed.\<close>

lemma cut_recursive_SomeE:
  assumes "cut_recursive d n plan ctx = Some (i, plan', ctx')"
  obtains kids pend plan1 ctx1 p where
    "cut_children d (sort_order_by_columns (ap_plan n)) (ap_children n) plan ctx =
       Some (kids, pend, plan1, ctx1)"
    "reconstruct_plan_with_children (ap_plan n) kids = Some p"
    "finish_stage d n (restore_output_columns (sort_order_by_columns (ap_plan n)) (ap_plan n) p)
       pend plan1 ctx1 = (i, plan', ctx')"
  using assms by (auto simp: cut_recursive.simps [of d n] Let_def bind_eq_Some_conv)

lemma extract_stage_plan_SomeE:
  assumes "extract_stage_plan d n plan ctx = Some (p, pend, plan', ctx')"
  obtains "ap_children n = []" "p = ap_plan n" "pend = []" "plan' = plan" "ctx' = ctx"
    | kids where "ap_children n \<noteq> []"
      "cut_children d [] (ap_children n) plan ctx = Some (kids, pend, plan', ctx')"
      "reconstruct_plan_with_children (ap_plan n) kids = Some p"
  using assms
  by (auto simp: extract_stage_plan.simps [of d n] bind_eq_Some_conv split: if_split_asm)

lemma cut_children_exchangeE:
  assumes "cut_children d cols (c # cs) plan ctx = Some (kids, pend, plan', ctx')"
    and "exchange_before c = Some ex"
  obtains f plan1 ctx1 x ctx2 kids2 pend2 where
    "cut_recursive d (push_columns_into_child d cols c) plan ctx = Some (f, plan1, ctx1)"
    "alloc_exchange_id ctx1 = (x, ctx2)"
    "cut_children d cols cs plan1 ctx2 = Some (kids2, pend2, plan', ctx')"
    "kids = exchange_placeholder x (ap_plan c) # kids2" "pend = (x, f, ex) # pend2"
proof -
  from assms obtain f plan1 ctx1 where
    "cut_recursive d (push_columns_into_child d cols c) plan ctx = Some (f, plan1, ctx1)"
    by (auto simp: cut_children.simps(2) [of d cols c] Let_def bind_eq_Some_conv)
  moreover obtain x ctx2 where "alloc_exchange_id ctx1 = (x, ctx2)" by fastforce
  ultimately show ?thesis
    using assms that by (auto simp: cut_children.simps(2) [of d cols c] Let_def bind_eq_Some_conv)
qed

lemma cut_children_inlineE:
  assumes "cut_children d cols (c # cs) plan ctx = Some (kids, pend, plan', ctx')"
    and "exchange_before c = None"
  obtains p pend1 plan1 ctx1 kids2 pend2 where
    "extract_stage_plan d (push_columns_into_child d cols c) plan ctx = Some (p, pend1, plan1, ctx1)"
    "cut_children d cols cs plan1 ctx1 = Some (kids2, pend2, plan', ctx')"
    "kids = p # kids2" "pend = pend1 @ pend2"
  using assms by (auto simp: cut_children.simps(2) [of d cols c] Let_def bind_eq_Some_conv)

section \<open>Assigning workers\<close>

definition assign_target_workers :: "worker_id \<Rightarrow> cut_context \<Rightarrow> stage \<Rightarrow> stage" where
  "assign_target_workers coord ctx s =
     (let s' = (case stage_annotations ctx (stage_id s) of
                  Some ann \<Rightarrow> s\<lparr>target_workers := dedup (sort (dist_workers (distribution ann)))\<rparr>
                | None \<Rightarrow> s)
      in if target_workers s' = [] then s'\<lparr>target_workers := [coord]\<rparr> else s')"

text \<open>Round robin over the workers of the reading stage.\<close>

definition assign_partitions :: "stage list \<Rightarrow> exchange_edge \<Rightarrow> exchange_edge" where
  "assign_partitions ss e =
     (case kind e of
        HashPartition refs partitions \<Rightarrow>
          (case find (\<lambda>s. stage_id s = to_stage e) ss of
             Some s \<Rightarrow> e\<lparr>partition_to_worker :=
               map (\<lambda>i. target_workers s ! (i mod length (target_workers s))) [0..<unat partitions]\<rparr>
           | None \<Rightarrow> e)
      | _ \<Rightarrow> e)"

definition assign_stage_workers :: "ldp_plan \<Rightarrow> cut_context \<Rightarrow> ldp_plan" where
  "assign_stage_workers plan ctx =
     (let ss = map (assign_target_workers (coordinator plan) ctx) (stages plan)
      in plan\<lparr>stages := ss, edges := map (assign_partitions ss) (edges plan)\<rparr>)"

text \<open>\<open>iter_mut().find(..)\<close>: the first stage with the root's number is updated.\<close>

fun set_root_output :: "stage_id \<Rightarrow> stage list \<Rightarrow> stage list" where
  "set_root_output r [] = []"
| "set_root_output r (s # ss) =
     (if stage_id s = r then s\<lparr>stage_out := StreamOutput\<rparr> # ss else s # set_root_output r ss)"

definition cut_into_stages ::
  "sql_display \<Rightarrow> annotated_plan \<Rightarrow> planner_policy \<Rightarrow> string \<Rightarrow> plan_context \<Rightarrow> ldp_plan option" where
  "cut_into_stages d root policy qid context =
     Option.bind (cut_recursive d root (ldp_plan_new (QueryId qid) (policy_coordinator policy))
       (cut_context_new context)) (\<lambda>(final, plan, ctx).
         let plan = assign_stage_workers (plan\<lparr>root_stage := final\<rparr>) ctx
         in Some (plan\<lparr>stages := set_root_output (root_stage plan) (stages plan)\<rparr>))"

section \<open>The helper for a single stage\<close>

function extract_plan_with_placeholders :: "annotated_plan \<Rightarrow> u32 \<Rightarrow> (logical_plan \<times> u32) option"
  and extract_placeholder_children :: "annotated_plan list \<Rightarrow> u32 \<Rightarrow> (logical_plan list \<times> u32) option"
where
  "extract_plan_with_placeholders n k =
     (if ap_children n = [] then Some (ap_plan n, k)
      else Option.bind (extract_placeholder_children (ap_children n) k) (\<lambda>(kids, k).
           map_option (\<lambda>p. (p, k)) (reconstruct_plan_with_children (ap_plan n) kids)))"
| "extract_placeholder_children [] k = Some ([], k)"
| "extract_placeholder_children (c # cs) k =
     (case exchange_before c of
        Some ex \<Rightarrow> map_option (\<lambda>(kids, k'). (ExchangeRead k (''__exchange_'' @ show_u32 k) # kids, k'))
          (extract_placeholder_children cs (k + 1))
      | None \<Rightarrow> Option.bind (extract_plan_with_placeholders c k) (\<lambda>(p, k).
          map_option (\<lambda>(kids, k). (p # kids, k)) (extract_placeholder_children cs k)))"
  by pat_completeness auto
termination
  by (relation "measure (\<lambda>x. case x of
      Inl (n, k) \<Rightarrow> 2 * tree_size n
    | Inr (cs, k) \<Rightarrow> Suc (2 * sum_list (map tree_size cs)))") auto

definition extract_stage_sql :: "sql_display \<Rightarrow> annotated_plan \<Rightarrow> string option" where
  "extract_stage_sql d n =
     map_option (\<lambda>(p, k). generate_stage_sql_no_context d p) (extract_plan_with_placeholders n 0)"

end
