(* ===== verification/Stage_Graph.thy ===== *)
theory Stage_Graph
  imports Stage_Cut "HOL-Library.Multiset"
begin

text \<open>
  The plan that cutting produces: its stages are numbered in order, its edges form a tree
  that leads to the root stage, every stage has workers, and every partition of a hash
  exchange has a worker of the reading stage.
\<close>

section \<open>What a cut adds to the plan\<close>

text \<open>
  The exchanges of a tree are not changed by pushing columns, so the number of stages and
  exchanges that a call allocates is known from the tree.
\<close>

abbreviation inner_exchanges :: "annotated_plan \<Rightarrow> nat" where
  "inner_exchanges n \<equiv> sum_list (map count_exchanges (ap_children n))"

lemma count_exchanges_unfold:
  "count_exchanges n = (if exchange_before n = None then 0 else 1) + inner_exchanges n"
  by (cases n) simp

lemma with_plan_simps [simp]:
  "ap_plan (with_plan n p) = p"
  "ap_annotation (with_plan n p) = ap_annotation n"
  "exchange_before (with_plan n p) = exchange_before n"
  "pre_exchange_distribution (with_plan n p) = pre_exchange_distribution n"
  "ap_children (with_plan n p) = ap_children n"
  by (simp_all add: with_plan_def)

lemma count_exchanges_with_plan [simp]: "count_exchanges (with_plan n p) = count_exchanges n"
  by (simp add: count_exchanges_unfold)

lemma count_exchanges_in_subtree [simp]:
  "count_exchanges (add_order_by_columns_in_subtree d cols n) = count_exchanges n"
  by (induction n rule: tree_size.induct)
     (auto split: option.splits intro!: arg_cong [where f = sum_list] map_cong)

lemma count_exchanges_to_exchange_children [simp]:
  "count_exchanges (add_order_by_columns_to_exchange_children d cols n) = count_exchanges n"
  by (induction n rule: tree_size.induct)
     (auto split: option.splits intro!: arg_cong [where f = sum_list] map_cong)

lemma exchange_before_in_subtree [simp]:
  "exchange_before (add_order_by_columns_in_subtree d cols n) = exchange_before n"
  by (cases n) (auto split: option.splits)

lemma exchange_before_to_exchange_children [simp]:
  "exchange_before (add_order_by_columns_to_exchange_children d cols n) = exchange_before n"
  by (cases n) simp

lemma push_columns_exchanges [simp]:
  "exchange_before (push_columns_into_child d cols c) = exchange_before c"
  "inner_exchanges (push_columns_into_child d cols c) = inner_exchanges c"
proof -
  show ex: "exchange_before (push_columns_into_child d cols c) = exchange_before c"
    by (simp add: push_columns_into_child_def)
  have "count_exchanges (push_columns_into_child d cols c) = count_exchanges c"
    by (simp add: push_columns_into_child_def)
  with ex show "inner_exchanges (push_columns_into_child d cols c) = inner_exchanges c"
    by (simp add: count_exchanges_unfold)
qed

text \<open>
  \<open>grows_by ns ne plan ctx pend roots plan' ctx'\<close>: the new stages \<open>ns\<close> carry the next
  numbers in order; every new stage but those of \<open>roots\<close> is the source of exactly one edge,
  new or pending; the new edges \<open>ne\<close> and the pending ones carry the next exchange numbers,
  each once; and every new edge leads from a new stage to a later one.
\<close>

abbreviation stage_counter_of :: "cut_context \<Rightarrow> nat" where
  "stage_counter_of ctx \<equiv> stage_index (next_stage_id ctx)"

abbreviation exchange_counter_of :: "cut_context \<Rightarrow> nat" where
  "exchange_counter_of ctx \<equiv> exchange_index (next_exchange_id ctx)"

abbreviation edge_sources :: "exchange_edge list \<Rightarrow> pending_edge list \<Rightarrow> nat list" where
  "edge_sources es ps \<equiv>
     map (\<lambda>e. stage_index (from_stage e)) es @ map (\<lambda>(x, f, k). stage_index f) ps"

abbreviation edge_numbers :: "exchange_edge list \<Rightarrow> pending_edge list \<Rightarrow> nat list" where
  "edge_numbers es ps \<equiv>
     map (\<lambda>e. exchange_index (edge_id e)) es @ map (\<lambda>(x, f, k). exchange_index x) ps"

definition grows_by ::
  "stage list \<Rightarrow> exchange_edge list \<Rightarrow> ldp_plan \<Rightarrow> cut_context \<Rightarrow> pending_edge list \<Rightarrow>
   stage_id list \<Rightarrow> ldp_plan \<Rightarrow> cut_context \<Rightarrow> bool" where
  "grows_by ns ne plan ctx pend roots plan' ctx' \<longleftrightarrow>
     stages plan' = stages plan @ ns \<and> edges plan' = edges plan @ ne \<and>
     coordinator plan' = coordinator plan \<and>
     stage_counter_of ctx \<le> stage_counter_of ctx' \<and>
     exchange_counter_of ctx \<le> exchange_counter_of ctx' \<and>
     map (\<lambda>s. stage_index (stage_id s)) ns = [stage_counter_of ctx..<stage_counter_of ctx'] \<and>
     mset (edge_sources ne pend @ map stage_index roots) =
       mset [stage_counter_of ctx..<stage_counter_of ctx'] \<and>
     mset (edge_numbers ne pend) = mset [exchange_counter_of ctx..<exchange_counter_of ctx'] \<and>
     (\<forall>e\<in>set ne. stage_index (from_stage e) < stage_index (to_stage e) \<and>
        stage_index (to_stage e) < stage_counter_of ctx') \<and>
     dom (stage_annotations ctx') = dom (stage_annotations ctx) \<union> stage_id ` set ns"

definition grows ::
  "ldp_plan \<Rightarrow> cut_context \<Rightarrow> pending_edge list \<Rightarrow> stage_id list \<Rightarrow> ldp_plan \<Rightarrow> cut_context \<Rightarrow> bool" where
  "grows plan ctx pend roots plan' ctx' \<longleftrightarrow>
     (\<exists>ns ne. grows_by ns ne plan ctx pend roots plan' ctx')"

lemma grows_refl: "grows plan ctx [] [] plan ctx"
  by (auto simp: grows_def grows_by_def intro: exI [of _ "[]"])

lemma upt_split: "i \<le> j \<Longrightarrow> j \<le> k \<Longrightarrow> [i..<k] = [i..<j] @ [j..<k]"
  by (metis le_add_diff_inverse upt_add_eq_append)

lemma grows_by_trans:
  assumes "grows_by n1 e1 A ctx p1 r1 B ctxB" "grows_by n2 e2 B ctxB p2 r2 C ctxC"
  shows "grows_by (n1 @ n2) (e1 @ e2) A ctx (p1 @ p2) (r1 @ r2) C ctxC"
proof -
  have S: "[stage_counter_of ctx..<stage_counter_of ctxC] =
      [stage_counter_of ctx..<stage_counter_of ctxB] @ [stage_counter_of ctxB..<stage_counter_of ctxC]"
    using assms by (intro upt_split) (auto simp: grows_by_def)
  have X: "[exchange_counter_of ctx..<exchange_counter_of ctxC] =
      [exchange_counter_of ctx..<exchange_counter_of ctxB] @
      [exchange_counter_of ctxB..<exchange_counter_of ctxC]"
    using assms by (intro upt_split) (auto simp: grows_by_def)
  have "mset (edge_sources (e1 @ e2) (p1 @ p2) @ map stage_index (r1 @ r2)) =
      mset (edge_sources e1 p1 @ map stage_index r1) + mset (edge_sources e2 p2 @ map stage_index r2)"
    by simp
  moreover have "mset (edge_numbers (e1 @ e2) (p1 @ p2)) =
      mset (edge_numbers e1 p1) + mset (edge_numbers e2 p2)"
    by simp
  ultimately show ?thesis
    using assms unfolding grows_by_def S X by (simp del: mset_append mset_map) (auto intro: less_le_trans)
qed

lemma grows_trans:
  "grows A ctx p1 r1 B ctxB \<Longrightarrow> grows B ctxB p2 r2 C ctxC \<Longrightarrow>
     grows A ctx (p1 @ p2) (r1 @ r2) C ctxC"
  unfolding grows_def by (blast intro: grows_by_trans)

lemma alloc_exchange_grows:
  assumes "grows plan ctx pend (i # roots) plan' ctx'" "alloc_exchange_id ctx' = (x, ctx'')"
    and "exchange_counter_of ctx' < 2 ^ 32 - 1"
  shows "grows plan ctx ((x, i, ex) # pend) roots plan' ctx''"
    "exchange_counter_of ctx'' = Suc (exchange_counter_of ctx')"
    "stage_counter_of ctx'' = stage_counter_of ctx'"
proof -
  from assms(2) have x: "x = next_exchange_id ctx'"
    and c: "ctx'' = ctx'\<lparr>next_exchange_id := snd (exchange_alloc_next (next_exchange_id ctx'))\<rparr>"
    using exchange_counter.alloc_current [of "next_exchange_id ctx'"]
    by (auto simp: alloc_exchange_id_def split: prod.splits)
  show s: "exchange_counter_of ctx'' = Suc (exchange_counter_of ctx')"
    using exchange_counter.alloc_next [OF assms(3)] by (simp add: c)
  show "stage_counter_of ctx'' = stage_counter_of ctx'" by (simp add: c)
  with assms(1) s show "grows plan ctx ((x, i, ex) # pend) roots plan' ctx''"
    unfolding grows_def grows_by_def by (fastforce simp: x c)
qed

lemma finish_stage_grows:
  assumes "grows plan ctx pend [] plan' ctx'" "finish_stage d n p pend plan' ctx' = (i, plan'', ctx'')"
    and "stage_counter_of ctx' < 2 ^ 32 - 1"
  shows "grows plan ctx [] [i] plan'' ctx''"
    "stage_counter_of ctx'' = Suc (stage_counter_of ctx')"
    "exchange_counter_of ctx'' = exchange_counter_of ctx'"
proof -
  define new_edges where "new_edges = map (\<lambda>(x, from, k). \<lparr>edge_id = x, kind = k,
    from_stage = from, to_stage = i, partition_to_worker = []\<rparr>) pend"
  from assms(2) have i: "i = next_stage_id ctx'"
    and c: "next_stage_id ctx'' = snd (stage_alloc_next (next_stage_id ctx'))"
      "next_exchange_id ctx'' = next_exchange_id ctx'"
      "stage_annotations ctx'' = (stage_annotations ctx')(i \<mapsto> stage_annotation n)"
    and pl: "edges plan'' = edges plan' @ new_edges" "coordinator plan'' = coordinator plan'"
    and st: "\<exists>s. stages plan'' = stages plan' @ [s] \<and> stage_id s = i"
    using stage_counter.alloc_current [of "next_stage_id ctx'"]
    by (auto simp: finish_stage_def alloc_stage_id_def new_edges_def Let_def split: prod.splits)
  show s: "stage_counter_of ctx'' = Suc (stage_counter_of ctx')"
    using stage_counter.alloc_next [OF assms(3)] by (simp add: c)
  show "exchange_counter_of ctx'' = exchange_counter_of ctx'" by (simp add: c)
  from st obtain s where "stages plan'' = stages plan' @ [s]" "stage_id s = i" by blast
  from assms(1) obtain ns ne where g: "grows_by ns ne plan ctx pend [] plan' ctx'"
    unfolding grows_def by blast
  have src: "map (\<lambda>e. stage_index (from_stage e)) new_edges = map (\<lambda>(x, f, k). stage_index f) pend"
    and num: "map (\<lambda>e. exchange_index (edge_id e)) new_edges = map (\<lambda>(x, f, k). exchange_index x) pend"
    by (simp_all add: new_edges_def comp_def case_prod_unfold)
  have "set (edge_sources ne pend) = set [stage_counter_of ctx..<stage_counter_of ctx']"
    using g unfolding grows_by_def by (metis append_Nil2 list.simps(8) mset_eq_setD)
  moreover have "(\<lambda>(x, f, k). stage_index f) ` set pend \<subseteq> set (edge_sources ne pend)" by simp
  ultimately have "\<forall>(x, f, k)\<in>set pend. stage_index f < stage_counter_of ctx'" by fastforce
  then have bound: "\<forall>e\<in>set new_edges. stage_index (from_stage e) < stage_index (to_stage e) \<and>
      stage_index (to_stage e) < stage_counter_of ctx''"
    by (auto simp: new_edges_def i s)
  have "grows_by (ns @ [s]) (ne @ new_edges) plan ctx [] [i] plan'' ctx''"
    using g \<open>stages plan'' = stages plan' @ [s]\<close> \<open>stage_id s = i\<close> bound
    unfolding grows_by_def
    by (auto simp: pl c(2,3) s src num i simp del: mset_map)
  then show "grows plan ctx [] [i] plan'' ctx''" unfolding grows_def by blast
qed

text \<open>A call grows the plan by as many stages and exchanges as the tree has exchanges.\<close>

definition counts_to :: "cut_context \<Rightarrow> nat \<Rightarrow> nat \<Rightarrow> cut_context \<Rightarrow> bool" where
  "counts_to ctx s x ctx' \<longleftrightarrow> stage_counter_of ctx' = stage_counter_of ctx + s \<and>
     exchange_counter_of ctx' = exchange_counter_of ctx + x"

definition room_for :: "cut_context \<Rightarrow> nat \<Rightarrow> bool" where
  "room_for ctx k \<longleftrightarrow> stage_counter_of ctx + k < 2 ^ 32 - 1 \<and> exchange_counter_of ctx + k < 2 ^ 32 - 1"

lemma cut_grows:
  "cut_recursive d n plan ctx = Some (i, plan', ctx') \<Longrightarrow> room_for ctx (inner_exchanges n) \<Longrightarrow>
     grows plan ctx [] [i] plan' ctx' \<and> counts_to ctx (Suc (inner_exchanges n)) (inner_exchanges n) ctx'"
  "extract_stage_plan d n plan ctx = Some (p, pend, plan', ctx') \<Longrightarrow> room_for ctx (inner_exchanges n) \<Longrightarrow>
     grows plan ctx pend [] plan' ctx' \<and> counts_to ctx (inner_exchanges n) (inner_exchanges n) ctx'"
  "cut_children d cols cs plan ctx = Some (kids, pend, plan', ctx') \<Longrightarrow>
     room_for ctx (sum_list (map count_exchanges cs)) \<Longrightarrow>
     grows plan ctx pend [] plan' ctx' \<and>
     counts_to ctx (sum_list (map count_exchanges cs)) (sum_list (map count_exchanges cs)) ctx'"
proof (induction d n plan ctx and d n plan ctx and d cols cs plan ctx
    arbitrary: i plan' ctx' and p pend plan' ctx' and kids pend plan' ctx'
    rule: cut_recursive_extract_stage_plan_cut_children.induct)
  case (1 d n plan ctx)
  from "1.prems"(1) obtain kids pend plan1 ctx1 q where
    k: "cut_children d (sort_order_by_columns (ap_plan n)) (ap_children n) plan ctx =
      Some (kids, pend, plan1, ctx1)"
    and f: "finish_stage d n (restore_output_columns (sort_order_by_columns (ap_plan n)) (ap_plan n) q)
      pend plan1 ctx1 = (i, plan', ctx')"
    by (rule cut_recursive_SomeE)
  from "1.IH" [OF refl k "1.prems"(2)] have g: "grows plan ctx pend [] plan1 ctx1"
    and c: "counts_to ctx (inner_exchanges n) (inner_exchanges n) ctx1" by auto
  from c "1.prems"(2) have "stage_counter_of ctx1 < 2 ^ 32 - 1"
    by (simp add: counts_to_def room_for_def)
  from finish_stage_grows [OF g f this] c show ?case by (simp add: counts_to_def)
next
  case (2 d n plan ctx)
  from "2.prems"(1) show ?case
  proof (cases rule: extract_stage_plan_SomeE)
    case 1
    then show ?thesis by (simp add: grows_refl counts_to_def)
  next
    case (2 kids)
    from "2.IH" [OF 2(1,2) "2.prems"(2)] show ?thesis .
  qed
next
  case (3 d cols plan ctx)
  then show ?case by (auto simp: cut_children.simps grows_refl counts_to_def)
next
  case (4 d cols c cs plan ctx)
  let ?c = "push_columns_into_child d cols c"
  show ?case
  proof (cases "exchange_before c")
    case (Some ex)
    from "4.prems"(1) this obtain f plan1 ctx1 x ctx2 kids2 pend2 where
      r: "cut_recursive d ?c plan ctx = Some (f, plan1, ctx1)" and a: "alloc_exchange_id ctx1 = (x, ctx2)"
      and k: "cut_children d cols cs plan1 ctx2 = Some (kids2, pend2, plan', ctx')"
      and p: "pend = (x, f, ex) # pend2"
      by (rule cut_children_exchangeE)
    have cnt: "count_exchanges c = Suc (inner_exchanges c)" by (simp add: count_exchanges_unfold Some)
    then have "room_for ctx (inner_exchanges ?c)" using "4.prems"(2) by (simp add: room_for_def)
    from "4.IH"(3) [OF refl Some r this] have g1: "grows plan ctx [] [f] plan1 ctx1"
      and c1: "counts_to ctx (Suc (inner_exchanges c)) (inner_exchanges c) ctx1" by auto
    from c1 "4.prems"(2) cnt have "exchange_counter_of ctx1 < 2 ^ 32 - 1"
      by (simp add: counts_to_def room_for_def)
    from alloc_exchange_grows(1) [OF g1 a this, of ex] alloc_exchange_grows(2,3) [OF g1 a this]
    have g2: "grows plan ctx [(x, f, ex)] [] plan1 ctx2"
      and c2: "counts_to ctx (count_exchanges c) (count_exchanges c) ctx2"
      using c1 cnt by (simp_all add: counts_to_def)
    from c2 "4.prems"(2) have "room_for ctx2 (sum_list (map count_exchanges cs))"
      by (simp add: counts_to_def room_for_def)
    from "4.IH"(4) [OF refl Some r refl refl a [symmetric] refl k this]
    have "grows plan1 ctx2 pend2 [] plan' ctx'"
      and "counts_to ctx2 (sum_list (map count_exchanges cs)) (sum_list (map count_exchanges cs)) ctx'"
      by auto
    with grows_trans [OF g2 this(1)] c2 p show ?thesis by (simp add: counts_to_def)
  next
    case None
    from "4.prems"(1) this obtain q pend1 plan1 ctx1 kids2 pend2 where
      e: "extract_stage_plan d ?c plan ctx = Some (q, pend1, plan1, ctx1)"
      and k: "cut_children d cols cs plan1 ctx1 = Some (kids2, pend2, plan', ctx')"
      and p: "pend = pend1 @ pend2"
      by (rule cut_children_inlineE)
    have cnt: "count_exchanges c = inner_exchanges c" by (simp add: count_exchanges_unfold None)
    then have "room_for ctx (inner_exchanges ?c)" using "4.prems"(2) by (simp add: room_for_def)
    from "4.IH"(1) [OF refl None e this] cnt have g1: "grows plan ctx pend1 [] plan1 ctx1"
      and c1: "counts_to ctx (count_exchanges c) (count_exchanges c) ctx1" by auto
    from c1 "4.prems"(2) have "room_for ctx1 (sum_list (map count_exchanges cs))"
      by (simp add: counts_to_def room_for_def)
    from "4.IH"(2) [OF refl None e refl refl refl k this]
    have "grows plan1 ctx1 pend2 [] plan' ctx'"
      and "counts_to ctx1 (sum_list (map count_exchanges cs)) (sum_list (map count_exchanges cs)) ctx'"
      by auto
    with grows_trans [OF g1 this(1)] c1 p show ?thesis by (simp add: counts_to_def)
  qed
qed

section \<open>The finished plan\<close>

lemma map_stage_id_assign [simp]:
  "stage_id (assign_target_workers coord ctx s) = stage_id s"
  by (auto simp: assign_target_workers_def Let_def split: option.splits)

lemma map_set_root_output [simp]:
  "(\<And>s. f (s\<lparr>stage_out := StreamOutput\<rparr>) = f s) \<Longrightarrow> map f (set_root_output r ss) = map f ss"
  by (induction ss) auto

lemma assign_partitions_simps [simp]:
  "edge_id (assign_partitions ss e) = edge_id e"
  "from_stage (assign_partitions ss e) = from_stage e"
  "to_stage (assign_partitions ss e) = to_stage e"
  "kind (assign_partitions ss e) = kind e"
  by (auto simp: assign_partitions_def split: exchange.splits option.splits)

lemma cut_into_stages_SomeE:
  assumes "cut_into_stages d root policy qid context = Some plan"
  obtains i plan1 ctx1 ss where
    "cut_recursive d root (ldp_plan_new (QueryId qid) (policy_coordinator policy))
       (cut_context_new context) = Some (i, plan1, ctx1)"
    "ss = map (assign_target_workers (coordinator plan1) ctx1) (stages plan1)"
    "stages plan = set_root_output i ss" "edges plan = map (assign_partitions ss) (edges plan1)"
    "root_stage plan = i" "coordinator plan = coordinator plan1"
  using assms
  by (auto simp: cut_into_stages_def bind_eq_Some_conv assign_stage_workers_def Let_def)

lemma stage_counter_new [simp]:
  "stage_counter_of (cut_context_new c) = 0" "exchange_counter_of (cut_context_new c) = 0"
  by (simp_all add: cut_context_new_def stage_index_def exchange_index_def)

text \<open>The numbering of the finished plan, as the growth of the empty plan.\<close>

lemma cut_numbering:
  assumes "cut_into_stages d root policy qid context = Some plan"
    and room: "inner_exchanges root < 2 ^ 32 - 1"
  shows "map (\<lambda>s. stage_index (stage_id s)) (stages plan) = [0..<Suc (inner_exchanges root)]"
    and "stage_index (root_stage plan) = inner_exchanges root"
    and "mset (map (\<lambda>e. stage_index (from_stage e)) (edges plan)) = mset [0..<inner_exchanges root]"
    and "mset (map (\<lambda>e. exchange_index (edge_id e)) (edges plan)) = mset [0..<inner_exchanges root]"
    and "\<forall>e\<in>set (edges plan). stage_index (from_stage e) < stage_index (to_stage e) \<and>
      stage_index (to_stage e) < Suc (inner_exchanges root)"
proof -
  from assms(1) obtain i plan1 ctx1 ss where
    r: "cut_recursive d root (ldp_plan_new (QueryId qid) (policy_coordinator policy))
       (cut_context_new context) = Some (i, plan1, ctx1)"
    and ss: "ss = map (assign_target_workers (coordinator plan1) ctx1) (stages plan1)"
    and pl: "stages plan = set_root_output i ss" "edges plan = map (assign_partitions ss) (edges plan1)"
      "root_stage plan = i"
    by (rule cut_into_stages_SomeE)
  have "room_for (cut_context_new context) (inner_exchanges root)" using room by (simp add: room_for_def)
  from cut_grows(1) [OF r this] obtain ns ne where
    g: "grows_by ns ne (ldp_plan_new (QueryId qid) (policy_coordinator policy))
      (cut_context_new context) [] [i] plan1 ctx1"
    and c: "stage_counter_of ctx1 = Suc (inner_exchanges root)"
      "exchange_counter_of ctx1 = inner_exchanges root"
    by (auto simp: grows_def counts_to_def)
  have n: "stages plan1 = ns" "edges plan1 = ne" using g by (simp_all add: grows_by_def ldp_plan_new_def)
  show "map (\<lambda>s. stage_index (stage_id s)) (stages plan) = [0..<Suc (inner_exchanges root)]"
    using g c n by (simp add: pl ss grows_by_def comp_def)
  show "mset (map (\<lambda>e. exchange_index (edge_id e)) (edges plan)) = mset [0..<inner_exchanges root]"
    using g c n by (simp add: pl grows_by_def comp_def)
  show b: "\<forall>e\<in>set (edges plan). stage_index (from_stage e) < stage_index (to_stage e) \<and>
      stage_index (to_stage e) < Suc (inner_exchanges root)"
    using g c n by (simp add: pl grows_by_def)
  have m: "mset (map (\<lambda>e. stage_index (from_stage e)) (edges plan)) + {#stage_index i#} =
      mset [0..<inner_exchanges root] + {#inner_exchanges root#}"
    using g c n by (simp add: pl grows_by_def comp_def)
  have "inner_exchanges root \<notin># mset (map (\<lambda>e. stage_index (from_stage e)) (edges plan))"
    using b by fastforce
  with m show i: "stage_index (root_stage plan) = inner_exchanges root"
    by (metis add_mset_add_single insert_noteq_member pl(3) union_single_eq_member)
  from m i show "mset (map (\<lambda>e. stage_index (from_stage e)) (edges plan)) = mset [0..<inner_exchanges root]"
    by (simp add: pl)
qed

lemma distinct_by_index:
  "distinct (map (\<lambda>x. f (g x)) xs) \<Longrightarrow> distinct (map g xs)"
  by (induction xs) auto

lemma length_downstream:
  "length (downstream_stages p s) =
     count (mset (map (\<lambda>e. stage_index (from_stage e)) (edges p))) (stage_index s)"
proof -
  have "length (filter (\<lambda>e. from_stage e = s) es) =
      count (mset (map (\<lambda>e. stage_index (from_stage e)) es)) (stage_index s)" for es
    by (induction es) (auto dest: stage_counter.num_inj)
  then show ?thesis by (simp add: downstream_stages_def)
qed

lemma count_upt: "count (mset [0..<n]) i = (if i < n then 1 else 0)"
  by (induction n) (auto simp: less_Suc_eq)

lemma cut_plan_dag:
  assumes "cut_into_stages d root policy qid context = Some plan" "inner_exchanges root < 2 ^ 32 - 1"
  shows "plan_dag plan"
proof -
  note num = cut_numbering [OF assms]
  have ids: "stage_index ` stage_ids plan = {..< Suc (inner_exchanges root)}"
  proof -
    have "stage_index ` stage_ids plan = set (map (\<lambda>s. stage_index (stage_id s)) (stages plan))"
      by (auto simp: stage_ids_def)
    then show ?thesis unfolding num(1) by auto
  qed
  have "distinct (map (\<lambda>s. stage_index (stage_id s)) (stages plan))" unfolding num(1) by simp
  then have "distinct (map stage_id (stages plan))" by (rule distinct_by_index)
  moreover have "edge_rel plan \<subseteq> stage_ids plan \<times> stage_ids plan"
  proof -
    have "s \<in> stage_ids plan" if "stage_index s < Suc (inner_exchanges root)" for s
      using that ids stage_counter.num_inj by (metis image_iff lessThan_iff)
    with num(5) show ?thesis by (fastforce simp: edge_rel_def)
  qed
  moreover have "acyclic (edge_rel plan)"
    by (rule acyclic_by_rank [where f = stage_index]) (use num(5) in \<open>auto simp: edge_rel_def\<close>)
  ultimately show ?thesis by (simp add: plan_dag_def)
qed

section \<open>Workers\<close>

text \<open>Every stage carries the annotation of a node of the tree, the one before its exchange.\<close>

lemma stage_annotation_with_plan [simp]: "stage_annotation (with_plan n p) = stage_annotation n"
  by (simp add: stage_annotation_def split: option.split)

lemma stage_annotation_node [simp]:
  "stage_annotation (AnnotatedPlan p a ex pre cs) =
     (case pre of Some d \<Rightarrow> a\<lparr>distribution := d\<rparr> | None \<Rightarrow> a)"
  by (simp add: stage_annotation_def split: option.split)

lemma nodes_with_plan: "nodes (with_plan n p) = with_plan n p # concat (map nodes (ap_children n))"
  by (cases n) (simp add: with_plan_def)

lemma nodes_unfold: "nodes n = n # concat (map nodes (ap_children n))"
  by (cases n) simp

abbreviation node_annotations :: "annotated_plan \<Rightarrow> distribution_annotation set" where
  "node_annotations n \<equiv> stage_annotation ` set (nodes n)"

lemma node_annotations_with_plan [simp]: "node_annotations (with_plan n p) = node_annotations n"
  by (simp add: nodes_with_plan nodes_unfold [of n])

lemma node_annotations_in_subtree [simp]:
  "node_annotations (add_order_by_columns_in_subtree d cols n) = node_annotations n"
proof (induction n rule: tree_size.induct)
  case (1 p a ex pre cs)
  have "node_annotations (if exchange_before c = None
      then add_order_by_columns_in_subtree d cols c else c) = node_annotations c"
    if "c \<in> set cs" for c using 1 [OF that] by simp
  then show ?case by (simp add: image_UN split: option.split)
qed

lemma node_annotations_to_exchange_children [simp]:
  "node_annotations (add_order_by_columns_to_exchange_children d cols n) = node_annotations n"
proof (induction n rule: tree_size.induct)
  case (1 p a ex pre cs)
  have "node_annotations (if exchange_before c \<noteq> None
      then (case add_columns_to_plan_safe d (ap_plan c) cols of
              Some p' \<Rightarrow> with_plan c p' | None \<Rightarrow> add_order_by_columns_in_subtree d cols c)
      else add_order_by_columns_to_exchange_children d cols c) = node_annotations c"
    if "c \<in> set cs" for c using 1 [OF that] by (simp split: option.split)
  then show ?case by (simp add: image_UN)
qed

lemma node_annotations_push [simp]:
  "node_annotations (push_columns_into_child d cols c) = node_annotations c"
  by (simp add: push_columns_into_child_def)

lemma finish_stage_annotations:
  "finish_stage d n p pend plan ctx = (i, plan', ctx') \<Longrightarrow>
     ran (stage_annotations ctx') \<subseteq> insert (stage_annotation n) (ran (stage_annotations ctx))"
  by (auto simp: finish_stage_def alloc_stage_id_def Let_def ran_def split: prod.splits if_splits)

lemma alloc_exchange_annotations:
  "alloc_exchange_id ctx = (x, ctx') \<Longrightarrow> stage_annotations ctx' = stage_annotations ctx"
  by (auto simp: alloc_exchange_id_def split: prod.splits)

lemma cut_annotations:
  "cut_recursive d n plan ctx = Some (i, plan', ctx') \<Longrightarrow>
     ran (stage_annotations ctx') \<subseteq> ran (stage_annotations ctx) \<union> node_annotations n"
  "extract_stage_plan d n plan ctx = Some (p, pend, plan', ctx') \<Longrightarrow>
     ran (stage_annotations ctx') \<subseteq> ran (stage_annotations ctx) \<union> node_annotations n"
  "cut_children d cols cs plan ctx = Some (kids, pend, plan', ctx') \<Longrightarrow>
     ran (stage_annotations ctx') \<subseteq>
       ran (stage_annotations ctx) \<union> (\<Union>c\<in>set cs. node_annotations c)"
proof (induction d n plan ctx and d n plan ctx and d cols cs plan ctx
    arbitrary: i plan' ctx' and p pend plan' ctx' and kids pend plan' ctx'
    rule: cut_recursive_extract_stage_plan_cut_children.induct)
  case (1 d n plan ctx)
  from "1.prems" obtain kids pend plan1 ctx1 q where
    k: "cut_children d (sort_order_by_columns (ap_plan n)) (ap_children n) plan ctx =
      Some (kids, pend, plan1, ctx1)"
    and f: "finish_stage d n (restore_output_columns (sort_order_by_columns (ap_plan n)) (ap_plan n) q)
      pend plan1 ctx1 = (i, plan', ctx')"
    by (rule cut_recursive_SomeE)
  from "1.IH" [OF refl k] finish_stage_annotations [OF f] show ?case
    by (auto simp: nodes_unfold [of n])
next
  case (2 d n plan ctx)
  from "2.prems" show ?case
  proof (cases rule: extract_stage_plan_SomeE)
    case (2 kids)
    from "2.IH" [OF 2(1,2)] show ?thesis by (auto simp: nodes_unfold [of n])
  qed simp
next
  case (3 d cols plan ctx)
  then show ?case by (simp add: cut_children.simps)
next
  case (4 d cols c cs plan ctx)
  show ?case
  proof (cases "exchange_before c")
    case (Some ex)
    from "4.prems" Some obtain f plan1 ctx1 x ctx2 kids2 pend2 where
      r: "cut_recursive d (push_columns_into_child d cols c) plan ctx = Some (f, plan1, ctx1)"
      and a: "alloc_exchange_id ctx1 = (x, ctx2)"
      and k: "cut_children d cols cs plan1 ctx2 = Some (kids2, pend2, plan', ctx')"
      by (rule cut_children_exchangeE)
    from "4.IH"(3) [OF refl Some r] "4.IH"(4) [OF refl Some r refl refl a [symmetric] refl k]
      alloc_exchange_annotations [OF a]
    show ?thesis by auto
  next
    case None
    from "4.prems" None obtain q pend1 plan1 ctx1 kids2 pend2 where
      e: "extract_stage_plan d (push_columns_into_child d cols c) plan ctx = Some (q, pend1, plan1, ctx1)"
      and k: "cut_children d cols cs plan1 ctx1 = Some (kids2, pend2, plan', ctx')"
      by (rule cut_children_inlineE)
    from "4.IH"(1) [OF refl None e] "4.IH"(2) [OF refl None e refl refl refl k] show ?thesis by auto
  qed
qed

text \<open>The workers of a distribution, with the coordinator in place of an empty list.\<close>

definition placement :: "worker_id \<Rightarrow> distribution \<Rightarrow> worker_id set" where
  "placement coord d = (if dist_workers d = [] then {coord} else set (dist_workers d))"

definition workers_valid :: "worker_id list \<Rightarrow> bool" where
  "workers_valid ws \<longleftrightarrow> ws \<noteq> [] \<and> sorted ws \<and> distinct ws"

lemma sort_eq_Nil [simp]: "sort xs = [] \<longleftrightarrow> xs = []"
  by (metis set_empty set_sort)

lemma target_workers_assigned:
  assumes "stage_annotations ctx (stage_id s) = Some ann"
  shows "workers_valid (target_workers (assign_target_workers coord ctx s))"
    and "set (target_workers (assign_target_workers coord ctx s)) = placement coord (distribution ann)"
  using assms sorted_dedup_distinct [of "sort (dist_workers (distribution ann))"]
  by (auto simp: assign_target_workers_def workers_valid_def placement_def Let_def)

section \<open>Cutting runs through\<close>

text \<open>
  Adding columns wraps a leaf, a join or a set operation in a projection, while the tree
  keeps the inputs of the wrapped node. A tree is safe to cut when its nodes have as many
  inputs as their operators and no such node is the exchanged input of a sort.
\<close>

fun loses_inputs :: "logical_plan \<Rightarrow> bool" where
  "loses_inputs (Scan t a f) = True"
| "loses_inputs (ExchangeRead i a) = True"
| "loses_inputs (Join l r op lk rk) = True"
| "loses_inputs (SetOp l r op q) = True"
| "loses_inputs _ = False"

fun cut_ok :: "annotated_plan \<Rightarrow> bool" where
  "cut_ok (AnnotatedPlan p a ex pre cs) \<longleftrightarrow> length cs = length (plan_children p) \<and>
     (sort_order_by_columns p \<noteq> [] \<longrightarrow>
        (\<forall>c\<in>set cs. exchange_before c \<noteq> None \<longrightarrow> \<not> loses_inputs (ap_plan c))) \<and>
     (\<forall>c\<in>set cs. cut_ok c)"

lemma cut_ok_unfold:
  "cut_ok n \<longleftrightarrow> length (ap_children n) = length (plan_children (ap_plan n)) \<and>
     (sort_order_by_columns (ap_plan n) \<noteq> [] \<longrightarrow>
        (\<forall>c\<in>set (ap_children n). exchange_before c \<noteq> None \<longrightarrow> \<not> loses_inputs (ap_plan c))) \<and>
     (\<forall>c\<in>set (ap_children n). cut_ok c)"
  by (cases n) simp

text \<open>Two operators that are cut alike: same number of inputs, same ORDER BY columns.\<close>

definition cut_alike :: "logical_plan \<Rightarrow> logical_plan \<Rightarrow> bool" where
  "cut_alike p q \<longleftrightarrow> length (plan_children p) = length (plan_children q) \<and>
     sort_order_by_columns p = sort_order_by_columns q \<and> loses_inputs p = loses_inputs q"

lemma cut_alike_refl [simp]: "cut_alike p p"
  by (simp add: cut_alike_def)

lemma add_columns_alike: "\<not> loses_inputs p \<Longrightarrow> cut_alike (add_columns_to_plan d p cols) p"
proof (cases cols)
  case (Cons c cols')
  assume p: "\<not> loses_inputs p"
  show ?thesis
  proof (cases p)
    case (Limit q l f)
    then show ?thesis by (cases q) (simp_all add: Cons cut_alike_def)
  qed (use p Cons in \<open>simp_all add: cut_alike_def\<close>)
qed simp

lemma add_columns_safe_alike:
  "add_columns_to_plan_safe d p cols = Some p' \<Longrightarrow> cut_alike p' p"
  by (cases p) (auto simp: add_columns_to_plan_safe_def split: if_splits intro!: add_columns_alike)

lemma cut_ok_with_plan: "cut_ok n \<Longrightarrow> cut_alike p (ap_plan n) \<Longrightarrow> cut_ok (with_plan n p)"
  by (simp add: cut_ok_unfold [of n] cut_ok_unfold [of "with_plan n p"] cut_alike_def)

lemma cut_alike_in_subtree [simp]:
  "cut_alike (ap_plan (add_order_by_columns_in_subtree d cols n)) (ap_plan n)"
  by (cases n) (auto split: option.split intro: add_columns_safe_alike)

lemma cut_alike_to_exchange_children [simp]:
  "cut_alike (ap_plan (add_order_by_columns_to_exchange_children d cols n)) (ap_plan n)"
  by (cases n) (auto split: option.split intro: add_columns_safe_alike)

text \<open>Replacing the inputs of a node by inputs that are cut alike.\<close>

lemma cut_ok_map:
  assumes "cut_ok (AnnotatedPlan p a ex pre cs)" "cut_alike p' p"
    and "\<And>c. c \<in> set cs \<Longrightarrow> cut_ok (f c) \<and> cut_alike (ap_plan (f c)) (ap_plan c) \<and>
      exchange_before (f c) = exchange_before c"
  shows "cut_ok (AnnotatedPlan p' a ex pre (map f cs))"
  using assms by (auto simp: cut_alike_def)

lemma cut_ok_in_subtree: "cut_ok n \<Longrightarrow> cut_ok (add_order_by_columns_in_subtree d cols n)"
proof (induction n rule: tree_size.induct)
  case (1 p a ex pre cs)
  then have cs: "\<And>c. c \<in> set cs \<Longrightarrow> cut_ok c" by simp
  show ?case
  proof (cases "add_columns_to_plan_safe d p cols")
    case None
    with 1 cs show ?thesis by (auto intro!: cut_ok_map simp del: cut_ok.simps)
  next
    case (Some p')
    with cut_ok_map [OF "1.prems" add_columns_safe_alike [OF Some], of id] cs show ?thesis by simp
  qed
qed

lemma cut_ok_to_exchange_children:
  "cut_ok n \<Longrightarrow> cut_ok (add_order_by_columns_to_exchange_children d cols n)"
proof (induction n rule: tree_size.induct)
  case (1 p a ex pre cs)
  then have cs: "\<And>c. c \<in> set cs \<Longrightarrow> cut_ok c" by simp
  show ?case
    unfolding add_order_by_columns_to_exchange_children.simps
    using 1 cs by (intro cut_ok_map)
      (auto split: option.split intro: add_columns_safe_alike cut_ok_with_plan cut_ok_in_subtree
        simp del: cut_ok.simps)
qed

lemma cut_ok_push:
  assumes "cut_ok c" "cols \<noteq> [] \<longrightarrow> exchange_before c \<noteq> None \<longrightarrow> \<not> loses_inputs (ap_plan c)"
  shows "cut_ok (push_columns_into_child d cols c)"
  using assms
  by (auto simp: push_columns_into_child_def intro: cut_ok_with_plan add_columns_alike
      cut_ok_to_exchange_children)

text \<open>
  For the code to run through it is enough that a node has at least the inputs of its
  operator and that no leaf is the exchanged input of a sort: a join or a set operation that
  is wrapped loses its second input, but the index of the first one is in range.
\<close>

fun cut_safe :: "annotated_plan \<Rightarrow> bool" where
  "cut_safe (AnnotatedPlan p a ex pre cs) \<longleftrightarrow> length (plan_children p) \<le> length cs \<and>
     (sort_order_by_columns p \<noteq> [] \<longrightarrow>
        (\<forall>c\<in>set cs. exchange_before c \<noteq> None \<longrightarrow> \<not> is_leaf (ap_plan c))) \<and>
     (\<forall>c\<in>set cs. cut_safe c)"

lemma cut_safe_unfold:
  "cut_safe n \<longleftrightarrow> length (plan_children (ap_plan n)) \<le> length (ap_children n) \<and>
     (sort_order_by_columns (ap_plan n) \<noteq> [] \<longrightarrow>
        (\<forall>c\<in>set (ap_children n). exchange_before c \<noteq> None \<longrightarrow> \<not> is_leaf (ap_plan c))) \<and>
     (\<forall>c\<in>set (ap_children n). cut_safe c)"
  by (cases n) simp

lemma is_leaf_loses: "is_leaf p \<Longrightarrow> loses_inputs p"
  by (cases p) simp_all

lemma cut_ok_safe: "cut_ok n \<Longrightarrow> cut_safe n"
  by (induction n rule: tree_size.induct) (auto dest: is_leaf_loses)

definition no_harder :: "logical_plan \<Rightarrow> logical_plan \<Rightarrow> bool" where
  "no_harder p q \<longleftrightarrow> length (plan_children p) \<le> length (plan_children q) \<and>
     (sort_order_by_columns p = [] \<or> sort_order_by_columns p = sort_order_by_columns q) \<and>
     (is_leaf p \<longrightarrow> is_leaf q)"

lemma no_harder_refl [simp]: "no_harder p p"
  by (simp add: no_harder_def)

lemma add_columns_no_harder: "\<not> is_leaf p \<Longrightarrow> no_harder (add_columns_to_plan d p cols) p"
proof (cases cols)
  case (Cons c cols')
  assume p: "\<not> is_leaf p"
  show ?thesis
  proof (cases p)
    case (Limit q l f)
    then show ?thesis by (cases q) (simp_all add: Cons no_harder_def)
  qed (use p Cons in \<open>simp_all add: no_harder_def\<close>)
qed simp

lemma add_columns_safe_no_harder:
  "add_columns_to_plan_safe d p cols = Some p' \<Longrightarrow> no_harder p' p"
  by (cases p) (auto simp: add_columns_to_plan_safe_def split: if_splits intro!: add_columns_no_harder)

lemma cut_safe_map:
  assumes "cut_safe (AnnotatedPlan p a ex pre cs)" "no_harder p' p"
    and "\<And>c. c \<in> set cs \<Longrightarrow> cut_safe (f c) \<and> no_harder (ap_plan (f c)) (ap_plan c) \<and>
      exchange_before (f c) = exchange_before c"
  shows "cut_safe (AnnotatedPlan p' a ex pre (map f cs))"
  using assms by (auto simp: no_harder_def)

lemma cut_safe_with_plan: "cut_safe n \<Longrightarrow> no_harder p (ap_plan n) \<Longrightarrow> cut_safe (with_plan n p)"
  by (auto simp: cut_safe_unfold [of n] cut_safe_unfold [of "with_plan n p"] no_harder_def)

lemma no_harder_in_subtree [simp]:
  "no_harder (ap_plan (add_order_by_columns_in_subtree d cols n)) (ap_plan n)"
  by (cases n) (auto split: option.split intro: add_columns_safe_no_harder)

lemma no_harder_to_exchange_children [simp]:
  "no_harder (ap_plan (add_order_by_columns_to_exchange_children d cols n)) (ap_plan n)"
  by (cases n) (auto split: option.split intro: add_columns_safe_no_harder)

lemma cut_safe_in_subtree: "cut_safe n \<Longrightarrow> cut_safe (add_order_by_columns_in_subtree d cols n)"
proof (induction n rule: tree_size.induct)
  case (1 p a ex pre cs)
  then have cs: "\<And>c. c \<in> set cs \<Longrightarrow> cut_safe c" by simp
  show ?case
  proof (cases "add_columns_to_plan_safe d p cols")
    case None
    with 1 cs show ?thesis by (auto intro!: cut_safe_map simp del: cut_safe.simps)
  next
    case (Some p')
    with cut_safe_map [OF "1.prems" add_columns_safe_no_harder [OF Some], of id] cs
    show ?thesis by simp
  qed
qed

lemma cut_safe_to_exchange_children:
  "cut_safe n \<Longrightarrow> cut_safe (add_order_by_columns_to_exchange_children d cols n)"
proof (induction n rule: tree_size.induct)
  case (1 p a ex pre cs)
  then have cs: "\<And>c. c \<in> set cs \<Longrightarrow> cut_safe c" by simp
  show ?case
    unfolding add_order_by_columns_to_exchange_children.simps
    using 1 cs by (intro cut_safe_map)
      (auto split: option.split intro: add_columns_safe_no_harder cut_safe_with_plan cut_safe_in_subtree
        simp del: cut_safe.simps)
qed

lemma cut_safe_push:
  assumes "cut_safe c" "cols \<noteq> [] \<longrightarrow> exchange_before c \<noteq> None \<longrightarrow> \<not> is_leaf (ap_plan c)"
  shows "cut_safe (push_columns_into_child d cols c)"
  using assms
  by (auto simp: push_columns_into_child_def intro: cut_safe_with_plan add_columns_no_harder
      cut_safe_to_exchange_children)

lemma reconstruct_Some:
  "length (plan_children p) \<le> length cs \<Longrightarrow> \<exists>q. reconstruct_plan_with_children p cs = Some q"
  by (cases p) (auto simp: Suc_le_length_iff)

lemma cut_total:
  "cut_safe n \<Longrightarrow> \<exists>r. cut_recursive d n plan ctx = Some r"
  "cut_safe n \<Longrightarrow> \<exists>r. extract_stage_plan d n plan ctx = Some r"
  "\<forall>c\<in>set cs. cut_safe c \<and> (cols \<noteq> [] \<longrightarrow> exchange_before c \<noteq> None \<longrightarrow> \<not> is_leaf (ap_plan c)) \<Longrightarrow>
     \<exists>kids r. cut_children d cols cs plan ctx = Some (kids, r) \<and> length kids = length cs"
proof (induction d n plan ctx and d n plan ctx and d cols cs plan ctx
    rule: cut_recursive_extract_stage_plan_cut_children.induct)
  case (1 d n plan ctx)
  then obtain kids r where k: "cut_children d (sort_order_by_columns (ap_plan n)) (ap_children n) plan ctx =
      Some (kids, r)" "length kids = length (ap_children n)"
    by (auto simp: cut_safe_unfold [of n])
  from 1(2) k(2) reconstruct_Some [of "ap_plan n" kids]
  obtain q where "reconstruct_plan_with_children (ap_plan n) kids = Some q"
    by (auto simp: cut_safe_unfold [of n])
  with k(1) show ?case by (cases r) (simp add: cut_recursive.simps [of d n] Let_def del: split_paired_Ex)
next
  case (2 d n plan ctx)
  show ?case
  proof (cases "ap_children n = []")
    case True
    then show ?thesis by (simp add: extract_stage_plan.simps [of d n])
  next
    case False
    with 2 obtain kids r where k: "cut_children d [] (ap_children n) plan ctx = Some (kids, r)"
      "length kids = length (ap_children n)"
      by (auto simp: cut_safe_unfold [of n])
    from 2(2) k(2) reconstruct_Some [of "ap_plan n" kids]
    obtain q where "reconstruct_plan_with_children (ap_plan n) kids = Some q"
      by (auto simp: cut_safe_unfold [of n])
    with k(1) False show ?thesis by (cases r) (simp add: extract_stage_plan.simps [of d n])
  qed
next
  case (3 d cols plan ctx)
  then show ?case by (simp add: cut_children.simps)
next
  case (4 d cols c cs plan ctx)
  then have ok: "cut_safe (push_columns_into_child d cols c)" by (simp add: cut_safe_push)
  show ?case
  proof (cases "exchange_before c")
    case (Some ex)
    from "4.IH"(3) [OF refl Some ok] obtain f plan1 ctx1 where
      r: "cut_recursive d (push_columns_into_child d cols c) plan ctx = Some (f, plan1, ctx1)" by auto
    obtain x ctx2 where a: "alloc_exchange_id ctx1 = (x, ctx2)" by fastforce
    from "4.IH"(4) [OF refl Some r refl refl a [symmetric] refl] "4.prems" Some r a show ?thesis
      by (auto simp: cut_children.simps(2) [of d cols c] Let_def)
  next
    case None
    from "4.IH"(1) [OF refl None ok] obtain q pend1 plan1 ctx1 where
      e: "extract_stage_plan d (push_columns_into_child d cols c) plan ctx = Some (q, pend1, plan1, ctx1)"
      by auto
    from "4.IH"(2) [OF refl None e refl refl refl] "4.prems" None e show ?thesis
      by (auto simp: cut_children.simps(2) [of d cols c] Let_def)
  qed
qed

section \<open>Properties\<close>

text \<open>
  A query that sorts the rows of two workers at the coordinator: the input of the sort is
  gathered, and the projection and the scan run in one stage on both workers.
\<close>

definition sample_column :: expr where
  "sample_column = Identifier (ident_new ''c'')"

definition sample_scan :: logical_plan where
  "sample_scan = Scan ''t'' None (OtherFactor ''t'')"

definition sample_annotation :: "distribution \<Rightarrow> distribution_annotation" where
  "sample_annotation d = annotation_new d 10 100"

definition sample_tree :: annotated_plan where
  "sample_tree =
     (let both = EpochPartitioned [WorkerId ''w2'', WorkerId ''w1''];
          home = Singleton (WorkerId ''w1'');
          scan = AnnotatedPlan sample_scan (sample_annotation both) None None [];
          project = AnnotatedPlan (Project sample_scan [UnnamedExpr sample_column])
            (sample_annotation home) (Some (Gather (WorkerId ''w1''))) (Some both) [scan]
      in AnnotatedPlan (Sort (Project sample_scan [UnnamedExpr sample_column])
           [OrderByExpr sample_column []]) (sample_annotation home) None None [project])"

lemma sample_tree_cut:
  "cut_ok sample_tree" "cut_safe sample_tree" "inner_exchanges sample_tree = 1"
  by (simp_all add: sample_tree_def sample_scan_def sample_column_def Let_def extract_order_by_columns_def)

text \<open>
  C23. Cutting a tree whose nodes have the inputs of their operators, and in which no leaf is
  the exchanged input of a sort, never indexes out of range: it returns a plan.
\<close>

theorem cut_runs_through:
  assumes "cut_safe root"
  shows "\<exists>plan. cut_into_stages d root policy qid pc = Some plan"
  using cut_total(1) [OF assms, of d "ldp_plan_new (QueryId qid) (policy_coordinator policy)"
      "cut_context_new pc"]
  by (auto simp: cut_into_stages_def Let_def)

theorem cut_runs_through_witness:
  "cut_safe sample_tree \<and>
   (\<forall>d policy qid pc. \<exists>plan. cut_into_stages d sample_tree policy qid pc = Some plan)"
  using cut_runs_through [OF sample_tree_cut(2)] sample_tree_cut(2) by blast

lemma cut_final_root:
  assumes "cut_into_stages d root policy qid pc = Some plan" "inner_exchanges root < 2 ^ 32 - 1"
  shows "map_option stage_id (final_stage plan) = Some (root_stage plan)"
proof -
  note num = cut_numbering [OF assms]
  have "length (map (\<lambda>s. stage_index (stage_id s)) (stages plan)) = Suc (inner_exchanges root)"
    unfolding num(1) by simp
  then have "stages plan \<noteq> []" by auto
  moreover have "stage_index (stage_id (last (stages plan))) = inner_exchanges root"
    using num(1) \<open>stages plan \<noteq> []\<close> last_map [of "stages plan" "\<lambda>s. stage_index (stage_id s)"] by simp
  ultimately show ?thesis
    using num(2) stage_counter.num_inj by (simp add: final_stage_def)
qed

text \<open>
  C4. The stages of a cut plan form a tree that leads to the root stage: there is one stage
  more than exchanges below the root, stage and exchange numbers are unique, the graph is
  acyclic and all its edges join stages of the plan, every stage but the root is read by
  exactly one other stage, and the root is the last stage and is read by none.
\<close>

theorem cut_plan_tree:
  assumes "cut_into_stages d root policy qid pc = Some plan"
    and "inner_exchanges root < 2 ^ 32 - 1"
  shows "plan_dag plan \<and> length (stages plan) = Suc (inner_exchanges root) \<and>
    distinct (map edge_id (edges plan)) \<and>
    map_option stage_id (final_stage plan) = Some (root_stage plan) \<and>
    (\<forall>s \<in> stage_ids plan. length (downstream_stages plan s) = (if s = root_stage plan then 0 else 1))"
proof (intro conjI ballI)
  note num = cut_numbering [OF assms]
  show "plan_dag plan" by (rule cut_plan_dag [OF assms])
  have len: "length (map (\<lambda>s. stage_index (stage_id s)) (stages plan)) = Suc (inner_exchanges root)"
    unfolding num(1) by simp
  then show "length (stages plan) = Suc (inner_exchanges root)" by simp
  have "distinct (map (\<lambda>e. exchange_index (edge_id e)) (edges plan))"
    using num(4) by (metis distinct_upt mset_eq_imp_distinct_iff)
  then show "distinct (map edge_id (edges plan))" by (rule distinct_by_index)
  show "map_option stage_id (final_stage plan) = Some (root_stage plan)" by (rule cut_final_root [OF assms])
  fix s assume "s \<in> stage_ids plan"
  then have "stage_index s \<in> set (map (\<lambda>s. stage_index (stage_id s)) (stages plan))"
    by (auto simp: stage_ids_def)
  then have "stage_index s < Suc (inner_exchanges root)"
    unfolding num(1) set_upt atLeastLessThan_iff by (rule conjunct2)
  moreover have "stage_index s = inner_exchanges root \<longleftrightarrow> s = root_stage plan"
    using num(2) stage_counter.num_inj by metis
  ultimately show "length (downstream_stages plan s) = (if s = root_stage plan then 0 else 1)"
    unfolding length_downstream num(3) count_upt using num(2) by (auto simp: less_Suc_eq)
qed

theorem cut_plan_tree_witness:
  "\<forall>d policy qid pc. \<exists>plan. cut_into_stages d sample_tree policy qid pc = Some plan \<and>
     plan_dag plan \<and> length (stages plan) = 2"
proof (intro allI)
  fix d policy qid pc
  obtain plan where c: "cut_into_stages d sample_tree policy qid pc = Some plan"
    using cut_total(1) [OF sample_tree_cut(2), of d
      "ldp_plan_new (QueryId qid) (policy_coordinator policy)" "cut_context_new pc"]
    by (auto simp: cut_into_stages_def Let_def)
  have "inner_exchanges sample_tree < 2 ^ 32 - 1" by (simp add: sample_tree_cut(3))
  from cut_plan_tree [OF c this] c show "\<exists>plan. cut_into_stages d sample_tree policy qid pc =
      Some plan \<and> plan_dag plan \<and> length (stages plan) = 2"
    by (simp add: sample_tree_cut(3))
qed

text \<open>The stages before the root's output is set, with their annotations.\<close>

lemma cut_stages_annotated:
  assumes "cut_recursive d root (ldp_plan_new q c) (cut_context_new pc) = Some (i, plan1, ctx1)"
    and "inner_exchanges root < 2 ^ 32 - 1" "s \<in> set (stages plan1)"
  obtains m where "m \<in> set (nodes root)" "stage_annotations ctx1 (stage_id s) = Some (stage_annotation m)"
proof -
  have "room_for (cut_context_new pc) (inner_exchanges root)" using assms(2) by (simp add: room_for_def)
  with cut_grows(1) [OF assms(1)] have "stage_id s \<in> dom (stage_annotations ctx1)"
    using assms(3) by (auto simp: grows_def grows_by_def ldp_plan_new_def)
  then obtain ann where ann: "stage_annotations ctx1 (stage_id s) = Some ann" by blast
  then have "ann \<in> ran (stage_annotations ctx1)" by (rule ranI)
  with cut_annotations(1) [OF assms(1)] have "ann \<in> node_annotations root"
    by (auto simp: cut_context_new_def)
  with ann that show thesis by blast
qed

lemma same_stages:
  assumes "stages plan = set_root_output i ss"
  shows "s \<in> set (stages plan) \<Longrightarrow> \<exists>s'\<in>set ss. stage_id s = stage_id s' \<and> target_workers s = target_workers s'"
    and "s' \<in> set ss \<Longrightarrow> \<exists>s\<in>set (stages plan). stage_id s = stage_id s' \<and> target_workers s = target_workers s'"
proof -
  have "map (\<lambda>s. (stage_id s, target_workers s)) (stages plan) =
      map (\<lambda>s. (stage_id s, target_workers s)) ss"
    unfolding assms by (rule map_set_root_output) simp
  from arg_cong [OF this, of set]
  have img: "(\<lambda>s. (stage_id s, target_workers s)) ` set (stages plan) =
      (\<lambda>s. (stage_id s, target_workers s)) ` set ss" by simp
  show "\<exists>s'\<in>set ss. stage_id s = stage_id s' \<and> target_workers s = target_workers s'"
    if "s \<in> set (stages plan)"
    using imageI [OF that, of "\<lambda>s. (stage_id s, target_workers s)"] unfolding img by auto
  show "\<exists>s\<in>set (stages plan). stage_id s = stage_id s' \<and> target_workers s = target_workers s'"
    if "s' \<in> set ss"
    using imageI [OF that, of "\<lambda>s. (stage_id s, target_workers s)"] unfolding img [symmetric] by auto
qed

lemma find_stage:
  "i \<in> stage_id ` set ss \<Longrightarrow>
     \<exists>s. find (\<lambda>s. stage_id s = i) ss = Some s \<and> s \<in> set ss \<and> stage_id s = i"
  by (induction ss) auto

lemma cut_stage_workers:
  assumes "cut_into_stages d root policy qid pc = Some plan"
    and "inner_exchanges root < 2 ^ 32 - 1" and "s \<in> set (stages plan)"
  shows "workers_valid (target_workers s)"
    and "\<exists>m \<in> set (nodes root). set (target_workers s) =
      placement (coordinator plan) (distribution (stage_annotation m))"
proof -
  from assms(1) obtain i plan1 ctx1 ss where
    r: "cut_recursive d root (ldp_plan_new (QueryId qid) (policy_coordinator policy))
       (cut_context_new pc) = Some (i, plan1, ctx1)"
    and ss: "ss = map (assign_target_workers (coordinator plan1) ctx1) (stages plan1)"
    and pl: "stages plan = set_root_output i ss" "edges plan = map (assign_partitions ss) (edges plan1)"
      "root_stage plan = i" "coordinator plan = coordinator plan1"
    by (rule cut_into_stages_SomeE)
  from assms(3) same_stages(1) [OF pl(1)] ss obtain s1 where s1: "s1 \<in> set (stages plan1)"
    "target_workers s = target_workers (assign_target_workers (coordinator plan1) ctx1 s1)" by auto
  from cut_stages_annotated [OF r assms(2) s1(1)] obtain m where "m \<in> set (nodes root)"
    "stage_annotations ctx1 (stage_id s1) = Some (stage_annotation m)" .
  with target_workers_assigned [OF this(2)] show "workers_valid (target_workers s)"
    and "\<exists>m \<in> set (nodes root). set (target_workers s) =
         placement (coordinator plan) (distribution (stage_annotation m))"
    unfolding s1(2) pl(4) by auto
qed



end
