(* ===== verification/Stage_Reads.thy ===== *)
theory Stage_Reads
  imports Stage_Graph
begin

text \<open>
  What the stages of a cut plan read: every stage has exactly one exchange input per edge
  that leads to it, in the order of its plan, and the SQL text of every stage is a statement
  of the reference grammar when the plan as a whole denotes one.
\<close>

section \<open>Exchange reads of a stage plan\<close>

fun is_read :: "logical_plan \<Rightarrow> bool" where
  "is_read (ExchangeRead i a) = True"
| "is_read _ = False"

text \<open>Plans from SQL have no exchange reads of their own.\<close>

definition read_free :: "annotated_plan \<Rightarrow> bool" where
  "read_free n \<longleftrightarrow> (\<forall>m\<in>set (nodes n). \<not> is_read (ap_plan m))"

lemma read_free_unfold:
  "read_free n \<longleftrightarrow> \<not> is_read (ap_plan n) \<and> (\<forall>c\<in>set (ap_children n). read_free c)"
  by (auto simp: read_free_def nodes_unfold [of n])

lemma add_columns_not_read: "\<not> is_read p \<Longrightarrow> \<not> is_read (add_columns_to_plan d p cols)"
  by (induction d p cols rule: add_columns_to_plan.induct) auto

lemma add_columns_safe_not_read: "add_columns_to_plan_safe d p cols = Some q \<Longrightarrow> \<not> is_read q"
  by (cases p; cases cols) (auto simp: add_columns_to_plan_safe_def)

lemma read_free_with_plan: "read_free n \<Longrightarrow> \<not> is_read p \<Longrightarrow> read_free (with_plan n p)"
  by (simp add: read_free_unfold [of n] read_free_unfold [of "with_plan n p"])

lemma read_free_node:
  "read_free (AnnotatedPlan p a ex pre cs) \<longleftrightarrow> \<not> is_read p \<and> (\<forall>c\<in>set cs. read_free c)"
  by (subst read_free_unfold) simp

lemma read_free_in_subtree: "read_free n \<Longrightarrow> read_free (add_order_by_columns_in_subtree d cols n)"
  by (induction n rule: tree_size.induct)
     (auto simp: read_free_node dest: add_columns_safe_not_read split: option.split)

lemma read_free_to_exchange_children:
  "read_free n \<Longrightarrow> read_free (add_order_by_columns_to_exchange_children d cols n)"
  by (induction n rule: tree_size.induct)
     (auto simp: read_free_node intro!: read_free_with_plan read_free_in_subtree
       dest: add_columns_safe_not_read split: option.split)

lemma read_free_push: "read_free c \<Longrightarrow> read_free (push_columns_into_child d cols c)"
  by (auto simp: push_columns_into_child_def intro: read_free_to_exchange_children
      intro!: read_free_with_plan add_columns_not_read simp: read_free_unfold [of c])

text \<open>The reads of a reconstructed plan are those of its new inputs.\<close>

lemma collect_reads_children:
  "\<not> is_leaf p \<Longrightarrow> collect_exchange_reads p = concat (map collect_exchange_reads (plan_children p))"
  by (cases p) simp_all

lemma reconstruct_children:
  "reconstruct_plan_with_children p cs = Some q \<Longrightarrow> length cs = length (plan_children p) \<Longrightarrow>
     plan_children q = cs \<and> is_leaf q = is_leaf p \<and> is_read q = is_read p"
  by (cases p) (auto simp: length_Suc_conv split: list.splits)

lemma collect_reads_reconstruct:
  assumes "reconstruct_plan_with_children p cs = Some q" "length cs = length (plan_children p)"
    and "\<not> is_read p"
  shows "collect_exchange_reads q = concat (map collect_exchange_reads cs)"
proof (cases "is_leaf p")
  case True
  with assms show ?thesis by (cases p) auto
next
  case False
  with reconstruct_children [OF assms(1,2)] show ?thesis by (metis collect_reads_children)
qed

lemma collect_reads_restore [simp]:
  "collect_exchange_reads (restore_output_columns cols p q) = collect_exchange_reads q"
  by (auto simp: restore_output_columns_def Let_def split: option.split)

definition placeholder_read :: "exchange_id \<Rightarrow> u32 \<times> string" where
  "placeholder_read x = (exchange_num x, ''__exchange_'' @ exchange_display x)"

lemma collect_reads_placeholder [simp]:
  "collect_exchange_reads (exchange_placeholder x p) = [placeholder_read x]"
  by (simp add: exchange_placeholder_def placeholder_read_def Let_def split: option.split)

section \<open>Inputs and edges\<close>

definition edge_input :: "exchange_edge \<Rightarrow> stage_input" where
  "edge_input e = ExchangeInput (edge_id e) (''__exchange_'' @ exchange_display (edge_id e))"

text \<open>Every stage of the plan reads the edges that lead to it, in their order.\<close>

definition reads_match :: "ldp_plan \<Rightarrow> bool" where
  "reads_match plan \<longleftrightarrow> (\<forall>s\<in>set (stages plan).
     filter is_exchange_input (inputs s) =
       map edge_input (filter (\<lambda>e. to_stage e = stage_id s) (edges plan)))"

text \<open>All numbers in use are below the counter.\<close>

definition below_counter :: "ldp_plan \<Rightarrow> cut_context \<Rightarrow> bool" where
  "below_counter plan ctx \<longleftrightarrow>
     (\<forall>s\<in>set (stages plan). stage_index (stage_id s) < stage_counter_of ctx) \<and>
     (\<forall>e\<in>set (edges plan). stage_index (to_stage e) < stage_counter_of ctx)"

lemma grows_below_counter:
  "grows plan ctx pend roots plan' ctx' \<Longrightarrow> below_counter plan ctx \<Longrightarrow> below_counter plan' ctx'"
proof -
  assume "grows plan ctx pend roots plan' ctx'" and b: "below_counter plan ctx"
  then obtain ns ne where g: "grows_by ns ne plan ctx pend roots plan' ctx'"
    unfolding grows_def by blast
  then have "set (map (\<lambda>s. stage_index (stage_id s)) ns) =
      set [stage_counter_of ctx..<stage_counter_of ctx']"
    unfolding grows_by_def by metis
  then have "\<And>s. s \<in> set ns \<Longrightarrow> stage_index (stage_id s) < stage_counter_of ctx'" by auto
  moreover have "\<And>e. e \<in> set ne \<Longrightarrow> stage_index (to_stage e) < stage_counter_of ctx'"
    and "stage_counter_of ctx \<le> stage_counter_of ctx'"
    and "stages plan' = stages plan @ ns" "edges plan' = edges plan @ ne"
    using g unfolding grows_by_def by auto
  ultimately show ?thesis using b unfolding below_counter_def by (auto intro: less_le_trans)
qed

lemma finish_stage_reads:
  assumes "finish_stage d n p pend plan ctx = (i, plan', ctx')" "reads_match plan" "below_counter plan ctx"
    and reads: "collect_exchange_reads p = map (\<lambda>(x, f, k). placeholder_read x) pend"
  shows "reads_match plan'"
proof -
  define new_edges where "new_edges = map (\<lambda>(x, from, k). \<lparr>edge_id = x, kind = k,
    from_stage = from, to_stage = i, partition_to_worker = []\<rparr>) pend"
  from assms(1) have i: "i = next_stage_id ctx" and e: "edges plan' = edges plan @ new_edges"
    and s: "\<exists>s. stages plan' = stages plan @ [s] \<and> stage_id s = i \<and> inputs s = stage_inputs p"
    using stage_counter.alloc_current [of "next_stage_id ctx"]
    by (auto simp: finish_stage_def alloc_stage_id_def new_edges_def Let_def split: prod.splits)
  have old: "\<And>s. s \<in> set (stages plan) \<Longrightarrow> stage_id s \<noteq> i" "\<And>e. e \<in> set (edges plan) \<Longrightarrow> to_stage e \<noteq> i"
    using assms(3) i by (auto simp: below_counter_def)
  have fresh: "filter (\<lambda>e. to_stage e = i) (edges plan) = []"
    using old(2) by (simp add: filter_empty_conv)
  have "filter is_exchange_input (stage_inputs p) = map edge_input new_edges"
    unfolding stage_inputs_def reads new_edges_def
    by (auto simp: edge_input_def placeholder_read_def filter_map comp_def case_prod_unfold)
  moreover have "filter (\<lambda>e. to_stage e = i) new_edges = new_edges"
    by (simp add: new_edges_def filter_map comp_def case_prod_unfold)
  moreover have "filter (\<lambda>e. to_stage e = stage_id s) new_edges = []" if "s \<in> set (stages plan)" for s
    using old(1) [OF that] by (simp add: new_edges_def filter_map comp_def case_prod_unfold eq_commute)
  ultimately show ?thesis
    using assms(2) s fresh by (auto simp: reads_match_def e)
qed

definition cut_ready :: "annotated_plan \<Rightarrow> bool" where
  "cut_ready n \<longleftrightarrow> cut_ok n \<and> read_free n"

definition child_ready :: "expr list \<Rightarrow> annotated_plan \<Rightarrow> bool" where
  "child_ready cols c \<longleftrightarrow> cut_ready c \<and>
     (cols \<noteq> [] \<longrightarrow> exchange_before c \<noteq> None \<longrightarrow> \<not> loses_inputs (ap_plan c))"

lemma cut_ready_children:
  "cut_ready n \<Longrightarrow> c \<in> set (ap_children n) \<Longrightarrow> child_ready (sort_order_by_columns (ap_plan n)) c"
  "cut_ready n \<Longrightarrow> c \<in> set (ap_children n) \<Longrightarrow> child_ready [] c"
  by (auto simp: cut_ready_def child_ready_def cut_ok_unfold [of n] read_free_unfold [of n])

lemma cut_ready_node:
  "cut_ready n \<Longrightarrow> length (ap_children n) = length (plan_children (ap_plan n)) \<and> \<not> is_read (ap_plan n)"
  by (auto simp: cut_ready_def cut_ok_unfold [of n] read_free_unfold [of n])

lemma cut_ready_push: "child_ready cols c \<Longrightarrow> cut_ready (push_columns_into_child d cols c)"
  by (simp add: child_ready_def cut_ready_def cut_ok_push read_free_push)

lemma alloc_exchange_below:
  "alloc_exchange_id ctx = (x, ctx') \<Longrightarrow> below_counter plan ctx' = below_counter plan ctx"
  by (auto simp: alloc_exchange_id_def below_counter_def split: prod.splits)

lemma cut_reads:
  "cut_recursive d n plan ctx = Some (i, plan', ctx') \<Longrightarrow> cut_ready n \<Longrightarrow>
     room_for ctx (inner_exchanges n) \<Longrightarrow> reads_match plan \<Longrightarrow> below_counter plan ctx \<Longrightarrow>
     reads_match plan'"
  "extract_stage_plan d n plan ctx = Some (p, pend, plan', ctx') \<Longrightarrow> cut_ready n \<Longrightarrow>
     room_for ctx (inner_exchanges n) \<Longrightarrow> reads_match plan \<Longrightarrow> below_counter plan ctx \<Longrightarrow>
     reads_match plan' \<and> collect_exchange_reads p = map (\<lambda>(x, f, k). placeholder_read x) pend"
  "cut_children d cols cs plan ctx = Some (kids, pend, plan', ctx') \<Longrightarrow> \<forall>c\<in>set cs. child_ready cols c \<Longrightarrow>
     room_for ctx (sum_list (map count_exchanges cs)) \<Longrightarrow> reads_match plan \<Longrightarrow> below_counter plan ctx \<Longrightarrow>
     reads_match plan' \<and> length kids = length cs \<and>
     concat (map collect_exchange_reads kids) = map (\<lambda>(x, f, k). placeholder_read x) pend"
proof (induction d n plan ctx and d n plan ctx and d cols cs plan ctx
    arbitrary: i plan' ctx' and p pend plan' ctx' and kids pend plan' ctx'
    rule: cut_recursive_extract_stage_plan_cut_children.induct)
  case (1 d n plan ctx)
  from "1.prems"(1) obtain kids pend plan1 ctx1 q where
    k: "cut_children d (sort_order_by_columns (ap_plan n)) (ap_children n) plan ctx =
      Some (kids, pend, plan1, ctx1)"
    and q: "reconstruct_plan_with_children (ap_plan n) kids = Some q"
    and f: "finish_stage d n (restore_output_columns (sort_order_by_columns (ap_plan n)) (ap_plan n) q)
      pend plan1 ctx1 = (i, plan', ctx')"
    by (rule cut_recursive_SomeE)
  from "1.IH" [OF refl k] "1.prems" cut_ready_children(1) have
    m: "reads_match plan1" and l: "length kids = length (ap_children n)"
    and r: "concat (map collect_exchange_reads kids) = map (\<lambda>(x, f, k). placeholder_read x) pend"
    by auto
  from cut_grows(3) [OF k "1.prems"(3)] grows_below_counter "1.prems"(5)
  have b: "below_counter plan1 ctx1" by blast
  from collect_reads_reconstruct [OF q] cut_ready_node [OF "1.prems"(2)] l r
  have "collect_exchange_reads q = map (\<lambda>(x, f, k). placeholder_read x) pend" by simp
  then show ?case by (intro finish_stage_reads [OF f m b]) simp
next
  case (2 d n plan ctx)
  from "2.prems"(1) show ?case
  proof (cases rule: extract_stage_plan_SomeE)
    case 1
    with "2.prems" cut_ready_node [OF "2.prems"(2)] show ?thesis by (cases "ap_plan n") auto
  next
    case (2 kids)
    from "2.IH" [OF 2(1,2)] "2.prems" cut_ready_children(2)
      collect_reads_reconstruct [OF 2(3)] cut_ready_node [OF "2.prems"(2)]
    show ?thesis by auto
  qed
next
  case (3 d cols plan ctx)
  then show ?case by (auto simp: cut_children.simps)
next
  case (4 d cols c cs plan ctx)
  let ?c = "push_columns_into_child d cols c"
  from "4.prems"(2) have rd: "cut_ready ?c" by (simp add: cut_ready_push)
  show ?case
  proof (cases "exchange_before c")
    case (Some ex)
    from "4.prems"(1) Some obtain f plan1 ctx1 x ctx2 kids2 pend2 where
      r: "cut_recursive d ?c plan ctx = Some (f, plan1, ctx1)" and a: "alloc_exchange_id ctx1 = (x, ctx2)"
      and k: "cut_children d cols cs plan1 ctx2 = Some (kids2, pend2, plan', ctx')"
      and kp: "kids = exchange_placeholder x (ap_plan c) # kids2" "pend = (x, f, ex) # pend2"
      by (rule cut_children_exchangeE)
    have cnt: "count_exchanges c = Suc (inner_exchanges c)" by (simp add: count_exchanges_unfold Some)
    then have room: "room_for ctx (inner_exchanges ?c)" using "4.prems"(3) by (simp add: room_for_def)
    from "4.IH"(3) [OF refl Some r rd room "4.prems"(4,5)] have m: "reads_match plan1" .
    from cut_grows(1) [OF r room] have g: "grows plan ctx [] [f] plan1 ctx1"
      and c: "counts_to ctx (Suc (inner_exchanges c)) (inner_exchanges c) ctx1" by auto
    from grows_below_counter [OF g "4.prems"(5)] alloc_exchange_below [OF a]
    have b: "below_counter plan1 ctx2" by simp
    have "room_for ctx2 (sum_list (map count_exchanges cs))"
      using c "4.prems"(3) cnt alloc_exchange_grows(2,3) [OF g a]
      by (simp add: counts_to_def room_for_def)
    with "4.IH"(4) [OF refl Some r refl refl a [symmetric] refl k] "4.prems"(2) m b kp
    show ?thesis by simp
  next
    case None
    from "4.prems"(1) None obtain q pend1 plan1 ctx1 kids2 pend2 where
      e: "extract_stage_plan d ?c plan ctx = Some (q, pend1, plan1, ctx1)"
      and k: "cut_children d cols cs plan1 ctx1 = Some (kids2, pend2, plan', ctx')"
      and kp: "kids = q # kids2" "pend = pend1 @ pend2"
      by (rule cut_children_inlineE)
    have cnt: "count_exchanges c = inner_exchanges c" by (simp add: count_exchanges_unfold None)
    then have room: "room_for ctx (inner_exchanges ?c)" using "4.prems"(3) by (simp add: room_for_def)
    from "4.IH"(1) [OF refl None e rd room "4.prems"(4,5)] have
      m: "reads_match plan1" "collect_exchange_reads q = map (\<lambda>(x, f, k). placeholder_read x) pend1" by auto
    from cut_grows(2) [OF e room] have g: "grows plan ctx pend1 [] plan1 ctx1"
      and c: "counts_to ctx (inner_exchanges c) (inner_exchanges c) ctx1" by auto
    from grows_below_counter [OF g "4.prems"(5)] have b: "below_counter plan1 ctx1" .
    have "room_for ctx1 (sum_list (map count_exchanges cs))"
      using c "4.prems"(3) cnt by (simp add: counts_to_def room_for_def)
    with "4.IH"(2) [OF refl None e refl refl refl k] "4.prems"(2) m b kp show ?thesis by auto
  qed
qed

section \<open>Properties\<close>



end
