(* ===== verification/Plan_Builder.thy ===== *)
theory Plan_Builder
  imports Logical_Plan Rust_Text
begin

text \<open>
  \<^verbatim>\<open>sql/plan_builder.rs\<close>: from the syntax tree of a SELECT statement to a logical plan.
  The builder replaces a reference to a common table expression (CTE) by the plan of its
  query; the recursion of the source follows these references and is bounded by its stack
  only. The model counts the expansions down from a given depth, and
  \<open>StackExhausted\<close> is the result when the count is used up.
\<close>

section \<open>Names and columns\<close>

datatype plan_build_error =
    UnsupportedStatement string
  | UnsupportedFeature string
  | InternalError string

fun plan_build_error_display :: "plan_build_error \<Rightarrow> string" where
  "plan_build_error_display (UnsupportedStatement s) = ''unsupported statement: '' @ s"
| "plan_build_error_display (UnsupportedFeature s) = ''unsupported SQL feature: '' @ s"
| "plan_build_error_display (InternalError s) = ''internal plan build error: '' @ s"

datatype build_stop = BuildError plan_build_error | StackExhausted

record build_result =
  br_plan :: logical_plan
  br_context :: plan_context

text \<open>\<open>str::to_lowercase\<close>, for names whose letters are ASCII.\<close>

definition to_lowercase :: "string \<Rightarrow> string" where
  "to_lowercase = map ascii_lower"

definition object_name_to_string :: "sql_display \<Rightarrow> object_name \<Rightarrow> string" where
  "object_name_to_string d name =
     (if name = [] then []
      else case last name of IdentPart i \<Rightarrow> ident_value i | OtherPart s \<Rightarrow> fmt_name_part d (OtherPart s))"

fun statement_name :: "statement \<Rightarrow> string" where
  "statement_name (QueryStmt q) = ''SELECT''"
| "statement_name InsertStmt = ''INSERT''"
| "statement_name UpdateStmt = ''UPDATE''"
| "statement_name DeleteStmt = ''DELETE''"
| "statement_name CreateTableStmt = ''CREATE TABLE''"
| "statement_name DropStmt = ''DROP''"
| "statement_name (OtherStmt s) = ''UNKNOWN''"

text \<open>The last two parts of a compound name are its qualifier and its column.\<close>

fun expr_to_column_ref :: "expr \<Rightarrow> column_ref option" where
  "expr_to_column_ref (Identifier i) = Some (unqualified_ref (ident_value i))"
| "expr_to_column_ref (CompoundIdentifier parts) =
     (if 2 \<le> length parts
      then Some (qualified_ref (ident_value (parts ! (length parts - 2)))
                  (ident_value (parts ! (length parts - 1))))
      else None)"
| "expr_to_column_ref _ = None"

definition is_from_tables :: "column_ref \<Rightarrow> string list \<Rightarrow> bool" where
  "is_from_tables col tables = (case cr_table col of
     Some t \<Rightarrow> list_ex (\<lambda>name. eq_ignore_ascii_case name t) tables
   | None \<Rightarrow> False)"

fun collect_table_names :: "logical_plan \<Rightarrow> string list" where
  "collect_table_names (Scan t alias f) =
     t # (case alias of Some a \<Rightarrow> [ident_value (alias_name a)] | None \<Rightarrow> [])"
| "collect_table_names (SubqueryScan p alias) = [ident_value (alias_name alias)]"
| "collect_table_names (ExchangeRead i alias) = [alias]"
| "collect_table_names p = concat (map collect_table_names (plan_children p))"

section \<open>Join keys\<close>

fun extract_equi_keys :: "expr \<Rightarrow> string list \<Rightarrow> string list \<Rightarrow> (column_ref \<times> column_ref) list" where
  "extract_equi_keys (BinaryOp l op r) left_tables right_tables =
     (case op of
        Eq \<Rightarrow>
          (case (expr_to_column_ref l, expr_to_column_ref r) of
             (Some l_ref, Some r_ref) \<Rightarrow>
               if is_from_tables l_ref left_tables \<and> is_from_tables r_ref right_tables
               then [(l_ref, r_ref)]
               else if is_from_tables l_ref right_tables \<and> is_from_tables r_ref left_tables
               then [(r_ref, l_ref)]
               else []
           | _ \<Rightarrow> [])
      | And \<Rightarrow> extract_equi_keys l left_tables right_tables @ extract_equi_keys r left_tables right_tables
      | _ \<Rightarrow> [])"
| "extract_equi_keys (Nested e) left_tables right_tables = extract_equi_keys e left_tables right_tables"
| "extract_equi_keys _ left_tables right_tables = []"

definition extract_join_keys_from_operator ::
  "sql_display \<Rightarrow> join_operator \<Rightarrow> string list \<Rightarrow> string list \<Rightarrow> column_ref list \<times> column_ref list" where
  "extract_join_keys_from_operator d op left_tables right_tables =
     (case extract_join_constraint op of
        Some (On e) \<Rightarrow> (let ks = extract_equi_keys e left_tables right_tables in (map fst ks, map snd ks))
      | Some (Using columns) \<Rightarrow>
          (let ks = map (\<lambda>c. unqualified_ref (object_name_to_string d c)) columns in (ks, ks))
      | _ \<Rightarrow> ([], []))"

section \<open>Grouping, windows and aggregates\<close>

fun extract_group_keys :: "group_by_expr \<Rightarrow> column_ref list" where
  "extract_group_keys (GroupByAll m) = []"
| "extract_group_keys (GroupByExpressions es m) = List.map_filter expr_to_column_ref es"

text \<open>The window specifications of an expression, in the order in which they are visited.\<close>

fun for_each_window_spec :: "expr \<Rightarrow> expr list list" where
  "for_each_window_spec (Function name args over rest) =
     (case over of Some (WindowSpec partition_by r) \<Rightarrow> [partition_by] | _ \<Rightarrow> []) @
     (case args of
        ArgList xs r \<Rightarrow> concat (map (\<lambda>arg. case arg of
            UnnamedArg (ArgExpr e) \<Rightarrow> for_each_window_spec e
          | NamedArg i (ArgExpr e) \<Rightarrow> for_each_window_spec e
          | _ \<Rightarrow> []) xs)
      | OtherArguments r \<Rightarrow> [])"
| "for_each_window_spec (BinaryOp l op r) = for_each_window_spec l @ for_each_window_spec r"
| "for_each_window_spec (UnaryOp op e) = for_each_window_spec e"
| "for_each_window_spec (Nested e) = for_each_window_spec e"
| "for_each_window_spec (Case operand conditions else_result) =
     (case operand of Some e \<Rightarrow> for_each_window_spec e | None \<Rightarrow> []) @
     concat (map (\<lambda>cw. for_each_window_spec (when_condition cw) @
       for_each_window_spec (when_result cw)) conditions) @
     (case else_result of Some e \<Rightarrow> for_each_window_spec e | None \<Rightarrow> [])"
| "for_each_window_spec _ = []"

definition intersect_column_refs :: "column_ref list \<Rightarrow> column_ref list \<Rightarrow> column_ref list" where
  "intersect_column_refs xs ys = filter (\<lambda>x. list_ex (column_matches x) ys) xs"

fun item_expr :: "select_item \<Rightarrow> expr option" where
  "item_expr (UnnamedExpr e) = Some e"
| "item_expr (ExprWithAlias e a) = Some e"
| "item_expr _ = None"

definition window_specs :: "select_item list \<Rightarrow> expr list list" where
  "window_specs items = concat (map for_each_window_spec (List.map_filter item_expr items))"

definition extract_window_partition_keys :: "select_item list \<Rightarrow> column_ref list" where
  "extract_window_partition_keys items =
     (case fold (\<lambda>spec common.
          let keys = List.map_filter expr_to_column_ref spec
          in Some (case common of None \<Rightarrow> keys | Some prev \<Rightarrow> intersect_column_refs prev keys))
        (window_specs items) None of
        Some keys \<Rightarrow> keys
      | None \<Rightarrow> [])"

fun expr_has_window :: "expr \<Rightarrow> bool" where
  "expr_has_window (Function name args over rest) = (over \<noteq> None)"
| "expr_has_window (BinaryOp l op r) = (expr_has_window l \<or> expr_has_window r)"
| "expr_has_window (UnaryOp op e) = expr_has_window e"
| "expr_has_window (Nested e) = expr_has_window e"
| "expr_has_window (Case operand conditions else_result) =
     ((case operand of Some e \<Rightarrow> expr_has_window e | None \<Rightarrow> False) \<or>
      list_ex (\<lambda>cw. expr_has_window (when_condition cw) \<or> expr_has_window (when_result cw)) conditions \<or>
      (case else_result of Some e \<Rightarrow> expr_has_window e | None \<Rightarrow> False))"
| "expr_has_window _ = False"

definition select_item_has_window :: "select_item \<Rightarrow> bool" where
  "select_item_has_window item = (case item_expr item of Some e \<Rightarrow> expr_has_window e | None \<Rightarrow> False)"

definition aggregate_functions :: "string list" where
  "aggregate_functions =
     [''sum'', ''count'', ''avg'', ''min'', ''max'', ''count_star'', ''group_concat'', ''string_agg'',
      ''array_agg'', ''bool_and'', ''bool_or'', ''bit_and'', ''bit_or'', ''bit_xor'', ''stddev'',
      ''stddev_pop'', ''stddev_samp'', ''variance'', ''var_pop'', ''var_samp'', ''covar_pop'',
      ''covar_samp'', ''corr'', ''percentile_cont'', ''percentile_disc'', ''median'', ''mode'',
      ''approx_count_distinct'', ''approx_quantile'', ''first'', ''last'', ''any_value'', ''list'',
      ''histogram'', ''argmin'', ''argmax'', ''arg_min'', ''arg_max'', ''arbitrary'', ''kurtosis'',
      ''skewness'', ''entropy'', ''mad'', ''quantile'', ''reservoir_quantile'', ''regr_avgx'',
      ''regr_avgy'', ''regr_count'', ''regr_intercept'', ''regr_r2'', ''regr_slope'', ''regr_sxx'',
      ''regr_sxy'', ''regr_syy'']"

definition is_aggregate_function_name :: "sql_display \<Rightarrow> object_name \<Rightarrow> bool" where
  "is_aggregate_function_name d name =
     list_ex (\<lambda>agg. eq_ignore_ascii_case agg (object_name_to_string d name)) aggregate_functions"

fun expr_has_aggregate :: "sql_display \<Rightarrow> expr \<Rightarrow> bool" where
  "expr_has_aggregate d (Function name args over rest) =
     (if over \<noteq> None then False else is_aggregate_function_name d name)"
| "expr_has_aggregate d (BinaryOp l op r) = (expr_has_aggregate d l \<or> expr_has_aggregate d r)"
| "expr_has_aggregate d (UnaryOp op e) = expr_has_aggregate d e"
| "expr_has_aggregate d (Nested e) = expr_has_aggregate d e"
| "expr_has_aggregate d (Case operand conditions else_result) =
     ((case operand of Some e \<Rightarrow> expr_has_aggregate d e | None \<Rightarrow> False) \<or>
      list_ex (\<lambda>cw. expr_has_aggregate d (when_condition cw) \<or> expr_has_aggregate d (when_result cw))
        conditions \<or>
      (case else_result of Some e \<Rightarrow> expr_has_aggregate d e | None \<Rightarrow> False))"
| "expr_has_aggregate d _ = False"

definition select_item_has_aggregate :: "sql_display \<Rightarrow> select_item \<Rightarrow> bool" where
  "select_item_has_aggregate d item =
     (case item_expr item of Some e \<Rightarrow> expr_has_aggregate d e | None \<Rightarrow> False)"

section \<open>Queries\<close>

fun limit_and_offset :: "expr limit_clause option \<Rightarrow> expr option \<times> expr option" where
  "limit_and_offset None = (None, None)"
| "limit_and_offset (Some (LimitOffset l f)) = (l, f)"
| "limit_and_offset (Some (OffsetCommaLimit f l)) = (Some l, Some f)"

text \<open>A FETCH clause counts as a LIMIT when there is none.\<close>

definition extract_limit_offset :: "query \<Rightarrow> expr option \<times> expr option" where
  "extract_limit_offset q =
     (let (l, f) = limit_and_offset (query_limit q)
      in (if l = None then (case query_fetch q of Some quantity \<Rightarrow> quantity | None \<Rightarrow> None) else l, f))"

fun query_has_from :: "query \<Rightarrow> bool"
  and set_expr_has_from :: "set_expr \<Rightarrow> bool"
where
  "query_has_from (Query w body os lim fetch rest) =
     (case body of
        SelectBody s \<Rightarrow> sel_from s \<noteq> []
      | QueryBody q \<Rightarrow> query_has_from q
      | SetOperation op k l r \<Rightarrow> set_expr_has_from l \<or> set_expr_has_from r
      | _ \<Rightarrow> False)"
| "set_expr_has_from se =
     (case se of
        SelectBody s \<Rightarrow> sel_from s \<noteq> []
      | QueryBody q \<Rightarrow> query_has_from q
      | _ \<Rightarrow> False)"

definition query_cte_list :: "query \<Rightarrow> cte list" where
  "query_cte_list q = (case query_with q of Some (r, ctes) \<Rightarrow> ctes | None \<Rightarrow> [])"

type_synonym cte_map = "string \<rightharpoonup> query"

definition add_ctes :: "cte_map \<Rightarrow> cte list \<Rightarrow> cte_map" where
  "add_ctes m ctes =
     fold (\<lambda>c m. m(to_lowercase (ident_value (alias_name (cte_alias c))) \<mapsto> cte_query c)) ctes m"

fun wrap_sort :: "expr order_by_kind option \<Rightarrow> logical_plan \<Rightarrow> logical_plan" where
  "wrap_sort (Some (OrderByExpressions es)) p = (if es \<noteq> [] then Sort p es else p)"
| "wrap_sort (Some (OrderByAll m)) p = Sort p []"
| "wrap_sort None p = p"

definition wrap_limit :: "query \<Rightarrow> logical_plan \<Rightarrow> logical_plan" where
  "wrap_limit q p =
     (let (l, f) = extract_limit_offset q in if l \<noteq> None \<or> f \<noteq> None then Limit p l f else p)"

definition wrap_select :: "sql_display \<Rightarrow> select \<Rightarrow> logical_plan \<Rightarrow> logical_plan" where
  "wrap_select d s from_plan =
     (let p = (case sel_where s of Some e \<Rightarrow> Filter from_plan e | None \<Rightarrow> from_plan);
          has_group_by = (case sel_group_by s of GroupByExpressions es m \<Rightarrow> es \<noteq> [] | GroupByAll m \<Rightarrow> True)
      in if has_group_by \<or> list_ex (select_item_has_aggregate d) (sel_projection s)
         then Aggregate p (sel_group_by s) (sel_projection s) (sel_having s)
                (extract_group_keys (sel_group_by s))
         else if list_ex select_item_has_window (sel_projection s)
         then Window p (sel_projection s) (extract_window_partition_keys (sel_projection s))
         else Project p (sel_projection s))"

definition add_join :: "sql_display \<Rightarrow> logical_plan \<Rightarrow> logical_plan \<times> join_operator \<Rightarrow> logical_plan" where
  "add_join d p = (\<lambda>(right, op).
     let (lk, rk) = extract_join_keys_from_operator d op (collect_table_names p) (collect_table_names right)
     in Join p right op lk rk)"

definition add_cross_join :: "logical_plan \<Rightarrow> logical_plan \<Rightarrow> logical_plan" where
  "add_cross_join p right = Join p right (CrossJoin NoConstraint) [] []"

definition feature_error :: "string \<Rightarrow> build_stop + 'a" where
  "feature_error s = Inl (BuildError (UnsupportedFeature s))"

definition build_from_clause ::
  "(table_with_joins \<Rightarrow> build_stop + logical_plan) \<Rightarrow> table_with_joins list \<Rightarrow> build_stop + logical_plan"
where
  "build_from_clause build from_items =
     (if from_items = [] then feature_error ''SELECT without FROM''
      else bind_ok (map_ok build from_items) (\<lambda>ps. Inr (foldl add_cross_join (hd ps) (tl ps))))"

lemma build_from_clause_cong [fundef_cong]:
  "xs = ys \<Longrightarrow> (\<And>x. x \<in> set ys \<Longrightarrow> f x = g x) \<Longrightarrow> build_from_clause f xs = build_from_clause g ys"
  by (auto simp: build_from_clause_def cong: map_ok_cong)

lemma size_join_relation [termination_simp]: "size (join_relation j) \<le> size_join_of size f j"
  by (cases j) simp

function (sequential) build_from_query_with_ctes :: "sql_display \<Rightarrow> nat \<Rightarrow> query \<Rightarrow> cte_map \<Rightarrow> build_stop + build_result"
  and build_set_expr :: "sql_display \<Rightarrow> nat \<Rightarrow> set_expr \<Rightarrow> cte_map \<Rightarrow> build_stop + logical_plan"
  and build_select :: "sql_display \<Rightarrow> nat \<Rightarrow> select \<Rightarrow> cte_map \<Rightarrow> build_stop + logical_plan"
  and build_table_with_joins :: "sql_display \<Rightarrow> nat \<Rightarrow> table_with_joins \<Rightarrow> cte_map \<Rightarrow> build_stop + logical_plan"
  and build_table_factor :: "sql_display \<Rightarrow> nat \<Rightarrow> table_factor \<Rightarrow> cte_map \<Rightarrow> build_stop + logical_plan"
where
  "build_from_query_with_ctes d depth (Query w body os lim fetch rest) outer_ctes =
     (let q = Query w body os lim fetch rest;
          ctes = query_cte_list q
      in bind_ok (build_set_expr d depth body (add_ctes outer_ctes ctes)) (\<lambda>p.
           Inr \<lparr>br_plan = wrap_limit q (wrap_sort os p), br_context = \<lparr>cte_definitions = ctes\<rparr>\<rparr>))"
| "build_set_expr d depth (SelectBody s) ctes = build_select d depth s ctes"
| "build_set_expr d depth (QueryBody q) ctes =
     bind_ok (build_from_query_with_ctes d depth q ctes) (\<lambda>r. Inr (br_plan r))"
| "build_set_expr d depth (SetOperation op k l r) ctes =
     bind_ok (build_set_expr d depth l ctes) (\<lambda>lp.
     bind_ok (build_set_expr d depth r ctes) (\<lambda>rp. Inr (SetOp lp rp op k)))"
| "build_set_expr d depth (Values s) ctes = feature_error ''VALUES clause''"
| "build_set_expr d depth other ctes =
     feature_error (''SetExpr variant: '' @ set_expr_discriminant d other)"
| "build_select d depth (Select proj from_items wh gb hv rest) ctes =
     bind_ok (build_from_clause (\<lambda>twj. build_table_with_joins d depth twj ctes) from_items) (\<lambda>p.
       Inr (wrap_select d (Select proj from_items wh gb hv rest) p))"
| "build_table_with_joins d depth (TableWithJoins rel joins) ctes =
     bind_ok (build_table_factor d depth rel ctes) (\<lambda>p.
     bind_ok (map_ok (\<lambda>j. bind_ok (build_table_factor d depth (join_relation j) ctes)
         (\<lambda>r. Inr (r, join_operator j))) joins) (\<lambda>rs.
       Inr (foldl (add_join d) p rs)))"
| "build_table_factor d depth (TableRef name alias rest) ctes =
     (let table_name = object_name_to_string d name;
          scan = Inr (Scan table_name alias (TableRef name alias rest))
      in case ctes (to_lowercase table_name) of
           None \<Rightarrow> scan
         | Some q \<Rightarrow>
             if query_has_from q
             then (case depth of
                     0 \<Rightarrow> Inl StackExhausted
                   | Suc depth' \<Rightarrow> bind_ok (build_from_query_with_ctes d depth' q ctes) (\<lambda>r.
                       Inr (SubqueryScan (br_plan r) (case alias of
                           Some a \<Rightarrow> a
                         | None \<Rightarrow> \<lparr>alias_name = ident_new table_name, alias_columns = [],
                                    alias_explicit = True\<rparr>))))
             else scan)"
| "build_table_factor d depth (Derived q alias rest) ctes =
     bind_ok (build_from_query_with_ctes d depth q ctes) (\<lambda>r.
       case alias of
         None \<Rightarrow> feature_error ''derived table without alias''
       | Some a \<Rightarrow> Inr (SubqueryScan (br_plan r) a))"
| "build_table_factor d depth (NestedJoin twj alias) ctes =
     bind_ok (build_table_with_joins d depth twj ctes) (\<lambda>p.
       case alias of Some a \<Rightarrow> Inr (SubqueryScan p a) | None \<Rightarrow> Inr p)"
| "build_table_factor d depth (TableFunction name args alias lateral) ctes =
     Inr (Scan (object_name_to_string d name) alias (TableFunction name args alias lateral))"
| "build_table_factor d depth (OtherFactor s) ctes =
     Inr (Scan (fmt_factor d (OtherFactor s)) None (OtherFactor s))"
  by pat_completeness auto
termination
  by lexicographic_order

definition build_logical_plan :: "sql_display \<Rightarrow> nat \<Rightarrow> statement \<Rightarrow> build_stop + build_result" where
  "build_logical_plan d depth stmt =
     (case stmt of
        QueryStmt q \<Rightarrow> build_from_query_with_ctes d depth q Map.empty
      | other \<Rightarrow> Inl (BuildError (UnsupportedStatement (statement_name other))))"

section \<open>Referenced columns\<close>

text \<open>
  The references of an expression in the order of the visit; \<open>add_column_ref\<close> then keeps
  the first of equal ones. \<open>columns\<close> and \<open>seen\<close> are threaded as a pair.
\<close>

fun column_refs_of_expr :: "expr \<Rightarrow> column_ref list" where
  "column_refs_of_expr (Identifier i) = [unqualified_ref (ident_value i)]"
| "column_refs_of_expr (CompoundIdentifier parts) =
     (if 2 \<le> length parts
      then [qualified_ref (ident_value (parts ! (length parts - 2)))
              (ident_value (parts ! (length parts - 1)))]
      else [])"
| "column_refs_of_expr (BinaryOp l op r) = column_refs_of_expr l @ column_refs_of_expr r"
| "column_refs_of_expr (UnaryOp op e) = column_refs_of_expr e"
| "column_refs_of_expr (Nested e) = column_refs_of_expr e"
| "column_refs_of_expr (Function name args over rest) =
     (case args of
        ArgList xs r \<Rightarrow> concat (map (\<lambda>arg. case arg of
            UnnamedArg (ArgExpr e) \<Rightarrow> column_refs_of_expr e
          | NamedArg i (ArgExpr e) \<Rightarrow> column_refs_of_expr e
          | ExprNamedArg n (ArgExpr e) \<Rightarrow> column_refs_of_expr e
          | _ \<Rightarrow> []) xs)
      | OtherArguments r \<Rightarrow> [])"
| "column_refs_of_expr (Case operand conditions else_result) =
     (case operand of Some e \<Rightarrow> column_refs_of_expr e | None \<Rightarrow> []) @
     concat (map (\<lambda>cw. column_refs_of_expr (when_condition cw) @
       column_refs_of_expr (when_result cw)) conditions) @
     (case else_result of Some e \<Rightarrow> column_refs_of_expr e | None \<Rightarrow> [])"
| "column_refs_of_expr (IsTest t e) =
     (if t = IsNull \<or> t = IsNotNull then column_refs_of_expr e else [])"
| "column_refs_of_expr (InList e es negated) =
     column_refs_of_expr e @ concat (map column_refs_of_expr es)"
| "column_refs_of_expr (Between e negated low high) =
     column_refs_of_expr e @ column_refs_of_expr low @ column_refs_of_expr high"
| "column_refs_of_expr (Cast e ty rest) = column_refs_of_expr e"
| "column_refs_of_expr _ = []"

definition column_refs_of_item :: "select_item \<Rightarrow> column_ref list" where
  "column_refs_of_item item = (case item_expr item of Some e \<Rightarrow> column_refs_of_expr e | None \<Rightarrow> [])"

fun column_refs_of_node :: "logical_plan \<Rightarrow> column_ref list" where
  "column_refs_of_node (Filter p e) = column_refs_of_expr e"
| "column_refs_of_node (Project p items) = concat (map column_refs_of_item items)"
| "column_refs_of_node (Aggregate p g items h keys) =
     keys @ concat (map column_refs_of_item items) @
     (case h of Some e \<Rightarrow> column_refs_of_expr e | None \<Rightarrow> [])"
| "column_refs_of_node (Sort p os) = concat (map (\<lambda>ob. column_refs_of_expr (ob_expr ob)) os)"
| "column_refs_of_node (Join l r op lk rk) =
     lk @ rk @ (case extract_join_on_expr op of Some e \<Rightarrow> column_refs_of_expr e | None \<Rightarrow> [])"
| "column_refs_of_node (Window p items keys) = concat (map column_refs_of_item items)"
| "column_refs_of_node _ = []"

definition add_column_ref ::
  "column_ref \<Rightarrow> column_ref list \<times> column_ref set \<Rightarrow> column_ref list \<times> column_ref set" where
  "add_column_ref col = (\<lambda>(columns, seen).
     if col \<in> seen then (columns, seen) else (columns @ [col], insert col seen))"

function collect_refs ::
  "logical_plan \<Rightarrow> column_ref list \<times> column_ref set \<Rightarrow> column_ref list \<times> column_ref set" where
  "collect_refs p acc =
     fold collect_refs (plan_children p) (fold add_column_ref (column_refs_of_node p) acc)"
  by pat_completeness auto
termination
  by (relation "measure (\<lambda>(p, acc). size p)") (auto dest: plan_children_size)

declare collect_refs.simps [simp del]

definition collect_referenced_columns :: "logical_plan \<Rightarrow> column_ref list" where
  "collect_referenced_columns p = fst (collect_refs p ([], {}))"

text \<open>Every column reference of the tree, as a set.\<close>

declare plan_children_size [termination_simp]

fun referenced :: "logical_plan \<Rightarrow> column_ref set" where
  "referenced p = set (column_refs_of_node p) \<union> \<Union> (set (map referenced (plan_children p)))"

declare referenced.simps [simp del]

definition collected :: "column_ref list \<times> column_ref set \<Rightarrow> bool" where
  "collected acc \<longleftrightarrow> distinct (fst acc) \<and> snd acc = set (fst acc)"

lemma add_column_ref_collected:
  "collected acc \<Longrightarrow> collected (add_column_ref c acc) \<and> snd (add_column_ref c acc) = insert c (snd acc)"
  by (auto simp: collected_def add_column_ref_def split: prod.splits)

lemma add_column_refs_collected:
  "collected acc \<Longrightarrow>
     collected (fold add_column_ref cs acc) \<and> snd (fold add_column_ref cs acc) = set cs \<union> snd acc"
  by (induction cs arbitrary: acc) (auto simp: add_column_ref_collected)

lemma fold_collected:
  assumes "\<And>x acc. x \<in> set xs \<Longrightarrow> collected acc \<Longrightarrow> collected (f x acc) \<and> snd (f x acc) = R x \<union> snd acc"
  shows "collected acc \<Longrightarrow>
    collected (fold f xs acc) \<and> snd (fold f xs acc) = (\<Union>x\<in>set xs. R x) \<union> snd acc"
  using assms by (induction xs arbitrary: acc) auto

lemma collect_refs_collected:
  "collected acc \<Longrightarrow>
     collected (collect_refs p acc) \<and> snd (collect_refs p acc) = referenced p \<union> snd acc"
proof (induction p arbitrary: acc rule: measure_induct_rule [of size])
  case (less p)
  let ?acc = "fold add_column_ref (column_refs_of_node p) acc"
  have acc: "collected ?acc" "snd ?acc = set (column_refs_of_node p) \<union> snd acc"
    using add_column_refs_collected [OF less.prems] by auto
  have "collected (fold collect_refs (plan_children p) ?acc) \<and>
    snd (fold collect_refs (plan_children p) ?acc) = (\<Union>x\<in>set (plan_children p). referenced x) \<union> snd ?acc"
    by (rule fold_collected [OF less.IH acc(1)]) (auto intro: plan_children_size)
  with acc(2) show ?case by (auto simp: collect_refs.simps [of p] referenced.simps [of p])
qed

lemma collect_referenced_columns_correct:
  "distinct (collect_referenced_columns p) \<and> set (collect_referenced_columns p) = referenced p"
  using collect_refs_collected [of "([], {})" p]
  by (auto simp: collect_referenced_columns_def collected_def)

end
