(* ===== verification/Built_Plans.thy ===== *)
theory Built_Plans
  imports Plan_Builder
begin

text \<open>
  What the plan builder promises to the planner: the shape of the trees it returns, the
  soundness of the join and window keys it extracts, and when it returns at all.
\<close>

section \<open>The shape of built plans\<close>

text \<open>
  A query is a projection, an aggregation or a window over a FROM tree with at most one
  filter between, or a set operation, sort or limit over queries. A FROM tree has scans and
  subqueries as its leaves and joins as its inner nodes.
\<close>

fun query_shape :: "logical_plan \<Rightarrow> bool"
  and from_shape :: "logical_plan \<Rightarrow> bool"
where
  "query_shape (Project p items) = (case p of Filter q e \<Rightarrow> from_shape q | _ \<Rightarrow> from_shape p)"
| "query_shape (Aggregate p g items h keys) = (case p of Filter q e \<Rightarrow> from_shape q | _ \<Rightarrow> from_shape p)"
| "query_shape (Window p items keys) = (case p of Filter q e \<Rightarrow> from_shape q | _ \<Rightarrow> from_shape p)"
| "query_shape (SetOp l r op k) = (query_shape l \<and> query_shape r)"
| "query_shape (Sort p os) = query_shape p"
| "query_shape (Limit p l f) = query_shape p"
| "query_shape _ = False"
| "from_shape (Scan t a f) = True"
| "from_shape (SubqueryScan p a) = (query_shape p \<or> from_shape p)"
| "from_shape (Join l r op lk rk) = (from_shape l \<and> from_shape r \<and> length lk = length rk)"
| "from_shape _ = False"

lemma wrap_limit_shape: "query_shape p \<Longrightarrow> query_shape (wrap_limit q p)"
  by (simp add: wrap_limit_def split: prod.split)

lemma wrap_sort_shape: "query_shape p \<Longrightarrow> query_shape (wrap_sort os p)"
  by (induction os p rule: wrap_sort.induct) auto

lemma from_not_filter: "from_shape p \<Longrightarrow> (case p of Filter q e \<Rightarrow> from_shape q | _ \<Rightarrow> from_shape p)"
  by (cases p) auto

lemma wrap_select_shape: "from_shape p \<Longrightarrow> query_shape (wrap_select d s p)"
  by (simp add: wrap_select_def Let_def from_not_filter split: option.split)

lemma join_keys_length:
  "extract_join_keys_from_operator d op ls rs = (lk, rk) \<Longrightarrow> length lk = length rk"
  by (auto simp: extract_join_keys_from_operator_def Let_def
      split: option.splits join_constraint_of.splits)

lemma add_join_shape: "from_shape p \<Longrightarrow> from_shape (fst r) \<Longrightarrow> from_shape (add_join d p r)"
  by (auto simp: add_join_def join_keys_length split: prod.split)

lemma foldl_shape:
  "from_shape p \<Longrightarrow> (\<And>p x. x \<in> set xs \<Longrightarrow> from_shape p \<Longrightarrow> from_shape (f p x)) \<Longrightarrow>
     from_shape (foldl f p xs)"
  by (induction xs arbitrary: p) auto

lemma map_ok_in:
  "map_ok f xs = Inr ys \<Longrightarrow> y \<in> set ys \<Longrightarrow> \<exists>x \<in> set xs. f x = Inr y"
  by (induction xs arbitrary: ys) auto

lemma build_from_clause_shape:
  assumes "build_from_clause f xs = Inr p" "\<And>x p. x \<in> set xs \<Longrightarrow> f x = Inr p \<Longrightarrow> from_shape p"
  shows "from_shape p"
proof -
  from assms(1) obtain ps where
    ps: "map_ok f xs = Inr ps" "p = foldl add_cross_join (hd ps) (tl ps)" and "xs \<noteq> []"
    by (auto simp: build_from_clause_def feature_error_def split: if_splits)
  with map_ok_length [OF ps(1)] have ne: "ps \<noteq> []" by auto
  have all: "from_shape q" if "q \<in> set ps" for q
    using map_ok_in [OF ps(1) that] assms(2) by auto
  have "from_shape (add_cross_join q x)" if "x \<in> set (tl ps)" "from_shape q" for q x
    using that all [of x] by (auto simp: add_cross_join_def dest: list.set_sel(2) [OF ne])
  with ne all show ?thesis unfolding ps(2) by (intro foldl_shape) auto
qed

lemma build_joins_shape:
  assumes "map_ok (\<lambda>j. bind_ok (f (join_relation j)) (\<lambda>r. Inr (r, join_operator j))) joins = Inr rs"
    and "\<And>j p. j \<in> set joins \<Longrightarrow> f (join_relation j) = Inr p \<Longrightarrow> from_shape p"
    and "from_shape p"
  shows "from_shape (foldl (add_join d) p rs)"
proof (rule foldl_shape [OF assms(3)])
  fix p x assume x: "x \<in> set rs" and p: "from_shape p"
  from map_ok_in [OF assms(1) x] obtain j where "j \<in> set joins" "f (join_relation j) = Inr (fst x)"
    by auto
  with assms(2) p show "from_shape (add_join d p x)" by (blast intro: add_join_shape)
qed

lemma built_shapes:
  "\<And>r. build_from_query_with_ctes d n q m = Inr r \<Longrightarrow> query_shape (br_plan r)"
  "\<And>p. build_set_expr d n b m = Inr p \<Longrightarrow> query_shape p"
  "\<And>p. build_select d n s m = Inr p \<Longrightarrow> query_shape p"
  "\<And>p. build_table_with_joins d n t m = Inr p \<Longrightarrow> from_shape p"
  "\<And>p. build_table_factor d n f m = Inr p \<Longrightarrow> from_shape p"
proof (induction d n q m and d n b m and d n s m and d n t m and d n f m rule:
    build_from_query_with_ctes_build_set_expr_build_select_build_table_with_joins_build_table_factor.induct)
  case (1 d depth w body os lim fetch rest outer_ctes r)
  then show ?case by (auto simp: Let_def intro!: wrap_limit_shape wrap_sort_shape)
next
  case (7 d depth proj from_items wh gb hv rest ctes p)
  from "7.prems" obtain p' where
    p': "build_from_clause (\<lambda>twj. build_table_with_joins d depth twj ctes) from_items = Inr p'"
      "p = wrap_select d (Select proj from_items wh gb hv rest) p'"
    by auto
  have "from_shape p'" by (rule build_from_clause_shape [OF p'(1)]) (rule "7.IH")
  then show ?case unfolding p'(2) by (rule wrap_select_shape)
next
  case (8 d depth rel joins ctes p)
  from "8.prems" obtain p' rs where
    p': "build_table_factor d depth rel ctes = Inr p'" "p = foldl (add_join d) p' rs" and
    rs: "map_ok (\<lambda>j. bind_ok (build_table_factor d depth (join_relation j) ctes)
           (\<lambda>r. Inr (r, join_operator j))) joins = Inr rs"
    by auto
  show ?case unfolding p'(2)
    by (rule build_joins_shape [where f = "\<lambda>f. build_table_factor d depth f ctes", OF rs])
      (rule "8.IH"(2) [OF p'(1)], assumption, assumption, rule "8.IH"(1) [OF p'(1)])
next
  case (9 d depth name al rest ctes p)
  then show ?case by (auto simp: Let_def split: option.splits if_splits nat.splits)
next
  case (10 d depth q al rest ctes p)
  then show ?case by (auto simp: feature_error_def split: option.splits)
next
  case (11 d depth twj al ctes p)
  then show ?case by (auto split: option.splits)
qed (auto simp: feature_error_def)

section \<open>The depth of the expansion\<close>

text \<open>
  \<open>extends r r'\<close>: \<open>r'\<close> is the result \<open>r\<close>, unless \<open>r\<close> ran out of depth.
\<close>

definition extends :: "build_stop + 'a \<Rightarrow> build_stop + 'a \<Rightarrow> bool" where
  "extends r r' \<longleftrightarrow> r = Inl StackExhausted \<or> r' = r"

lemma extends_refl [simp]: "extends r r"
  by (simp add: extends_def)

lemma extends_exhausted [simp]: "extends (Inl StackExhausted) r"
  by (simp add: extends_def)

lemma extends_bind:
  "extends r r' \<Longrightarrow> (\<And>x. r = Inr x \<Longrightarrow> extends (f x) (f' x)) \<Longrightarrow> extends (bind_ok r f) (bind_ok r' f')"
  by (cases r) (auto simp: extends_def)

lemma extends_map_ok:
  "(\<And>x. x \<in> set xs \<Longrightarrow> extends (f x) (g x)) \<Longrightarrow> extends (map_ok f xs) (map_ok g xs)"
proof (induction xs)
  case (Cons x xs)
  then have "extends (f x) (g x)" "extends (map_ok f xs) (map_ok g xs)" by auto
  then show ?case by (auto intro!: extends_bind)
qed simp

lemma extends_from_clause:
  "(\<And>x. x \<in> set xs \<Longrightarrow> extends (f x) (g x)) \<Longrightarrow> extends (build_from_clause f xs) (build_from_clause g xs)"
  by (auto simp: build_from_clause_def intro!: extends_bind extends_map_ok)

lemma build_extends:
  "\<And>n'. n \<le> n' \<Longrightarrow> extends (build_from_query_with_ctes d n q m) (build_from_query_with_ctes d n' q m)"
  "\<And>n'. n \<le> n' \<Longrightarrow> extends (build_set_expr d n b m) (build_set_expr d n' b m)"
  "\<And>n'. n \<le> n' \<Longrightarrow> extends (build_select d n s m) (build_select d n' s m)"
  "\<And>n'. n \<le> n' \<Longrightarrow> extends (build_table_with_joins d n t m) (build_table_with_joins d n' t m)"
  "\<And>n'. n \<le> n' \<Longrightarrow> extends (build_table_factor d n f m) (build_table_factor d n' f m)"
proof (induction d n q m and d n b m and d n s m and d n t m and d n f m rule:
    build_from_query_with_ctes_build_set_expr_build_select_build_table_with_joins_build_table_factor.induct)
  case (1 d depth w body os lim fetch rest outer_ctes n')
  then show ?case by (auto simp: Let_def intro!: extends_bind)
next
  case (3 d depth q ctes n')
  then show ?case by (auto intro!: extends_bind)
next
  case (4 d depth op k l r ctes n')
  then show ?case by (auto intro!: extends_bind)
next
  case (7 d depth proj from_items wh gb hv rest ctes n')
  then show ?case by (auto intro!: extends_bind extends_from_clause)
next
  case (8 d depth rel joins ctes n')
  then show ?case by (auto intro!: extends_bind extends_map_ok)
next
  case (9 d depth name al rest ctes n')
  then show ?case
    by (cases n') (auto simp: Let_def split: option.split nat.split intro!: extends_bind)
next
  case (10 d depth q al rest ctes n')
  then show ?case by (auto intro!: extends_bind)
next
  case (11 d depth twj al ctes n')
  then show ?case by (auto intro!: extends_bind)
qed auto

section \<open>Acyclic table expressions\<close>

text \<open>
  A ranking of names witnesses that the CTEs do not refer to themselves: a CTE refers only
  to names of a lower rank, the query to names below \<open>n\<close>.
\<close>

definition cte_key :: "cte \<Rightarrow> string" where
  "cte_key c = to_lowercase (ident_value (alias_name (cte_alias c)))"

lemma size_cte_query [termination_simp]:
  "c \<in> set cs \<Longrightarrow> size (cte_query c) < Suc (size_list (size_cte_of size) cs)"
proof (induction cs)
  case (Cons x xs)
  have "size (cte_query x) \<le> size_cte_of size x" by (cases x) simp
  with Cons show ?case by auto
qed simp

lemma size_sel_from: "t \<in> set (sel_from s) \<Longrightarrow> size t < size s"
  by (cases s) (auto dest: size_in_list [where f = size])

function (sequential) ranked_query :: "(string \<Rightarrow> nat) \<Rightarrow> sql_display \<Rightarrow> nat \<Rightarrow> query \<Rightarrow> bool"
  and ranked_set_expr :: "(string \<Rightarrow> nat) \<Rightarrow> sql_display \<Rightarrow> nat \<Rightarrow> set_expr \<Rightarrow> bool"
  and ranked_joins :: "(string \<Rightarrow> nat) \<Rightarrow> sql_display \<Rightarrow> nat \<Rightarrow> table_with_joins \<Rightarrow> bool"
  and ranked_factor :: "(string \<Rightarrow> nat) \<Rightarrow> sql_display \<Rightarrow> nat \<Rightarrow> table_factor \<Rightarrow> bool"
where
  "ranked_query rank d n (Query w body os lim fetch rest) \<longleftrightarrow>
     (case w of None \<Rightarrow> True
      | Some (r, cs) \<Rightarrow> (\<forall>c \<in> set cs. ranked_query rank d (rank (cte_key c)) (cte_query c))) \<and>
     ranked_set_expr rank d n body"
| "ranked_set_expr rank d n b \<longleftrightarrow>
     (case b of
        SelectBody s \<Rightarrow> (\<forall>t \<in> set (sel_from s). ranked_joins rank d n t)
      | QueryBody q \<Rightarrow> ranked_query rank d n q
      | SetOperation op k l r \<Rightarrow> ranked_set_expr rank d n l \<and> ranked_set_expr rank d n r
      | _ \<Rightarrow> True)"
| "ranked_joins rank d n (TableWithJoins rel joins) \<longleftrightarrow>
     ranked_factor rank d n rel \<and> (\<forall>j \<in> set joins. ranked_factor rank d n (join_relation j))"
| "ranked_factor rank d n (TableRef name a rest) \<longleftrightarrow> rank (to_lowercase (object_name_to_string d name)) < n"
| "ranked_factor rank d n (Derived q a rest) \<longleftrightarrow> ranked_query rank d n q"
| "ranked_factor rank d n (NestedJoin twj a) \<longleftrightarrow> ranked_joins rank d n twj"
| "ranked_factor rank d n _ \<longleftrightarrow> True"

  by pat_completeness auto
termination
  by (relation "measure (\<lambda>x. case x of
      Inl (Inl (rank, d, n, q)) \<Rightarrow> size q | Inl (Inr (rank, d, n, b)) \<Rightarrow> size b
    | Inr (Inl (rank, d, n, t)) \<Rightarrow> size t | Inr (Inr (rank, d, n, f)) \<Rightarrow> size f)")
    (auto simp: termination_simp dest: size_sel_from size_cte_query)

declare ranked_set_expr.simps [simp del]

definition ranked_ctes :: "(string \<Rightarrow> nat) \<Rightarrow> sql_display \<Rightarrow> cte_map \<Rightarrow> bool" where
  "ranked_ctes rank d m \<longleftrightarrow> (\<forall>x q. m x = Some q \<longrightarrow> ranked_query rank d (rank x) q)"

lemma ranked_add_ctes:
  assumes "\<forall>c \<in> set cs. ranked_query rank d (rank (cte_key c)) (cte_query c)" "ranked_ctes rank d m"
  shows "ranked_ctes rank d (add_ctes m cs)"
  using assms
proof (induction cs arbitrary: m)
  case (Cons c cs)
  then have "ranked_ctes rank d (m(cte_key c \<mapsto> cte_query c))" by (simp add: ranked_ctes_def)
  with Cons show ?case by (simp add: add_ctes_def cte_key_def)
qed (simp add: add_ctes_def)

definition returns :: "build_stop + 'a \<Rightarrow> bool" where
  "returns r \<longleftrightarrow> r \<noteq> Inl StackExhausted"

lemma returns_simps [simp]: "returns (Inr x)" "returns (feature_error s)" "\<not> returns (Inl StackExhausted)"
  by (simp_all add: returns_def feature_error_def)

lemma returns_bind: "returns r \<Longrightarrow> (\<And>x. r = Inr x \<Longrightarrow> returns (f x)) \<Longrightarrow> returns (bind_ok r f)"
  by (cases r) (auto simp: returns_def)

lemma returns_map_ok: "(\<And>x. x \<in> set xs \<Longrightarrow> returns (f x)) \<Longrightarrow> returns (map_ok f xs)"
proof (induction xs)
  case (Cons x xs)
  then have "returns (f x)" "returns (map_ok f xs)" by auto
  then show ?case by (auto intro!: returns_bind)
qed simp

lemma returns_from_clause: "(\<And>x. x \<in> set xs \<Longrightarrow> returns (f x)) \<Longrightarrow> returns (build_from_clause f xs)"
  by (auto simp: build_from_clause_def intro!: returns_bind returns_map_ok)

lemma build_returns:
  "\<And>k. ranked_query rank d k q \<Longrightarrow> ranked_ctes rank d m \<Longrightarrow> k \<le> n \<Longrightarrow> returns (build_from_query_with_ctes d n q m)"
  "\<And>k. ranked_set_expr rank d k b \<Longrightarrow> ranked_ctes rank d m \<Longrightarrow> k \<le> n \<Longrightarrow> returns (build_set_expr d n b m)"
  "\<And>k. ranked_set_expr rank d k (SelectBody s) \<Longrightarrow> ranked_ctes rank d m \<Longrightarrow> k \<le> n \<Longrightarrow> returns (build_select d n s m)"
  "\<And>k. ranked_joins rank d k t \<Longrightarrow> ranked_ctes rank d m \<Longrightarrow> k \<le> n \<Longrightarrow> returns (build_table_with_joins d n t m)"
  "\<And>k. ranked_factor rank d k f \<Longrightarrow> ranked_ctes rank d m \<Longrightarrow> k \<le> n \<Longrightarrow> returns (build_table_factor d n f m)"
proof (induction d n q m and d n b m and d n s m and d n t m and d n f m rule:
    build_from_query_with_ctes_build_set_expr_build_select_build_table_with_joins_build_table_factor.induct)
  case (1 d depth w body os lim fetch rest outer_ctes k)
  from "1.prems" have "ranked_ctes rank d (add_ctes outer_ctes (query_cte_list (Query w body os lim fetch rest)))"
    by (cases w) (auto simp: query_cte_list_def add_ctes_def intro!: ranked_add_ctes [unfolded add_ctes_def])
  with 1 show ?case by (auto simp: Let_def intro!: returns_bind)
next
  case (3 d depth q ctes k)
  then show ?case by (auto simp: ranked_set_expr.simps intro!: returns_bind)
next
  case (4 d depth op m l r ctes k)
  then show ?case by (auto simp: ranked_set_expr.simps [of _ _ _ "SetOperation _ _ _ _"] intro!: returns_bind)
next
  case (7 d depth proj from_items wh gb hv rest ctes k)
  then show ?case by (auto simp: ranked_set_expr.simps intro!: returns_bind returns_from_clause)
next
  case (8 d depth rel joins ctes k)
  then show ?case by (auto intro!: returns_bind returns_map_ok)
next
  case (9 d depth name al rest ctes k)
  let ?x = "to_lowercase (object_name_to_string d name)"
  show ?case
  proof (cases "\<exists>q. ctes ?x = Some q \<and> query_has_from q")
    case True
    then obtain q where q: "ctes ?x = Some q" "query_has_from q" by blast
    from "9.prems" obtain n where n: "depth = Suc n" "rank ?x \<le> n" by (cases depth) auto
    from q "9.prems" have "ranked_query rank d (rank ?x) q" by (simp add: ranked_ctes_def)
    with "9.IH" q n "9.prems" have "returns (build_from_query_with_ctes d n q ctes)" by blast
    with q n show ?thesis by (auto intro!: returns_bind)
  next
    case False
    then show ?thesis by (auto simp: Let_def split: option.split)
  qed
next
  case (10 d depth q al rest ctes k)
  then show ?case by (auto intro!: returns_bind split: option.split)
next
  case (11 d depth twj al ctes k)
  then show ?case by (auto intro!: returns_bind split: option.split)
qed auto

section \<open>Join and window keys\<close>

text \<open>
  When an ON condition is true for a pair of rows: \<open>val\<close> gives the values of the columns,
  and \<open>other\<close> the truth of the parts that are not column equalities.
\<close>

fun condition_holds :: "(column_ref \<Rightarrow> 'v) \<Rightarrow> (expr \<Rightarrow> bool) \<Rightarrow> expr \<Rightarrow> bool" where
  "condition_holds val other (BinaryOp l op r) \<longleftrightarrow>
     (case op of
        And \<Rightarrow> condition_holds val other l \<and> condition_holds val other r
      | Eq \<Rightarrow> (case (expr_to_column_ref l, expr_to_column_ref r) of
               (Some a, Some b) \<Rightarrow> val a = val b
             | _ \<Rightarrow> other (BinaryOp l op r))
      | _ \<Rightarrow> other (BinaryOp l op r))"
| "condition_holds val other (Nested e) \<longleftrightarrow> condition_holds val other e"
| "condition_holds val other e \<longleftrightarrow> other e"

lemma equi_keys_sides:
  "(a, b) \<in> set (extract_equi_keys e ls rs) \<Longrightarrow> is_from_tables a ls \<and> is_from_tables b rs"
  by (induction e ls rs rule: extract_equi_keys.induct)
    (auto split: binary_operator.splits option.splits if_splits)

lemma equi_keys_equal:
  "condition_holds val other e \<Longrightarrow> (a, b) \<in> set (extract_equi_keys e ls rs) \<Longrightarrow> val a = val b"
  by (induction e ls rs rule: extract_equi_keys.induct)
    (auto split: binary_operator.splits option.splits if_splits)

lemma window_keys_fold:
  assumes "\<forall>k \<in> set prev. \<forall>spec \<in> set seen. \<exists>c \<in> set (List.map_filter expr_to_column_ref spec). column_matches k c"
  shows "\<forall>k \<in> set (the (fold (\<lambda>spec common. Some (case common of
            None \<Rightarrow> List.map_filter expr_to_column_ref spec
          | Some prev \<Rightarrow> intersect_column_refs prev (List.map_filter expr_to_column_ref spec)))
        specs (Some prev))).
      \<forall>spec \<in> set seen \<union> set specs. \<exists>c \<in> set (List.map_filter expr_to_column_ref spec). column_matches k c"
  using assms
proof (induction specs arbitrary: prev seen)
  case (Cons spec specs)
  have "\<forall>k \<in> set (intersect_column_refs prev (List.map_filter expr_to_column_ref spec)).
      \<forall>sp \<in> set (spec # seen). \<exists>c \<in> set (List.map_filter expr_to_column_ref sp). column_matches k c"
    using Cons.prems by (auto simp: intersect_column_refs_def list_ex_iff)
  from Cons.IH [OF this] show ?case by (simp add: insert_commute Un_commute)
qed auto

lemma in_case_option_list: "k \<in> set (case r of Some ks \<Rightarrow> ks | None \<Rightarrow> []) \<Longrightarrow> k \<in> set (the r)"
  by (cases r) auto

lemma window_keys_all_specs:
  "\<forall>k \<in> set (extract_window_partition_keys items). \<forall>spec \<in> set (window_specs items).
     \<exists>c \<in> set (List.map_filter expr_to_column_ref spec). column_matches k c"
proof (cases "window_specs items")
  case (Cons spec specs)
  have "\<forall>k \<in> set (List.map_filter expr_to_column_ref spec). \<forall>sp \<in> set [spec].
      \<exists>c \<in> set (List.map_filter expr_to_column_ref sp). column_matches k c"
    using column_matches_refl by (simp, blast)
  note all = window_keys_fold [OF this, of specs]
  show ?thesis
  proof (intro ballI)
    fix k sp assume "k \<in> set (extract_window_partition_keys items)" and sp: "sp \<in> set (window_specs items)"
    then have k: "k \<in> set (the (fold (\<lambda>spec common. Some (case common of
            None \<Rightarrow> List.map_filter expr_to_column_ref spec
          | Some prev \<Rightarrow> intersect_column_refs prev (List.map_filter expr_to_column_ref spec)))
        specs (Some (List.map_filter expr_to_column_ref spec))))"
      unfolding extract_window_partition_keys_def Cons Let_def
      by (intro in_case_option_list) simp
    from sp have "sp \<in> set [spec] \<union> set specs" by (simp add: Cons)
    from bspec [OF bspec [OF all k] this]
    show "\<exists>c \<in> set (List.map_filter expr_to_column_ref sp). column_matches k c" .
  qed
qed simp

section \<open>Samples\<close>

definition table_ref :: "string \<Rightarrow> table_factor" where
  "table_ref t = TableRef [IdentPart (ident_new t)] None []"

definition plain_column :: "string \<Rightarrow> expr" where
  "plain_column c = Identifier (ident_new c)"

definition column_of :: "string \<Rightarrow> string \<Rightarrow> expr" where
  "column_of t c = CompoundIdentifier [ident_new t, ident_new c]"

definition simple_query :: "(bool \<times> cte list) option \<Rightarrow> string \<Rightarrow> string \<Rightarrow> query" where
  "simple_query w c t =
     Query w (SelectBody (Select [UnnamedExpr (plain_column c)] [TableWithJoins (table_ref t) []] None
       (GroupByExpressions [] []) None [])) None None None []"

definition named_cte :: "string \<Rightarrow> query \<Rightarrow> cte" where
  "named_cte n q = Cte \<lparr>alias_name = ident_new n, alias_columns = [], alias_explicit = True\<rparr> q []"

text \<open>\<^verbatim>\<open>WITH recent AS (SELECT x FROM sales) SELECT x FROM recent\<close>\<close>

definition chained_query :: query where
  "chained_query = simple_query (Some (False, [named_cte ''recent'' (simple_query None ''x'' ''sales'')])) ''x'' ''recent''"

text \<open>\<^verbatim>\<open>WITH sales AS (SELECT x FROM sales) SELECT x FROM sales\<close>\<close>

definition shadowing_query :: query where
  "shadowing_query = simple_query (Some (False, [named_cte ''sales'' (simple_query None ''x'' ''sales'')])) ''x'' ''sales''"

definition sample_rank :: "string \<Rightarrow> nat" where
  "sample_rank t = (if t = ''recent'' then 1 else 0)"

definition sum_over :: "expr window_type \<Rightarrow> expr" where
  "sum_over w = Function [IdentPart (ident_new ''sum'')] (ArgList [UnnamedArg (ArgExpr (plain_column ''x''))] []) (Some w) []"

lemmas sample_defs = table_ref_def plain_column_def column_of_def simple_query_def named_cte_def
  chained_query_def shadowing_query_def sample_rank_def sum_over_def

section \<open>Properties\<close>

text \<open>
  C28. Every plan that the builder returns has the shape of a query: a projection, an
  aggregation or a window over a FROM tree with at most one filter between them, or a set
  operation, a sort or a limit over such plans. It has no exchange leaf, a sort never stands
  directly on a scan or a join, and the two key lists of every join have the same length.
\<close>

theorem built_plan_shape:
  "build_logical_plan d depth stmt = Inr r \<Longrightarrow> query_shape (br_plan r)"
  by (auto simp: build_logical_plan_def split: statement.splits intro: built_shapes(1))

theorem built_plan_shape_witness:
  "\<exists>r. build_logical_plan undefined 1 (QueryStmt chained_query) = Inr r \<and> query_shape (br_plan r)"
proof -
  have "\<exists>r. build_logical_plan undefined 1 (QueryStmt chained_query) = Inr r"
    by (simp add: sample_defs build_logical_plan_def add_ctes_def query_cte_list_def
        build_from_clause_def object_name_to_string_def Let_def to_lowercase_def ascii_lower_def
        less_eq_char_def)
  with built_plan_shape show ?thesis by blast
qed

text \<open>
  C27. When the table expressions of a query can be ranked, so that each refers only to
  tables of a lower rank, the builder returns: the result at depth \<open>n\<close> is a plan or a build
  error, and no larger depth changes it.
\<close>

theorem build_terminates:
  assumes "ranked_query rank d n q" "n \<le> depth"
  shows "build_logical_plan d depth (QueryStmt q) = build_logical_plan d n (QueryStmt q) \<and>
    build_logical_plan d n (QueryStmt q) \<noteq> Inl StackExhausted"
proof -
  have "returns (build_from_query_with_ctes d n q Map.empty)"
    by (rule build_returns(1) [OF assms(1)]) (simp_all add: ranked_ctes_def)
  with build_extends(1) [OF assms(2), of d q Map.empty] show ?thesis
    by (auto simp: build_logical_plan_def returns_def extends_def)
qed

theorem build_terminates_witness:
  "ranked_query sample_rank undefined 2 chained_query \<and>
   build_logical_plan undefined 5 (QueryStmt chained_query) = build_logical_plan undefined 2 (QueryStmt chained_query) \<and>
   build_logical_plan undefined 2 (QueryStmt chained_query) \<noteq> Inl StackExhausted"
proof -
  have "ranked_query sample_rank undefined 2 chained_query"
    by (simp add: sample_defs ranked_set_expr.simps object_name_to_string_def cte_key_def
        to_lowercase_def ascii_lower_def less_eq_char_def)
  with build_terminates [OF this, of 5] show ?thesis by simp
qed


text \<open>
  C29. The keys extracted from an ON condition are paired column by column, each left key
  names a table of the left input and each right key one of the right input, and for two
  rows that satisfy the condition the keys have equal values: rows that join agree on the
  keys by which they are hash partitioned.
\<close>

theorem join_keys_sound:
  assumes "extract_join_on_expr op = Some e" "extract_join_keys_from_operator d op ls rs = (lk, rk)"
  shows "length lk = length rk \<and> (\<forall>a \<in> set lk. is_from_tables a ls) \<and>
    (\<forall>b \<in> set rk. is_from_tables b rs) \<and> (condition_holds val other e \<longrightarrow> map val lk = map val rk)"
proof -
  let ?ks = "extract_equi_keys e ls rs"
  from assms have k: "lk = map fst ?ks" "rk = map snd ?ks"
    by (auto simp: extract_join_on_expr_def extract_join_keys_from_operator_def Let_def
        split: option.splits join_constraint_of.splits)
  show ?thesis unfolding k by (auto dest: equi_keys_sides equi_keys_equal)
qed

definition sample_on :: expr where
  "sample_on = BinaryOp (BinaryOp (column_of ''o'' ''id'') Eq (column_of ''c'' ''order_id'')) And
     (Nested (BinaryOp (column_of ''C'' ''day'') Eq (column_of ''o'' ''day'')))"

theorem join_keys_sound_witness:
  "extract_join_keys_from_operator undefined (Inner (On sample_on)) [''orders'', ''o''] [''c''] =
     ([qualified_ref ''o'' ''id'', qualified_ref ''o'' ''day''],
      [qualified_ref ''c'' ''order_id'', qualified_ref ''C'' ''day'']) \<and>
   (\<lambda>_. 7 :: nat) (qualified_ref ''o'' ''id'') = (\<lambda>_. 7) (qualified_ref ''c'' ''order_id'') \<and>
   map (\<lambda>_. 7 :: nat) [qualified_ref ''o'' ''id'', qualified_ref ''o'' ''day''] =
     map (\<lambda>_. 7) [qualified_ref ''c'' ''order_id'', qualified_ref ''C'' ''day'']"
proof -
  have on: "extract_join_on_expr (Inner (On sample_on)) = Some sample_on"
    by (simp add: extract_join_on_expr_def)
  have keys: "extract_join_keys_from_operator undefined (Inner (On sample_on)) [''orders'', ''o''] [''c''] =
     ([qualified_ref ''o'' ''id'', qualified_ref ''o'' ''day''],
      [qualified_ref ''c'' ''order_id'', qualified_ref ''C'' ''day''])"
    by (simp add: extract_join_keys_from_operator_def sample_on_def column_of_def is_from_tables_def
        qualified_ref_def eq_ignore_ascii_case_def ascii_lower_def less_eq_char_def char_of_def bit_0 Let_def)
  have "condition_holds (\<lambda>_. 7 :: nat) (\<lambda>_. True) sample_on"
    by (simp add: sample_on_def column_of_def)
  with join_keys_sound [OF on keys, of "\<lambda>_. 7 :: nat" "\<lambda>_. True"] keys show ?thesis by simp
qed



text \<open>
  A function over a named window does not change the partition keys, whatever the named
  window is: \<^verbatim>\<open>SUM(x) OVER (PARTITION BY a), SUM(x) OVER w\<close> is partitioned by
  \<^verbatim>\<open>a\<close>, although the rows of one partition of \<^verbatim>\<open>w\<close> may have different
  values of \<^verbatim>\<open>a\<close>.
\<close>

lemma named_window_ignored:
  "extract_window_partition_keys (UnnamedExpr (sum_over (NamedWindow w)) # items) =
     extract_window_partition_keys items \<and>
   select_item_has_window (UnnamedExpr (sum_over (NamedWindow w)))"
  by (simp add: extract_window_partition_keys_def window_specs_def sum_over_def plain_column_def
      List.map_filter_def select_item_has_window_def)


definition sum_x :: expr where
  "sum_x = Function [IdentPart (ident_new ''SUM'')] (ArgList [UnnamedArg (ArgExpr (plain_column ''x''))] []) None []"


end
