(* ===== verification/Pipeline.thy ===== *)
theory Pipeline
  imports Stage_Reads Built_Plans
begin

text \<open>
  \<^verbatim>\<open>ldp/planner/pipeline.rs\<close>, the entry point of the planner (parse, build, annotate,
  cut), with \<^verbatim>\<open>sql/parser.rs\<close>, \<^verbatim>\<open>sql/error.rs\<close> and the plan inspector of
  \<^verbatim>\<open>ldp/planner/inspect.rs\<close>. The parser of the \<^verbatim>\<open>sqlparser\<close> crate is an argument.
\<close>

section \<open>Parsing\<close>

datatype sql_transform_error =
    ParseError string
  | MultipleStatements
  | UnsupportedStatementType string
  | DatasetNotRegistered string
  | TransformFailed string
  | TransformInternal string

fun sql_transform_error_display :: "sql_transform_error \<Rightarrow> string" where
  "sql_transform_error_display (ParseError s) = ''Failed to parse SQL: '' @ s"
| "sql_transform_error_display MultipleStatements =
     ''Multiple statements not supported; expected single SELECT query''"
| "sql_transform_error_display (UnsupportedStatementType s) = ''Unsupported SQL statement type: '' @ s"
| "sql_transform_error_display (DatasetNotRegistered s) = ''Dataset not registered: '' @ s"
| "sql_transform_error_display (TransformFailed s) = ''Failed to transform SQL: '' @ s"
| "sql_transform_error_display (TransformInternal s) = ''Internal error: '' @ s"

type_synonym sql_parser = "string \<Rightarrow> string + statement list"

definition parse_sql :: "sql_parser \<Rightarrow> string \<Rightarrow> sql_transform_error + statement" where
  "parse_sql parser sql =
     (case parser sql of
        Inl err \<Rightarrow> Inl (ParseError err)
      | Inr statements \<Rightarrow>
          if statements = [] then Inl (ParseError ''Empty SQL statement'')
          else if length statements > 1 then Inl MultipleStatements
          else Inr (hd statements))"

definition to_sql :: "sql_display \<Rightarrow> statement \<Rightarrow> string" where
  "to_sql d stmt = fmt_statement d stmt"

section \<open>Planning\<close>

datatype pipeline_error =
    Parse sql_transform_error
  | PlanBuild plan_build_error
  | Planning planning_error

text \<open>
  A run of the planner returns an error, overflows the stack in the plan builder, or panics
  on an index out of range while cutting.
\<close>

datatype pipeline_stop = PipelineError pipeline_error | StackOverflow | IndexPanic

fun of_build_stop :: "build_stop \<Rightarrow> pipeline_stop" where
  "of_build_stop (BuildError e) = PipelineError (PlanBuild e)"
| "of_build_stop StackExhausted = StackOverflow"

definition annotate_and_cut ::
  "sql_display \<Rightarrow> logical_plan \<Rightarrow> metadata_ops \<Rightarrow> planner_policy \<Rightarrow> string \<Rightarrow> plan_context \<Rightarrow>
   pipeline_stop + ldp_plan" where
  "annotate_and_cut d plan md policy qid pc =
     (case annotate_logical_plan plan policy md of
        Inl e \<Rightarrow> Inl (PipelineError (Planning e))
      | Inr annotated \<Rightarrow>
          (case cut_into_stages d annotated policy qid pc of
             None \<Rightarrow> Inl IndexPanic
           | Some ldp \<Rightarrow> Inr ldp))"

definition plan_ldp ::
  "sql_parser \<Rightarrow> sql_display \<Rightarrow> nat \<Rightarrow> string \<Rightarrow> metadata_ops \<Rightarrow> planner_policy \<Rightarrow> string \<Rightarrow>
   pipeline_stop + ldp_plan" where
  "plan_ldp parser d depth sql md policy qid =
     (case parse_sql parser sql of
        Inl e \<Rightarrow> Inl (PipelineError (Parse e))
      | Inr stmt \<Rightarrow>
          (case build_logical_plan d depth stmt of
             Inl e \<Rightarrow> Inl (of_build_stop e)
           | Inr r \<Rightarrow> annotate_and_cut d (br_plan r) md policy qid (br_context r)))"

definition plan_ldp_from_logical_plan ::
  "sql_display \<Rightarrow> logical_plan \<Rightarrow> metadata_ops \<Rightarrow> planner_policy \<Rightarrow> string \<Rightarrow>
   pipeline_stop + ldp_plan" where
  "plan_ldp_from_logical_plan d plan md policy qid =
     annotate_and_cut d plan md policy qid plan_context_default"

section \<open>Inspecting a plan\<close>

fun exchange_kind_name :: "exchange \<Rightarrow> string" where
  "exchange_kind_name (Gather w) = ''Gather''"
| "exchange_kind_name (Broadcast ws) = ''Broadcast''"
| "exchange_kind_name (HashPartition refs n) = ''HashPartition''"

definition count_exchange_kinds :: "ldp_plan \<Rightarrow> string \<rightharpoonup> nat" where
  "count_exchange_kinds plan =
     fold (\<lambda>e m. m(exchange_kind_name (kind e) \<mapsto>
         (case m (exchange_kind_name (kind e)) of Some n \<Rightarrow> n | None \<Rightarrow> 0) + 1)) (edges plan) Map.empty"

definition stage_count :: "ldp_plan \<Rightarrow> nat" where
  "stage_count plan = length (stages plan)"

definition has_exchange_type :: "ldp_plan \<Rightarrow> string \<Rightarrow> bool" where
  "has_exchange_type plan name =
     ((case count_exchange_kinds plan name of Some n \<Rightarrow> n | None \<Rightarrow> 0) > 0)"

definition estimate_data_movement :: "ldp_plan \<Rightarrow> u64" where
  "estimate_data_movement plan = of_nat (length (edges plan))"

lemma count_kinds_fold:
  "(case fold (\<lambda>e m. m(f e \<mapsto> (case m (f e) of Some n \<Rightarrow> n | None \<Rightarrow> 0) + 1)) es m k of
      Some n \<Rightarrow> n | None \<Rightarrow> (0 :: nat)) =
   (case m k of Some n \<Rightarrow> n | None \<Rightarrow> 0) + length (filter (\<lambda>e. f e = k) es)"
  by (induction es arbitrary: m) auto

lemma has_exchange_type_iff:
  "has_exchange_type plan name \<longleftrightarrow> (\<exists>e \<in> set (edges plan). exchange_kind_name (kind e) = name)"
  using count_kinds_fold [of "\<lambda>e. exchange_kind_name (kind e)" "edges plan" Map.empty name]
  by (auto simp: has_exchange_type_def count_exchange_kinds_def filter_empty_conv)

section \<open>Built plans are safe to cut\<close>

lemma tree_size_child: "c \<in> set (ap_children n) \<Longrightarrow> tree_size c < tree_size n"
  using member_le_sum_list [of "tree_size c" "map tree_size (ap_children n)"] tree_size_children [of n]
  by (simp del: tree_size_children)

definition planned :: "logical_plan \<Rightarrow> bool" where
  "planned p \<longleftrightarrow> query_shape p \<or> from_shape p \<or> (\<exists>q e. p = Filter q e \<and> from_shape q)"

lemma planned_children: "planned p \<Longrightarrow> c \<in> set (plan_children p) \<Longrightarrow> planned c"
  by (cases p) (auto simp: planned_def split: logical_plan.splits)

lemma planned_sort: "planned p \<Longrightarrow> sort_order_by_columns p \<noteq> [] \<Longrightarrow>
    c \<in> set (plan_children p) \<Longrightarrow> \<not> is_leaf c"
  by (cases p) (auto simp: planned_def elim: is_leaf.elims)

lemma planned_not_read: "planned p \<Longrightarrow> \<not> is_read p"
  by (cases p) (auto simp: planned_def)

lemma annotated_children_plans:
  assumes "annotated_ok policy n" "c \<in> set (ap_children n)"
  shows "ap_plan c \<in> set (plan_children (ap_plan n))" and "annotated_ok policy c"
proof -
  have "n \<in> set (nodes n)" by (simp add: nodes_eq [of n])
  with assms(1) have "map ap_plan (ap_children n) = plan_children (ap_plan n)"
    by (simp add: annotated_ok_def node_ok_def)
  with assms(2) show "ap_plan c \<in> set (plan_children (ap_plan n))" by (metis imageI list.set_map)
  from assms show "annotated_ok policy c" by (auto simp: annotated_ok_def nodes_eq [of n])
qed

lemma annotated_arity:
  "annotated_ok policy n \<Longrightarrow> map ap_plan (ap_children n) = plan_children (ap_plan n)"
  by (simp add: annotated_ok_def node_ok_def nodes_eq [of n])

lemma planned_cut_safe:
  "annotated_ok policy n \<Longrightarrow> planned (ap_plan n) \<Longrightarrow> cut_safe n \<and> read_free n"
proof (induction n rule: measure_induct_rule [of tree_size])
  case (less n)
  have kids: "cut_safe c \<and> read_free c" if "c \<in> set (ap_children n)" for c
    using less.IH [OF tree_size_child [OF that] annotated_children_plans(2) [OF less.prems(1) that]]
      planned_children [OF less.prems(2) annotated_children_plans(1) [OF less.prems(1) that]] by blast
  have "length (ap_children n) = length (plan_children (ap_plan n))"
    using annotated_arity [OF less.prems(1)] by (metis length_map)
  moreover have "\<not> is_leaf (ap_plan c)"
    if "c \<in> set (ap_children n)" "sort_order_by_columns (ap_plan n) \<noteq> []" for c
    using planned_sort [OF less.prems(2) that(2) annotated_children_plans(1) [OF less.prems(1) that(1)]] .
  ultimately show ?case
    using kids planned_not_read [OF less.prems(2)]
    by (auto simp: cut_safe_unfold [of n] read_free_unfold [of n])
qed

lemma exchanges_bound: "annotated_ok policy n \<Longrightarrow> inner_exchanges n \<le> 2 * size (ap_plan n)"
proof (induction n rule: measure_induct_rule [of tree_size])
  case (less n)
  have kid: "count_exchanges c \<le> Suc (2 * size (ap_plan c))" if "c \<in> set (ap_children n)" for c
    using less.IH [OF tree_size_child [OF that] annotated_children_plans(2) [OF less.prems that]]
    by (simp add: count_exchanges_unfold [of c])
  have "inner_exchanges n \<le> sum_list (map (\<lambda>p. Suc (2 * size p)) (map ap_plan (ap_children n)))"
    unfolding map_map by (rule sum_list_mono) (use kid in auto)
  also have "\<dots> \<le> 2 * size (ap_plan n)"
    unfolding annotated_arity [OF less.prems] by (cases "ap_plan n") auto
  finally show ?case .
qed

section \<open>A set operation under a sort\<close>

text \<open>\<^verbatim>\<open>SELECT x FROM a UNION ALL SELECT x FROM b ORDER BY x\<close>, with \<open>a\<close> and \<open>b\<close> on two workers.\<close>

definition simple_select :: "string \<Rightarrow> string \<Rightarrow> select" where
  "simple_select c t = Select [UnnamedExpr (plain_column c)] [TableWithJoins (table_ref t) []] None
     (GroupByExpressions [] []) None []"

definition union_query :: query where
  "union_query = Query None (SetOperation SetUnion QAll (SelectBody (simple_select ''x'' ''a''))
       (SelectBody (simple_select ''x'' ''b'')))
     (Some (OrderByExpressions [OrderByExpr (plain_column ''x'') []])) None None []"

definition two_worker_stats :: "string \<Rightarrow> table_scan_stats" where
  "two_worker_stats t = \<lparr>ts_rows = 10, ts_bytes = 100, ts_workers = [WorkerId ''w1'', WorkerId ''w2''],
     ts_source = Exact, ts_distribution = None\<rparr>"

definition two_worker_ops :: metadata_ops where
  "two_worker_ops = \<lparr>get_epoch_stats = (\<lambda>_. None), get_epoch_worker = (\<lambda>_. None),
     get_epochs_for_table = (\<lambda>_ _ _. []), get_table_scan_stats = two_worker_stats\<rparr>"

definition union_plan :: logical_plan where
  "union_plan = Sort (SetOp (Project (Scan ''a'' None (table_ref ''a'')) [UnnamedExpr (plain_column ''x'')])
      (Project (Scan ''b'' None (table_ref ''b'')) [UnnamedExpr (plain_column ''x'')]) SetUnion QAll)
      [OrderByExpr (plain_column ''x'') []]"

lemma union_built:
  "build_logical_plan d depth (QueryStmt union_query) =
     Inr \<lparr>br_plan = union_plan, br_context = plan_context_default\<rparr>"
  by (simp add: union_query_def build_logical_plan_def query_cte_list_def add_ctes_def simple_select_def
      build_from_clause_def table_ref_def object_name_to_string_def Let_def union_plan_def
      plan_context_default_def wrap_select_def select_item_has_aggregate_def select_item_has_window_def
      plain_column_def wrap_limit_def extract_limit_offset_def)

lemmas annotate_more =
  annotate_recursive.simps [of "Project p e" for p e]
  annotate_recursive.simps [of "SetOp l r op k" for l r op k]

lemmas cut_at =
  cut_recursive.simps [of d "AnnotatedPlan p a ex pre cs" for d p a ex pre cs]
  extract_stage_plan.simps [of d "AnnotatedPlan p a ex pre cs" for d p a ex pre cs]
  cut_children.simps

definition both_workers :: distribution_annotation where
  "both_workers = \<lparr>distribution = EpochPartitioned [WorkerId ''w1'', WorkerId ''w2''],
     est_rows = 10, est_bytes = 100, stats_source = Exact\<rparr>"

definition union_input :: "string \<Rightarrow> annotated_plan" where
  "union_input t = AnnotatedPlan (Project (Scan t None (table_ref t)) [UnnamedExpr (plain_column ''x'')])
     both_workers None None [AnnotatedPlan (Scan t None (table_ref t)) both_workers None None []]"

definition union_tree :: annotated_plan where
  "union_tree =
     (let home = \<lparr>distribution = Singleton worker_default, est_rows = 20, est_bytes = 200,
            stats_source = Exact\<rparr>;
          inputs = map union_input [''a'', ''b''];
          setop = SetOp (ap_plan (inputs ! 0)) (ap_plan (inputs ! 1)) SetUnion QAll
      in AnnotatedPlan union_plan home None None
           [AnnotatedPlan setop home (Some (Gather worker_default))
              (Some (distribution both_workers)) inputs])"

lemma union_annotated:
  "annotate_logical_plan union_plan policy_default two_worker_ops = Inr union_tree"
  by (simp add: annotate_logical_plan_def union_plan_def annotate_at annotate_more exchanges_to_insert_def
      two_worker_ops_def two_worker_stats_def to_distribution_def determine_exchange_def
      annotated_new_def annotation_with_source_def determine_gather_exchange_def can_gather_def
      policy_default_def preserved_def set_op_output_def Let_def union_tree_def union_input_def
      both_workers_def)

lemma union_cut:
  "\<exists>plan. cut_into_stages d union_tree policy_default qid plan_context_default = Some plan \<and>
     map stage_sql (stages plan) =
       [''SELECT '' @ fmt_item d (UnnamedExpr (plain_column ''x'')) @
          '' FROM (SELECT '' @ fmt_item d (UnnamedExpr (plain_column ''x'')) @ '' FROM '' @
          fmt_factor d (table_ref ''a'') @ '') AS __subquery'',
        ''SELECT * FROM __exchange_0 ORDER BY '' @ fmt_order d (OrderByExpr (plain_column ''x'') [])]"
  by (simp add: Let_def union_tree_def union_input_def both_workers_def union_plan_def
      cut_into_stages_def cut_at with_plan_def push_columns_into_child_def finish_stage_def
      extract_order_by_columns_def plain_column_def filter_ctes_for_stage_def plan_context_default_def
      alloc_stage_id_def alloc_exchange_id_def cut_context_new_def ldp_plan_new_def
      exchange_placeholder_def restore_output_columns_def List.map_filter_def stage_inputs_def
      generate_stage_sql_def determine_stage_output_def stage_annotation_def assign_stage_workers_def
      assign_target_workers_def order_by_text_def write_select_items_def
      show_u32_def show_nat.simps digit_char_def write_cte_prefix_def policy_default_def
      dequalify_order_by_expr_def char_of_def bit_0)

section \<open>Properties\<close>

text \<open>
  C33. The planner never indexes out of range: for every SQL text, every catalog and every
  policy it returns a plan or an error, or overflows the stack in the expansion of table
  expressions.
\<close>

theorem plan_ldp_no_panic: "plan_ldp parser d depth sql md policy qid \<noteq> Inl IndexPanic"
proof -
  have "annotate_and_cut d (br_plan r) md policy qid (br_context r) \<noteq> Inl IndexPanic"
    if r: "build_logical_plan d depth stmt = Inr r" for stmt r
  proof (cases "annotate_logical_plan (br_plan r) policy md")
    case (Inr ap)
    from r have "planned (br_plan r)"
      by (auto simp: planned_def build_logical_plan_def split: statement.splits intro: built_shapes(1))
    with annotate_ok [OF Inr [unfolded annotate_logical_plan_def]] have "cut_safe ap"
      by (metis planned_cut_safe)
    from cut_total(1) [OF this, of d "ldp_plan_new (QueryId qid) (policy_coordinator policy)"
        "cut_context_new (br_context r)"] Inr
    show ?thesis by (auto simp: annotate_and_cut_def cut_into_stages_def Let_def)
  qed (simp add: annotate_and_cut_def)
  moreover have "of_build_stop e \<noteq> IndexPanic" for e by (cases e) simp_all
  ultimately show ?thesis by (auto simp: plan_ldp_def split: sum.split)
qed

lemma planned_cut:
  assumes "parse_sql parser sql = Inr stmt" "build_logical_plan d depth stmt = Inr r"
    and "size (br_plan r) < 2 ^ 30" "plan_ldp parser d depth sql md policy qid = Inr plan"
  obtains ap where "cut_into_stages d ap policy qid (br_context r) = Some plan"
    and "inner_exchanges ap < 2 ^ 32 - 1"
proof -
  from assms(1,2,4) obtain ap where ap: "annotate_logical_plan (br_plan r) policy md = Inr ap"
    and cut: "cut_into_stages d ap policy qid (br_context r) = Some plan"
    by (auto simp: plan_ldp_def annotate_and_cut_def split: sum.splits option.splits)
  have ok: "annotated_ok policy ap" "ap_plan ap = br_plan r"
    using annotate_ok [OF ap [unfolded annotate_logical_plan_def]] by simp_all
  have "inner_exchanges ap \<le> 2 * size (br_plan r)" using exchanges_bound [OF ok(1)] unfolding ok(2) .
  with assms(3) have "inner_exchanges ap < 2 ^ 32 - 1" by simp
  with cut show thesis by (rule that)
qed

text \<open>
  C9. Every plan that the planner returns for a query of less than \<open>2 ^ 30\<close> operators can be
  executed stage by stage: stage numbers are unique, the stages form an acyclic graph,
  \<open>topological_order\<close> lists each of them once, after the stages it reads, and every stage
  has workers to run on.
\<close>

theorem plan_ldp_executable:
  assumes "parse_sql parser sql = Inr stmt" "build_logical_plan d depth stmt = Inr r"
    and "size (br_plan r) < 2 ^ 30" "plan_ldp parser d depth sql md policy qid = Inr plan"
  shows "plan_dag plan \<and> distinct (topological_order plan) \<and>
    set (topological_order plan) = stage_id ` set (stages plan) \<and>
    deps_before (edges plan) (topological_order plan) \<and>
    (\<forall>s \<in> set (stages plan). workers_valid (target_workers s))"
proof -
  obtain ap where cut: "cut_into_stages d ap policy qid (br_context r) = Some plan"
    and small: "inner_exchanges ap < 2 ^ 32 - 1"
    by (rule planned_cut [OF assms])
  have dag: "plan_dag plan" by (rule cut_plan_dag [OF cut small])
  then have e: "edge_rel plan \<subseteq> stage_ids plan \<times> stage_ids plan" "acyclic (edge_rel plan)"
    by (simp_all add: plan_dag_def)
  from e(1) obtain deg where "topo_inv plan [] (topological_order plan) deg" by (rule topological_order_final)
  moreover have "workers_valid (target_workers s)" if "s \<in> set (stages plan)" for s
    by (rule cut_stage_workers [OF cut small that])
  ultimately show ?thesis
    using dag topological_order_complete [OF e] unfolding topo_inv_def stage_ids_def by blast
qed

theorem plan_ldp_executable_witness:
  "\<exists>plan. plan_ldp (\<lambda>_. Inr [QueryStmt union_query]) undefined 0 [] two_worker_ops policy_default [] = Inr plan \<and>
     set (topological_order plan) = stage_id ` set (stages plan)"
proof -
  obtain plan where plan: "plan_ldp (\<lambda>_. Inr [QueryStmt union_query]) undefined 0 [] two_worker_ops
      policy_default [] = Inr plan"
    using union_cut [of undefined "[]"]
    by (auto simp: plan_ldp_def parse_sql_def union_built annotate_and_cut_def union_annotated)
  have parsed: "parse_sql (\<lambda>_. Inr [QueryStmt union_query]) [] = Inr (QueryStmt union_query)"
    by (simp add: parse_sql_def)
  have "size (br_plan \<lparr>br_plan = union_plan, br_context = plan_context_default\<rparr>) < 2 ^ 30"
    by (simp add: union_plan_def)
  from plan_ldp_executable [OF parsed union_built this plan] plan show ?thesis by blast
qed


end
