(* ===== verification/Discovery.thy ===== *)
theory Discovery
  imports Sql_Walk Interval Pipeline
begin

text \<open>
  \<^verbatim>\<open>sql/discovery.rs\<close>: the walk that finds the references to registered datasets in a
  statement, with the scope of each.
\<close>

record discovery =
  found_tables :: "table_reference list"
  scope_stack :: "scope_id list"
  next_scope_id :: nat
  known_datasets :: "string set"

definition discovery_new :: "string set \<Rightarrow> discovery" where
  "discovery_new registered =
     \<lparr>found_tables = [], scope_stack = [ScopeId 0], next_scope_id = 1, known_datasets = registered\<rparr>"

definition current_scope :: "discovery \<Rightarrow> scope_id" where
  "current_scope st = (if scope_stack st = [] then ScopeId 0 else last (scope_stack st))"

definition enter_scope :: "scope_kind \<Rightarrow> discovery \<Rightarrow> discovery" where
  "enter_scope k st =
     st\<lparr>next_scope_id := next_scope_id st + 1, scope_stack := scope_stack st @ [ScopeId (next_scope_id st)]\<rparr>"

definition exit_scope :: "discovery \<Rightarrow> discovery" where
  "exit_scope st =
     (if 1 < length (scope_stack st) then st\<lparr>scope_stack := butlast (scope_stack st)\<rparr> else st)"

definition extract_table_name :: "object_name \<Rightarrow> string" where
  "extract_table_name name =
     (if name = [] then []
      else case last name of IdentPart i \<Rightarrow> ident_value i | OtherPart s \<Rightarrow> [])"

definition visit_table :: "object_name \<Rightarrow> table_alias option \<Rightarrow> discovery \<Rightarrow> discovery" where
  "visit_table name al st =
     (let table_name = extract_table_name name
      in if table_name \<in> known_datasets st
         then st\<lparr>found_tables := found_tables st @ [\<lparr>tr_dataset = table_name,
            tr_alias = map_option (\<lambda>a. ident_value (alias_name a)) al, tr_scope = current_scope st\<rparr>]\<rparr>
         else st)"

text \<open>A walk inside a new scope.\<close>

definition in_scope ::
  "scope_kind \<Rightarrow> (discovery \<Rightarrow> sql_transform_error + discovery) \<Rightarrow> discovery \<Rightarrow> sql_transform_error + discovery"
where
  "in_scope k f st = bind_ok (f (enter_scope k st)) (\<lambda>st. Inr (exit_scope st))"

lemma in_scope_cong [fundef_cong]:
  "k = k' \<Longrightarrow> st = st' \<Longrightarrow> (\<And>st. f st = g st) \<Longrightarrow> in_scope k f st = in_scope k' g st'"
  by (simp add: in_scope_def)

function (sequential) visit_query :: "query \<Rightarrow> discovery \<Rightarrow> sql_transform_error + discovery"
  and visit_set_expr :: "set_expr \<Rightarrow> discovery \<Rightarrow> sql_transform_error + discovery"
  and visit_select :: "select \<Rightarrow> discovery \<Rightarrow> sql_transform_error + discovery"
  and visit_table_with_joins :: "table_with_joins \<Rightarrow> discovery \<Rightarrow> sql_transform_error + discovery"
  and visit_table_factor :: "table_factor \<Rightarrow> discovery \<Rightarrow> sql_transform_error + discovery"
  and visit_expr_for_subqueries :: "expr \<Rightarrow> discovery \<Rightarrow> sql_transform_error + discovery"
where
  "visit_query (Query w body os lim fetch rest) st =
     and_then (case w of
         Some (r, ctes) \<Rightarrow> fold_ok (\<lambda>cte st.
           in_scope (CteScope (ident_value (alias_name (cte_alias cte)))) (visit_query (cte_query cte)) st) ctes st
       | None \<Rightarrow> Inr st)
     (visit_set_expr body)"
| "visit_set_expr b st =
     (case b of
        SelectBody s \<Rightarrow> visit_select s st
      | QueryBody q \<Rightarrow> in_scope SubqueryScope (visit_query q) st
      | SetOperation op k l r \<Rightarrow> and_then (visit_set_expr l st) (visit_set_expr r)
      | Values v \<Rightarrow> Inr st
      | InsertBody v \<Rightarrow> Inl (UnsupportedStatementType ''INSERT'')
      | UpdateBody v \<Rightarrow> Inl (UnsupportedStatementType ''UPDATE'')
      | OtherBody v \<Rightarrow> Inr st)"
| "visit_select (Select proj from_items wh gb hv rest) st =
     and_then (fold_ok visit_table_with_joins from_items st) (\<lambda>st.
     and_then (visit_option visit_expr_for_subqueries wh st) (\<lambda>st.
     and_then (fold_ok (\<lambda>i. visit_option visit_expr_for_subqueries (select_item_expr i)) proj st) (\<lambda>st.
       visit_option visit_expr_for_subqueries hv st)))"
| "visit_table_with_joins (TableWithJoins rel joins) st =
     and_then (visit_table_factor rel st) (fold_ok (\<lambda>j st.
       and_then (visit_table_factor (join_relation j) st)
         (visit_option visit_expr_for_subqueries (extract_join_on_expr (join_operator j)))) joins)"
| "visit_table_factor (TableRef name al rest) st = Inr (visit_table name al st)"
| "visit_table_factor (Derived q al rest) st = in_scope SubqueryScope (visit_query q) st"
| "visit_table_factor (NestedJoin twj al) st = visit_table_with_joins twj st"
| "visit_table_factor _ st = Inr st"
| "visit_expr_for_subqueries e st =
     (case e of
        Subquery q \<Rightarrow> in_scope SubqueryScope (visit_query q) st
      | InSubquery x q negated \<Rightarrow> in_scope SubqueryScope (visit_query q) st
      | Exists q negated \<Rightarrow> in_scope SubqueryScope (visit_query q) st
      | BinaryOp l op r \<Rightarrow> and_then (visit_expr_for_subqueries l st) (visit_expr_for_subqueries r)
      | UnaryOp op x \<Rightarrow> visit_expr_for_subqueries x st
      | Nested x \<Rightarrow> visit_expr_for_subqueries x st
      | Between x negated low high \<Rightarrow>
          and_then (visit_expr_for_subqueries x st) (\<lambda>st.
          and_then (visit_expr_for_subqueries low st) (visit_expr_for_subqueries high))
      | Case operand conditions else_result \<Rightarrow>
          and_then (visit_option visit_expr_for_subqueries operand st) (\<lambda>st.
          and_then (fold_ok (\<lambda>cw st. and_then (visit_expr_for_subqueries (when_condition cw) st)
              (visit_expr_for_subqueries (when_result cw))) conditions st)
            (visit_option visit_expr_for_subqueries else_result))
      | Function name args over rest \<Rightarrow>
          (case args of
             ArgList xs r \<Rightarrow> fold_ok (\<lambda>a. visit_option visit_expr_for_subqueries (unnamed_arg_expr a)) xs st
           | OtherArguments r \<Rightarrow> Inr st)
      | _ \<Rightarrow> Inr st)"
  by pat_completeness auto
termination
  by (relation "measure (\<lambda>x. case x of
      Inl (Inl (q, _)) \<Rightarrow> size q | Inl (Inr (Inl (b, _))) \<Rightarrow> size b | Inl (Inr (Inr (s, _))) \<Rightarrow> size s
    | Inr (Inl (t, _)) \<Rightarrow> size t | Inr (Inr (Inl (f, _))) \<Rightarrow> size f | Inr (Inr (Inr (e, _))) \<Rightarrow> size e)")
    (auto dest: walk_sizes)

declare visit_set_expr.simps [simp del] visit_expr_for_subqueries.simps [simp del]

definition visit_statement :: "sql_display \<Rightarrow> statement \<Rightarrow> discovery \<Rightarrow> sql_transform_error + discovery" where
  "visit_statement d stmt st =
     (case stmt of
        QueryStmt q \<Rightarrow> visit_query q st
      | other \<Rightarrow> Inl (UnsupportedStatementType (statement_discriminant d other)))"

definition discover :: "sql_display \<Rightarrow> string set \<Rightarrow> statement \<Rightarrow> sql_transform_error + table_reference list" where
  "discover d registered stmt =
     bind_ok (visit_statement d stmt (discovery_new registered)) (\<lambda>st. Inr (found_tables st))"

end
