(* ===== verification/Boolean_Analyzer.thy ===== *)
theory Boolean_Analyzer
  imports Interval Sql_Ast
begin

text \<open>
  \<^verbatim>\<open>sql/boolean_analyzer.rs\<close>: the date interval that a WHERE condition implies for the
  time column of a table, and its soundness: no row that satisfies the condition is outside
  the interval.
\<close>

section \<open>Columns and bounds\<close>

fun is_time_column_ref :: "expr \<Rightarrow> string \<Rightarrow> string \<Rightarrow> bool" where
  "is_time_column_ref (Identifier i) table_name time_col = eq_ignore_ascii_case (ident_value i) time_col"
| "is_time_column_ref (CompoundIdentifier parts) table_name time_col =
     (if 2 \<le> length parts
      then eq_ignore_ascii_case (ident_value (last parts)) time_col \<and>
           eq_ignore_ascii_case (ident_value (parts ! (length parts - 2))) table_name
      else if length parts = 1 then eq_ignore_ascii_case (ident_value (parts ! 0)) time_col
      else False)"
| "is_time_column_ref _ table_name time_col = False"

definition is_valid_date :: "calendar \<Rightarrow> string \<Rightarrow> bool" where
  "is_valid_date cal s \<longleftrightarrow> parse_date cal s \<noteq> None"

definition literal_bound :: "calendar \<Rightarrow> string \<Rightarrow> date_bound option" where
  "literal_bound cal s = (if is_valid_date cal s then Some (Literal s) else None)"

fun extract_date_bound :: "calendar \<Rightarrow> expr \<Rightarrow> date_bound option" where
  "extract_date_bound cal (Value v) =
     (case v of
        SingleQuotedString s \<Rightarrow> literal_bound cal s
      | Placeholder p \<Rightarrow> Some (Parameter p)
      | OtherValue s \<Rightarrow> None)"
| "extract_date_bound cal (TypedString ty v) =
     (if ty = DateType
      then case v of SingleQuotedString s \<Rightarrow> literal_bound cal s | _ \<Rightarrow> None
      else None)"
| "extract_date_bound cal (Cast e ty rest) =
     (if ty = DateType then extract_date_bound cal e else None)"
| "extract_date_bound cal _ = None"

definition add_one_day :: "calendar \<Rightarrow> date_bound \<Rightarrow> date_bound" where
  "add_one_day cal bound = next_day cal bound"

section \<open>Intervals of conditions\<close>

text \<open>The arms of a comparison with the time column on its left and on its right.\<close>

fun interval_of_comparison :: "calendar \<Rightarrow> binary_operator \<Rightarrow> date_bound \<Rightarrow> interval option" where
  "interval_of_comparison cal GtEq b = Some (from_bounds (Some b) None)"
| "interval_of_comparison cal Gt b = Some (from_bounds (Some (add_one_day cal b)) None)"
| "interval_of_comparison cal Lt b = Some (from_bounds None (Some b))"
| "interval_of_comparison cal LtEq b = Some (from_bounds None (Some (add_one_day cal b)))"
| "interval_of_comparison cal Eq b = Some (interval_point cal b)"
| "interval_of_comparison cal _ b = None"

fun interval_of_reversed :: "calendar \<Rightarrow> binary_operator \<Rightarrow> date_bound \<Rightarrow> interval option" where
  "interval_of_reversed cal LtEq b = Some (from_bounds (Some b) None)"
| "interval_of_reversed cal Lt b = Some (from_bounds (Some (add_one_day cal b)) None)"
| "interval_of_reversed cal Gt b = Some (from_bounds None (Some b))"
| "interval_of_reversed cal GtEq b = Some (from_bounds None (Some (add_one_day cal b)))"
| "interval_of_reversed cal Eq b = Some (interval_point cal b)"
| "interval_of_reversed cal _ b = None"

definition or_universe :: "interval option \<Rightarrow> interval" where
  "or_universe r = (case r of Some iv \<Rightarrow> iv | None \<Rightarrow> interval_universe)"

definition comparison_interval ::
  "calendar \<Rightarrow> expr \<Rightarrow> binary_operator \<Rightarrow> expr \<Rightarrow> string \<Rightarrow> string \<Rightarrow> interval" where
  "comparison_interval cal l op r table_name time_col =
     (if is_time_column_ref l table_name time_col
      then or_universe (Option.bind (extract_date_bound cal r) (interval_of_comparison cal op))
      else if is_time_column_ref r table_name time_col
      then or_universe (Option.bind (extract_date_bound cal l) (interval_of_reversed cal op))
      else interval_universe)"

definition between_interval ::
  "calendar \<Rightarrow> expr \<Rightarrow> expr \<Rightarrow> expr \<Rightarrow> string \<Rightarrow> string \<Rightarrow> interval" where
  "between_interval cal e low high table_name time_col =
     (if is_time_column_ref e table_name time_col
      then (case (extract_date_bound cal low, extract_date_bound cal high) of
              (Some s, Some b) \<Rightarrow> from_bounds (Some s) (Some (add_one_day cal b))
            | _ \<Rightarrow> interval_universe)
      else interval_universe)"

fun analyze_for_table :: "calendar \<Rightarrow> expr \<Rightarrow> string \<Rightarrow> string \<Rightarrow> interval" where
  "analyze_for_table cal (BinaryOp l op r) table_name time_col =
     (case op of
        And \<Rightarrow> intersect cal (analyze_for_table cal l table_name time_col)
                 (analyze_for_table cal r table_name time_col)
      | Or \<Rightarrow> interval_union cal (analyze_for_table cal l table_name time_col)
                (analyze_for_table cal r table_name time_col)
      | _ \<Rightarrow> comparison_interval cal l op r table_name time_col)"
| "analyze_for_table cal (Between e negated low high) table_name time_col =
     (if negated then interval_universe else between_interval cal e low high table_name time_col)"
| "analyze_for_table cal (Nested e) table_name time_col = analyze_for_table cal e table_name time_col"
| "analyze_for_table cal _ table_name time_col = interval_universe"

text \<open>A later reference to the same dataset replaces the interval of an earlier one.\<close>

definition extract_intervals ::
  "calendar \<Rightarrow> (string \<rightharpoonup> string) \<Rightarrow> expr \<Rightarrow> table_reference list \<Rightarrow> string \<rightharpoonup> interval" where
  "extract_intervals cal time_columns e tables =
     fold (\<lambda>t m. case time_columns (tr_dataset t) of
          None \<Rightarrow> m
        | Some time_col \<Rightarrow> m(tr_dataset t \<mapsto> analyze_for_table cal e (effective_name t) time_col))
       tables Map.empty"

section \<open>Rows that satisfy a condition\<close>

text \<open>
  The truth of a condition for a row whose time column has the date \<open>t\<close>. The parts that do
  not compare this column with a date have the truth value that \<open>other\<close> gives them.
\<close>

definition date_value :: "calendar \<Rightarrow> (string \<Rightarrow> int) \<Rightarrow> expr \<Rightarrow> int option" where
  "date_value cal env e = Option.bind (extract_date_bound cal e) (bound_value cal env)"

fun compare_dates :: "binary_operator \<Rightarrow> int \<Rightarrow> int \<Rightarrow> bool option" where
  "compare_dates GtEq a b = Some (b \<le> a)"
| "compare_dates Gt a b = Some (b < a)"
| "compare_dates Lt a b = Some (a < b)"
| "compare_dates LtEq a b = Some (a \<le> b)"
| "compare_dates Eq a b = Some (a = b)"
| "compare_dates _ a b = None"

definition comparison_holds ::
  "calendar \<Rightarrow> (string \<Rightarrow> int) \<Rightarrow> string \<Rightarrow> string \<Rightarrow> int \<Rightarrow> expr \<Rightarrow> binary_operator \<Rightarrow> expr \<Rightarrow> bool option" where
  "comparison_holds cal env table_name time_col t l op r =
     (if is_time_column_ref l table_name time_col
      then Option.bind (date_value cal env r) (compare_dates op t)
      else if is_time_column_ref r table_name time_col
      then Option.bind (date_value cal env l) (\<lambda>v. compare_dates op v t)
      else None)"

definition or_other :: "bool option \<Rightarrow> bool \<Rightarrow> bool" where
  "or_other r b = (case r of Some v \<Rightarrow> v | None \<Rightarrow> b)"

fun row_satisfies ::
  "calendar \<Rightarrow> (string \<Rightarrow> int) \<Rightarrow> string \<Rightarrow> string \<Rightarrow> int \<Rightarrow> (expr \<Rightarrow> bool) \<Rightarrow> expr \<Rightarrow> bool" where
  "row_satisfies cal env table_name time_col t other (BinaryOp l op r) \<longleftrightarrow>
     (case op of
        And \<Rightarrow> row_satisfies cal env table_name time_col t other l \<and>
               row_satisfies cal env table_name time_col t other r
      | Or \<Rightarrow> row_satisfies cal env table_name time_col t other l \<or>
              row_satisfies cal env table_name time_col t other r
      | _ \<Rightarrow> or_other (comparison_holds cal env table_name time_col t l op r) (other (BinaryOp l op r)))"
| "row_satisfies cal env table_name time_col t other (Between e negated low high) \<longleftrightarrow>
     (if \<not> negated \<and> is_time_column_ref e table_name time_col
      then (case (date_value cal env low, date_value cal env high) of
              (Some a, Some b) \<Rightarrow> a \<le> t \<and> t \<le> b
            | _ \<Rightarrow> other (Between e negated low high))
      else other (Between e negated low high))"
| "row_satisfies cal env table_name time_col t other (Nested e) \<longleftrightarrow>
     row_satisfies cal env table_name time_col t other e"
| "row_satisfies cal env table_name time_col t other e \<longleftrightarrow> other e"

text \<open>All dates of the condition are literals that have a next day.\<close>

fun steppable :: "calendar \<Rightarrow> date_bound \<Rightarrow> bool" where
  "steppable cal (Literal s) \<longleftrightarrow>
     (case parse_date cal s of Some a \<Rightarrow> succ_date cal a \<noteq> None | None \<Rightarrow> False)"
| "steppable cal (Parameter p) \<longleftrightarrow> False"

definition literal_operand :: "calendar \<Rightarrow> expr \<Rightarrow> bool" where
  "literal_operand cal e \<longleftrightarrow>
     (case extract_date_bound cal e of Some b \<Rightarrow> steppable cal b | None \<Rightarrow> True)"

fun literal_dates :: "calendar \<Rightarrow> expr \<Rightarrow> bool" where
  "literal_dates cal (BinaryOp l op r) \<longleftrightarrow>
     (case op of
        And \<Rightarrow> literal_dates cal l \<and> literal_dates cal r
      | Or \<Rightarrow> literal_dates cal l \<and> literal_dates cal r
      | _ \<Rightarrow> literal_operand cal l \<and> literal_operand cal r)"
| "literal_dates cal (Between e negated low high) \<longleftrightarrow> literal_operand cal low \<and> literal_operand cal high"
| "literal_dates cal (Nested e) \<longleftrightarrow> literal_dates cal e"
| "literal_dates cal e \<longleftrightarrow> True"

section \<open>Soundness\<close>

lemma steppableE:
  assumes "steppable cal b" "calendar_laws cal"
  obtains s a where "b = Literal s" "parse_date cal s = Some a"
    "next_day cal b = Literal (format_date cal (a + 1))"
    "parse_date cal (format_date cal (a + 1)) = Some (a + 1)"
proof (cases b)
  case (Literal s)
  with assms(1) obtain a c where a: "parse_date cal s = Some a" "succ_date cal a = Some c"
    by (auto split: option.splits)
  with assms(2) have "c = a + 1" "parse_date cal (format_date cal c) = Some c"
    by (auto simp: calendar_laws_def)
  with a Literal that show thesis by simp
qed (use assms(1) in simp)

lemma dated_universe [simp]: "dated_interval cal interval_universe"
  by (simp add: dated_interval_def interval_universe_def)

lemma contains_universe [simp]: "contains_date cal env interval_universe t"
  by (simp add: contains_date_def interval_universe_def)

lemma interval_of_comparison_sound:
  assumes "calendar_laws cal" "steppable cal b" "interval_of_comparison cal op b = Some iv"
  shows "dated_interval cal iv"
    and "bound_value cal env b = Some v \<Longrightarrow> compare_dates op t v = Some True \<Longrightarrow> contains_date cal env iv t"
  using assms(3)
  by (cases op; use assms(1,2) in \<open>auto simp: dated_interval_def contains_date_def from_bounds_def
      add_one_day_def interval_point_def elim!: steppableE\<close>)+

lemma reversed_comparison:
  "interval_of_reversed cal op b = Some iv \<Longrightarrow> \<exists>op'. interval_of_comparison cal op' b = Some iv \<and>
     (\<forall>v t. compare_dates op v t = compare_dates op' t v)"
  by (cases op) (auto intro: exI [of _ GtEq] exI [of _ Gt] exI [of _ Lt] exI [of _ LtEq] exI [of _ Eq])

lemma comparison_none:
  "interval_of_comparison cal op b = None \<longleftrightarrow> compare_dates op x y = None"
  "interval_of_reversed cal op b = None \<longleftrightarrow> compare_dates op x y = None"
  by (cases op; simp)+

text \<open>One operand is the time column, the other one has the bound \<open>b\<close>.\<close>

lemma bound_sound:
  assumes "calendar_laws cal" "steppable cal b"
  shows "dated_interval cal (or_universe (interval_of_comparison cal op b))"
    "dated_interval cal (or_universe (interval_of_reversed cal op b))"
    and "or_other (Option.bind (bound_value cal env b) (compare_dates op t)) other \<Longrightarrow>
      contains_date cal env (or_universe (interval_of_comparison cal op b)) t"
    "or_other (Option.bind (bound_value cal env b) (\<lambda>v. compare_dates op v t)) other \<Longrightarrow>
      contains_date cal env (or_universe (interval_of_reversed cal op b)) t"
proof -
  from assms obtain v where v: "bound_value cal env b = Some v" by (elim steppableE) auto
  note sound = interval_of_comparison_sound [OF assms]
  show "dated_interval cal (or_universe (interval_of_comparison cal op b))"
    by (auto simp: or_universe_def sound(1) split: option.split)
  show "dated_interval cal (or_universe (interval_of_reversed cal op b))"
    by (auto simp: or_universe_def sound(1) split: option.split dest!: reversed_comparison)
  show "contains_date cal env (or_universe (interval_of_comparison cal op b)) t"
    if "or_other (Option.bind (bound_value cal env b) (compare_dates op t)) other"
  proof (cases "interval_of_comparison cal op b")
    case (Some iv)
    with comparison_none(1) [of cal op b t v] that v have "compare_dates op t v = Some True"
      by (auto simp: or_other_def)
    from sound(2) [OF Some v this] Some show ?thesis by (simp add: or_universe_def)
  qed (simp add: or_universe_def)
  show "contains_date cal env (or_universe (interval_of_reversed cal op b)) t"
    if "or_other (Option.bind (bound_value cal env b) (\<lambda>v. compare_dates op v t)) other"
  proof (cases "interval_of_reversed cal op b")
    case (Some iv)
    with comparison_none(2) [of cal op b v t] that v have "compare_dates op v t = Some True"
      by (auto simp: or_other_def)
    moreover from reversed_comparison [OF Some] obtain op' where
      op': "interval_of_comparison cal op' b = Some iv" "\<forall>v t. compare_dates op v t = compare_dates op' t v"
      by blast
    ultimately have "contains_date cal env iv t" using sound(2) [OF op'(1) v] by simp
    with Some show ?thesis by (simp add: or_universe_def)
  qed (simp add: or_universe_def)
qed

lemma comparison_sound:
  assumes "calendar_laws cal" "literal_operand cal l" "literal_operand cal r"
  shows "dated_interval cal (comparison_interval cal l op r table_name time_col)"
    and "or_other (comparison_holds cal env table_name time_col t l op r) other \<Longrightarrow>
      contains_date cal env (comparison_interval cal l op r table_name time_col) t"
proof -
  have bound: "extract_date_bound cal e = None \<or>
      (\<exists>b. extract_date_bound cal e = Some b \<and> steppable cal b)" if "literal_operand cal e" for e
    using that by (auto simp: literal_operand_def split: option.splits)
  note b = bound [OF assms(2)] bound [OF assms(3)]
  show "dated_interval cal (comparison_interval cal l op r table_name time_col)"
    using b bound_sound(1,2) [OF assms(1)] by (auto simp: comparison_interval_def or_universe_def)
  show "or_other (comparison_holds cal env table_name time_col t l op r) other \<Longrightarrow>
      contains_date cal env (comparison_interval cal l op r table_name time_col) t"
    using b bound_sound(3,4) [OF assms(1), of _ env op t other]
    by (auto simp: comparison_interval_def comparison_holds_def date_value_def or_universe_def
        split: if_splits)
qed

lemma between_sound:
  assumes "calendar_laws cal" "literal_operand cal low" "literal_operand cal high"
  shows "dated_interval cal (between_interval cal e low high table_name time_col)"
    and "row_satisfies cal env table_name time_col t other (Between e False low high) \<Longrightarrow>
      contains_date cal env (between_interval cal e low high table_name time_col) t"
  using assms
  by (auto simp: between_interval_def literal_operand_def from_bounds_def dated_interval_def
      contains_date_def date_value_def add_one_day_def interval_universe_def
      split: option.splits if_splits elim!: steppableE)

lemma analyze_sound:
  "calendar_laws cal \<Longrightarrow> literal_dates cal e \<Longrightarrow>
     dated_interval cal (analyze_for_table cal e table_name time_col) \<and>
     (row_satisfies cal env table_name time_col t other e \<longrightarrow>
       contains_date cal env (analyze_for_table cal e table_name time_col) t)"
proof (induction cal e table_name time_col rule: analyze_for_table.induct)
  case (1 cal l op r table_name time_col)
  show ?case
  proof (cases "op = And \<or> op = Or")
    case True
    with 1 show ?thesis by (auto simp: intersect_dated union_dated)
  next
    case False
    with "1.prems" have "literal_operand cal l" "literal_operand cal r" by (cases op; simp)+
    note sound = comparison_sound [OF "1.prems"(1) this]
    from False show ?thesis by (cases op) (auto simp: sound(1) intro: sound(2))
  qed
next
  case (2 cal e negated low high table_name time_col)
  then have "literal_operand cal low" "literal_operand cal high" by simp_all
  note sound = between_sound [OF "2.prems"(1) this]
  show ?case by (cases negated) (use sound in auto)
qed simp_all

section \<open>Properties\<close>

text \<open>
  A calendar whose dates are written as day numbers, apart from the two bounds that the code
  names.
\<close>

definition day_calendar :: calendar where
  "day_calendar =
     \<lparr>parse_date = (\<lambda>s. if s = ''9999-12-31'' then Some 2932896 else if s = ''1970-01-01'' then Some 0
        else map_option int (parse_digits 0 s)),
      format_date = (\<lambda>n. show_nat (nat n)), succ_date = (\<lambda>n. Some (n + 1))\<rparr>"

lemma day_calendar_laws: "calendar_laws day_calendar"
proof -
  have "parse_digits 0 ''9999-12-31'' = None" "parse_digits 0 ''1970-01-01'' = None"
    by (simp_all add: digit_value_def less_eq_char_def)
  then have f: "show_nat n \<noteq> ''9999-12-31''" "show_nat n \<noteq> ''1970-01-01''" for n
    using parse_digits_show_nat [of n] by auto
  then show ?thesis
    by (auto simp: calendar_laws_def day_calendar_def parse_digits_show_nat split: if_splits)
qed

definition dt_column :: expr where
  "dt_column = Identifier (ident_new ''dt'')"

definition date_text :: "string \<Rightarrow> expr" where
  "date_text s = Value (SingleQuotedString s)"

text \<open>
  C7. The interval that is read off a WHERE condition is sound: when the dates of the
  condition are literals with a next day, the date of every row that satisfies the condition
  lies in the interval, however AND, OR, BETWEEN and the comparisons are combined and
  whatever the rest of the condition is. Pruning epochs outside the interval loses no row.
\<close>

theorem intervals_conservative:
  assumes "calendar_laws cal" "literal_dates cal e"
    and "row_satisfies cal env table_name time_col t other e"
  shows "contains_date cal env (analyze_for_table cal e table_name time_col) t"
  using analyze_sound [OF assms(1,2)] assms(3) by blast

definition sample_condition :: expr where
  "sample_condition = BinaryOp
     (BinaryOp dt_column Gt (date_text ''10'')) And
     (Nested (BinaryOp (BinaryOp (date_text ''20'') GtEq dt_column) Or
       (Between dt_column False (date_text ''25'') (date_text ''30''))))"

theorem intervals_conservative_witness:
  "analyze_for_table day_calendar sample_condition ''sales'' ''dt'' =
     \<lparr>iv_start = Some (Literal ''11''), iv_end = Some (Literal ''31'')\<rparr> \<and>
   contains_date day_calendar (\<lambda>_. 0)
     (analyze_for_table day_calendar sample_condition ''sales'' ''dt'') 30"
proof -
  have "literal_dates day_calendar sample_condition \<and>
      row_satisfies day_calendar (\<lambda>_. 0) ''sales'' ''dt'' 30 (\<lambda>_. False) sample_condition"
    by (simp add: sample_condition_def dt_column_def date_text_def literal_operand_def literal_bound_def
        is_valid_date_def day_calendar_def digit_value_def less_eq_char_def or_other_def
        comparison_holds_def date_value_def)
  then have "contains_date day_calendar (\<lambda>_. 0)
     (analyze_for_table day_calendar sample_condition ''sales'' ''dt'') 30"
    by (intro intervals_conservative [OF day_calendar_laws]) auto
  moreover have "analyze_for_table day_calendar sample_condition ''sales'' ''dt'' =
     \<lparr>iv_start = Some (Literal ''11''), iv_end = Some (Literal ''31'')\<rparr>"
    by (simp add: sample_condition_def dt_column_def date_text_def literal_bound_def
        is_valid_date_def day_calendar_def digit_value_def less_eq_char_def comparison_interval_def
        between_interval_def add_one_day_def from_bounds_def or_universe_def intersect_def
        interval_union_def interval_is_empty_def is_universe_def bound_min_def bound_max_def
        compare_with_def show_nat.simps digit_char_def char_of_def bit_0)
  ultimately show ?thesis by blast
qed

text \<open>
  C36. Conditions on parameters lose rows. The interval of \<^verbatim>\<open>dt = $1\<close> contains no date
  at all, although the rows with the date of \<^verbatim>\<open>$1\<close> satisfy the condition; and the
  interval of \<^verbatim>\<open>dt >= 's' OR dt >= $1\<close> starts at \<^verbatim>\<open>s\<close> even when
  \<^verbatim>\<open>$1\<close> is an earlier date.
\<close>

theorem parameters_lose_rows:
  assumes "parse_date cal s = Some a" "env p < a"
  shows "row_satisfies cal env table_name ''dt'' (env p) other
      (BinaryOp dt_column Eq (Value (Placeholder p))) \<and>
    \<not> contains_date cal env
      (analyze_for_table cal (BinaryOp dt_column Eq (Value (Placeholder p))) table_name ''dt'') t \<and>
    row_satisfies cal env table_name ''dt'' (env p) other
      (BinaryOp (BinaryOp dt_column GtEq (date_text s)) Or
        (BinaryOp dt_column GtEq (Value (Placeholder p)))) \<and>
    \<not> contains_date cal env
      (analyze_for_table cal (BinaryOp (BinaryOp dt_column GtEq (date_text s)) Or
        (BinaryOp dt_column GtEq (Value (Placeholder p)))) table_name ''dt'') (env p)"
  using assms
  by (simp add: dt_column_def date_text_def comparison_interval_def or_universe_def from_bounds_def
      interval_point_def contains_date_def comparison_holds_def date_value_def or_other_def
      interval_union_def interval_is_empty_def is_universe_def bound_min_def literal_bound_def
      is_valid_date_def)

theorem parameters_lose_rows_witness:
  "\<not> contains_date day_calendar (\<lambda>_. 3)
     (analyze_for_table day_calendar (BinaryOp dt_column Eq (Value (Placeholder ''$1''))) ''sales'' ''dt'') 3"
proof -
  have "parse_date day_calendar ''10'' = Some 10"
    by (simp add: day_calendar_def digit_value_def less_eq_char_def)
  from parameters_lose_rows [OF this, of "\<lambda>_. 3" "''$1''" "''sales''" "\<lambda>_. False" 3] show ?thesis by simp
qed

end
