(* ===== verification/Transformer.thy ===== *)
theory Transformer
  imports Discovery Boolean_Analyzer
begin

text \<open>
  \<^verbatim>\<open>sql/transformer.rs\<close>: every reference to a registered dataset is replaced by a call of
  its scan macro with the date range that the top-level WHERE condition implies.
\<close>

type_synonym replacements = "string \<rightharpoonup> registered_dataset \<times> date_range"

section \<open>Macro calls\<close>

definition create_date_literal :: "string \<Rightarrow> expr" where
  "create_date_literal s = TypedString DateType (SingleQuotedString s)"

definition create_placeholder :: "string \<Rightarrow> expr" where
  "create_placeholder p = Value (Placeholder p)"

definition add_one_day_text :: "calendar \<Rightarrow> string \<Rightarrow> string" where
  "add_one_day_text cal s =
     (case Option.bind (parse_date cal s) (succ_date cal) of
        Some d \<Rightarrow> format_date cal d
      | None \<Rightarrow> s)"

definition format_date_args :: "calendar \<Rightarrow> date_range \<Rightarrow> expr \<times> expr" where
  "format_date_args cal rng =
     ((case range_start rng of
         Some (Literal s) \<Rightarrow> create_date_literal s
       | Some (Parameter p) \<Rightarrow> create_placeholder p
       | None \<Rightarrow> create_date_literal wide_scan_start),
      (case range_end rng of
         Some (Literal s) \<Rightarrow>
           create_date_literal (if end_inclusive rng then add_one_day_text cal s else s)
       | Some (Parameter p) \<Rightarrow> create_placeholder p
       | None \<Rightarrow> create_date_literal wide_scan_end))"

definition create_macro_call ::
  "calendar \<Rightarrow> registered_dataset \<Rightarrow> date_range \<Rightarrow> table_alias option \<Rightarrow> table_factor" where
  "create_macro_call cal dataset rng original_alias =
     (let (start_arg, end_arg) = format_date_args cal rng
      in TableFunction [IdentPart (ident_new (macro_name dataset))]
           [UnnamedArg (ArgExpr start_arg), UnnamedArg (ArgExpr end_arg)] original_alias False)"

section \<open>Rewriting\<close>

text \<open>
  The functions of the source update the tree in place and return \<open>Ok\<close>; here they return
  the new tree. \<open>map_arg\<close> and \<open>map_item\<close> rewrite the arguments and the select items that
  the source matches and leave the others alone.
\<close>

fun map_item :: "(expr \<Rightarrow> expr) \<Rightarrow> select_item \<Rightarrow> select_item" where
  "map_item f (UnnamedExpr e) = UnnamedExpr (f e)"
| "map_item f (ExprWithAlias e a) = ExprWithAlias (f e) a"
| "map_item f i = i"

fun map_arg :: "(expr \<Rightarrow> expr) \<Rightarrow> expr function_arg \<Rightarrow> expr function_arg" where
  "map_arg f (UnnamedArg (ArgExpr e)) = UnnamedArg (ArgExpr (f e))"
| "map_arg f a = a"

lemma map_item_cong [fundef_cong]:
  "i = j \<Longrightarrow> (\<And>e. select_item_expr j = Some e \<Longrightarrow> f e = g e) \<Longrightarrow> map_item f i = map_item g j"
  by (cases j) auto

lemma map_arg_cong [fundef_cong]:
  "a = b \<Longrightarrow> (\<And>e. unnamed_arg_expr b = Some e \<Longrightarrow> f e = g e) \<Longrightarrow> map_arg f a = map_arg g b"
  by (cases b rule: unnamed_arg_expr.cases) auto

lemma map_join_on_expr_cong [fundef_cong]:
  "op = op' \<Longrightarrow> (\<And>e. extract_join_on_expr op' = Some e \<Longrightarrow> f e = g e) \<Longrightarrow>
     map_join_on_expr f op = map_join_on_expr g op'"
  by (cases op') (auto simp: map_join_on_expr_def extract_join_on_expr_def split: join_constraint_of.splits)

definition map_cte :: "(query \<Rightarrow> query) \<Rightarrow> cte \<Rightarrow> cte" where
  "map_cte f c = Cte (cte_alias c) (f (cte_query c)) (cte_rest c)"

lemma map_cte_cong [fundef_cong]: "c = c' \<Longrightarrow> f (cte_query c') = g (cte_query c') \<Longrightarrow> map_cte f c = map_cte g c'"
  by (simp add: map_cte_def)

function (sequential) rewrite_query :: "calendar \<Rightarrow> replacements \<Rightarrow> query \<Rightarrow> query"
  and rewrite_set_expr :: "calendar \<Rightarrow> replacements \<Rightarrow> set_expr \<Rightarrow> set_expr"
  and rewrite_select :: "calendar \<Rightarrow> replacements \<Rightarrow> select \<Rightarrow> select"
  and rewrite_table_with_joins :: "calendar \<Rightarrow> replacements \<Rightarrow> table_with_joins \<Rightarrow> table_with_joins"
  and rewrite_table_factor :: "calendar \<Rightarrow> replacements \<Rightarrow> table_factor \<Rightarrow> table_factor"
  and rewrite_expr_subqueries :: "calendar \<Rightarrow> replacements \<Rightarrow> expr \<Rightarrow> expr"
where
  "rewrite_query cal reps (Query w body os lim fetch rest) =
     Query (case w of
         Some (r, ctes) \<Rightarrow> Some (r, map (map_cte (rewrite_query cal reps)) ctes)
       | None \<Rightarrow> None)
     (rewrite_set_expr cal reps body) os lim fetch rest"
| "rewrite_set_expr cal reps b =
     (case b of
        SelectBody s \<Rightarrow> SelectBody (rewrite_select cal reps s)
      | QueryBody q \<Rightarrow> QueryBody (rewrite_query cal reps q)
      | SetOperation op k l r \<Rightarrow> SetOperation op k (rewrite_set_expr cal reps l) (rewrite_set_expr cal reps r)
      | other \<Rightarrow> other)"
| "rewrite_select cal reps (Select proj from_items wh gb hv rest) =
     Select (map (map_item (rewrite_expr_subqueries cal reps)) proj)
       (map (rewrite_table_with_joins cal reps) from_items)
       (map_option (rewrite_expr_subqueries cal reps) wh) gb
       (map_option (rewrite_expr_subqueries cal reps) hv) rest"
| "rewrite_table_with_joins cal reps (TableWithJoins rel joins) =
     TableWithJoins (rewrite_table_factor cal reps rel)
       (map (\<lambda>j. JoinItem (rewrite_table_factor cal reps (join_relation j))
          (map_join_on_expr (rewrite_expr_subqueries cal reps) (join_operator j))) joins)"
| "rewrite_table_factor cal reps (TableRef name al rest) =
     (case reps (extract_table_name name) of
        Some (dataset, rng) \<Rightarrow> create_macro_call cal dataset rng al
      | None \<Rightarrow> TableRef name al rest)"
| "rewrite_table_factor cal reps (Derived q al rest) = Derived (rewrite_query cal reps q) al rest"
| "rewrite_table_factor cal reps (NestedJoin twj al) = NestedJoin (rewrite_table_with_joins cal reps twj) al"
| "rewrite_table_factor cal reps f = f"
| "rewrite_expr_subqueries cal reps e =
     (case e of
        Subquery q \<Rightarrow> Subquery (rewrite_query cal reps q)
      | InSubquery x q negated \<Rightarrow> InSubquery x (rewrite_query cal reps q) negated
      | Exists q negated \<Rightarrow> Exists (rewrite_query cal reps q) negated
      | BinaryOp l op r \<Rightarrow> BinaryOp (rewrite_expr_subqueries cal reps l) op (rewrite_expr_subqueries cal reps r)
      | UnaryOp op x \<Rightarrow> UnaryOp op (rewrite_expr_subqueries cal reps x)
      | Nested x \<Rightarrow> Nested (rewrite_expr_subqueries cal reps x)
      | Between x negated low high \<Rightarrow> Between (rewrite_expr_subqueries cal reps x) negated
          (rewrite_expr_subqueries cal reps low) (rewrite_expr_subqueries cal reps high)
      | Case operand conditions else_result \<Rightarrow>
          Case (map_option (rewrite_expr_subqueries cal reps) operand) conditions
            (map_option (rewrite_expr_subqueries cal reps) else_result)
      | Function name args over rest \<Rightarrow>
          Function name (case args of
              ArgList xs r \<Rightarrow> ArgList (map (map_arg (rewrite_expr_subqueries cal reps)) xs) r
            | OtherArguments r \<Rightarrow> OtherArguments r) over rest
      | other \<Rightarrow> other)"
  by pat_completeness auto
termination
  by (relation "measure (\<lambda>x. case x of
      Inl (Inl (_, _, q)) \<Rightarrow> size q | Inl (Inr (Inl (_, _, b))) \<Rightarrow> size b
    | Inl (Inr (Inr (_, _, s))) \<Rightarrow> size s | Inr (Inl (_, _, t)) \<Rightarrow> size t
    | Inr (Inr (Inl (_, _, f))) \<Rightarrow> size f | Inr (Inr (Inr (_, _, e))) \<Rightarrow> size e)")
    (auto dest: walk_sizes)

declare rewrite_set_expr.simps [simp del] rewrite_expr_subqueries.simps [simp del]

fun rewrite_statement :: "calendar \<Rightarrow> replacements \<Rightarrow> statement \<Rightarrow> sql_transform_error + statement" where
  "rewrite_statement cal reps (QueryStmt q) = Inr (QueryStmt (rewrite_query cal reps q))"
| "rewrite_statement cal reps _ = Inl (UnsupportedStatementType ''Only SELECT queries are supported'')"

section \<open>The transformer\<close>

record transform_result =
  original_sql :: string
  transformed_sql :: string
  tables_replaced :: "string list"
  date_ranges :: "string \<rightharpoonup> date_range"

record sql_transformer =
  registered_datasets :: "string \<rightharpoonup> registered_dataset"

definition transformer_new :: sql_transformer where
  "transformer_new = \<lparr>registered_datasets = Map.empty\<rparr>"

definition register_dataset :: "registered_dataset \<Rightarrow> sql_transformer \<Rightarrow> sql_transformer" where
  "register_dataset ds tr = tr\<lparr>registered_datasets := (registered_datasets tr)(dataset_id ds \<mapsto> ds)\<rparr>"

definition unregister_dataset :: "string \<Rightarrow> sql_transformer \<Rightarrow> sql_transformer" where
  "unregister_dataset i tr = tr\<lparr>registered_datasets := (registered_datasets tr)(i := None)\<rparr>"

definition is_registered :: "sql_transformer \<Rightarrow> string \<Rightarrow> bool" where
  "is_registered tr i \<longleftrightarrow> registered_datasets tr i \<noteq> None"

definition get_dataset :: "sql_transformer \<Rightarrow> string \<Rightarrow> registered_dataset option" where
  "get_dataset tr i = registered_datasets tr i"

definition registered_dataset_ids :: "sql_transformer \<Rightarrow> string set" where
  "registered_dataset_ids tr = dom (registered_datasets tr)"

fun extract_where_clause :: "statement \<Rightarrow> expr option" where
  "extract_where_clause (QueryStmt q) =
     (case query_body q of SelectBody s \<Rightarrow> sel_where s | _ \<Rightarrow> None)"
| "extract_where_clause _ = None"

definition statement_ranges ::
  "calendar \<Rightarrow> sql_transformer \<Rightarrow> statement \<Rightarrow> table_reference list \<Rightarrow> string \<rightharpoonup> date_range" where
  "statement_ranges cal tr stmt tables =
     (case extract_where_clause stmt of
        Some e \<Rightarrow> map_option range_of_interval \<circ>
          extract_intervals cal (map_option time_column_name \<circ> registered_datasets tr) e tables
      | None \<Rightarrow> fold (\<lambda>t m. m(tr_dataset t \<mapsto> date_range_default)) tables Map.empty)"

definition build_replacements ::
  "sql_transformer \<Rightarrow> table_reference list \<Rightarrow> (string \<rightharpoonup> date_range) \<Rightarrow> replacements" where
  "build_replacements tr tables ranges =
     fold (\<lambda>t m. case (registered_datasets tr (tr_dataset t), ranges (tr_dataset t)) of
          (Some dataset, Some rng) \<Rightarrow> m(tr_dataset t \<mapsto> (dataset, rng))
        | _ \<Rightarrow> m) tables Map.empty"

definition transform_statement ::
  "sql_display \<Rightarrow> calendar \<Rightarrow> sql_transformer \<Rightarrow> string \<Rightarrow> statement \<Rightarrow> table_reference list \<Rightarrow>
   sql_transform_error + statement \<times> transform_result" where
  "transform_statement d cal tr sql stmt tables =
     (let ranges = statement_ranges cal tr stmt tables
      in bind_ok (rewrite_statement cal (build_replacements tr tables ranges) stmt) (\<lambda>stmt'.
           Inr (stmt', \<lparr>original_sql = sql, transformed_sql = to_sql d stmt',
             tables_replaced = map tr_dataset tables, date_ranges = ranges\<rparr>)))"

definition transform ::
  "sql_parser \<Rightarrow> sql_display \<Rightarrow> calendar \<Rightarrow> sql_transformer \<Rightarrow> string \<Rightarrow>
   sql_transform_error + transform_result" where
  "transform parser d cal tr sql =
     bind_ok (parse_sql parser sql) (\<lambda>stmt.
     bind_ok (discover d (registered_dataset_ids tr) stmt) (\<lambda>tables.
       if tables = []
       then Inr \<lparr>original_sql = sql, transformed_sql = sql, tables_replaced = [], date_ranges = Map.empty\<rparr>
       else bind_ok (transform_statement d cal tr sql stmt tables) (\<lambda>(_, r). Inr r)))"

end
