(* ===== verification/Rewriting.thy ===== *)
theory Rewriting
  imports Transformer
begin

text \<open>
  What the rewriting achieves: a second discovery on the rewritten statement finds nothing.
  Subqueries in the WHEN parts of a CASE are discovered and not rewritten, so they are
  excluded.
\<close>

section \<open>Statements without subqueries in WHEN parts\<close>

fun no_subquery :: "expr \<Rightarrow> bool" where
  "no_subquery (Subquery q) \<longleftrightarrow> False"
| "no_subquery (InSubquery x q negated) \<longleftrightarrow> False"
| "no_subquery (Exists q negated) \<longleftrightarrow> False"
| "no_subquery (BinaryOp l op r) \<longleftrightarrow> no_subquery l \<and> no_subquery r"
| "no_subquery (UnaryOp op x) \<longleftrightarrow> no_subquery x"
| "no_subquery (Nested x) \<longleftrightarrow> no_subquery x"
| "no_subquery (Between x negated low high) \<longleftrightarrow> no_subquery x \<and> no_subquery low \<and> no_subquery high"
| "no_subquery (Case operand conditions else_result) \<longleftrightarrow>
     (\<forall>x \<in> set_option operand. no_subquery x) \<and>
     (\<forall>cw \<in> set conditions. no_subquery (when_condition cw) \<and> no_subquery (when_result cw)) \<and>
     (\<forall>x \<in> set_option else_result. no_subquery x)"
| "no_subquery (Function name args over rest) \<longleftrightarrow>
     (case args of
        ArgList xs r \<Rightarrow> (\<forall>a \<in> set xs. case a of UnnamedArg (ArgExpr e) \<Rightarrow> no_subquery e | _ \<Rightarrow> True)
      | OtherArguments r \<Rightarrow> True)"
| "no_subquery _ \<longleftrightarrow> True"

function (sequential) plain_query :: "query \<Rightarrow> bool"
  and plain_set_expr :: "set_expr \<Rightarrow> bool"
  and plain_select :: "select \<Rightarrow> bool"
  and plain_joins :: "table_with_joins \<Rightarrow> bool"
  and plain_factor :: "table_factor \<Rightarrow> bool"
  and plain_expr :: "expr \<Rightarrow> bool"
where
  "plain_query (Query w body os lim fetch rest) \<longleftrightarrow>
     (case w of Some (r, ctes) \<Rightarrow> (\<forall>c \<in> set ctes. plain_query (cte_query c)) | None \<Rightarrow> True) \<and>
     plain_set_expr body"
| "plain_set_expr b \<longleftrightarrow>
     (case b of
        SelectBody s \<Rightarrow> plain_select s
      | QueryBody q \<Rightarrow> plain_query q
      | SetOperation op k l r \<Rightarrow> plain_set_expr l \<and> plain_set_expr r
      | _ \<Rightarrow> True)"
| "plain_select (Select proj from_items wh gb hv rest) \<longleftrightarrow>
     (\<forall>t \<in> set from_items. plain_joins t) \<and>
     (case wh of Some e \<Rightarrow> plain_expr e | None \<Rightarrow> True) \<and>
     (\<forall>i \<in> set proj. case select_item_expr i of Some e \<Rightarrow> plain_expr e | None \<Rightarrow> True) \<and>
     (case hv of Some e \<Rightarrow> plain_expr e | None \<Rightarrow> True)"
| "plain_joins (TableWithJoins rel joins) \<longleftrightarrow>
     plain_factor rel \<and> (\<forall>j \<in> set joins. plain_factor (join_relation j) \<and>
       (case extract_join_on_expr (join_operator j) of Some e \<Rightarrow> plain_expr e | None \<Rightarrow> True))"
| "plain_factor f \<longleftrightarrow>
     (case f of Derived q al rest \<Rightarrow> plain_query q | NestedJoin twj al \<Rightarrow> plain_joins twj | _ \<Rightarrow> True)"
| "plain_expr e \<longleftrightarrow>
     (case e of
        Subquery q \<Rightarrow> plain_query q
      | InSubquery x q negated \<Rightarrow> plain_query q
      | Exists q negated \<Rightarrow> plain_query q
      | BinaryOp l op r \<Rightarrow> plain_expr l \<and> plain_expr r
      | UnaryOp op x \<Rightarrow> plain_expr x
      | Nested x \<Rightarrow> plain_expr x
      | Between x negated low high \<Rightarrow> plain_expr x \<and> plain_expr low \<and> plain_expr high
      | Case operand conditions else_result \<Rightarrow>
          (case operand of Some x \<Rightarrow> plain_expr x | None \<Rightarrow> True) \<and>
          (\<forall>cw \<in> set conditions. no_subquery (when_condition cw) \<and> no_subquery (when_result cw)) \<and>
          (case else_result of Some x \<Rightarrow> plain_expr x | None \<Rightarrow> True)
      | Function name args over rest \<Rightarrow>
          (case args of
             ArgList xs r \<Rightarrow> (\<forall>a \<in> set xs. case unnamed_arg_expr a of Some x \<Rightarrow> plain_expr x | None \<Rightarrow> True)
           | OtherArguments r \<Rightarrow> True)
      | _ \<Rightarrow> True)"
  by pat_completeness auto
termination
  by (relation "measure (\<lambda>x. case x of
      Inl (Inl q) \<Rightarrow> size q | Inl (Inr (Inl b)) \<Rightarrow> size b | Inl (Inr (Inr s)) \<Rightarrow> size s
    | Inr (Inl t) \<Rightarrow> size t | Inr (Inr (Inl f)) \<Rightarrow> size f | Inr (Inr (Inr e)) \<Rightarrow> size e)")
    (auto dest: walk_sizes)

declare plain_set_expr.simps [simp del] plain_factor.simps [simp del] plain_expr.simps [simp del]

section \<open>Walks that find only replaced datasets\<close>

text \<open>
  \<open>hides reps f g\<close>: whenever the walk \<open>f\<close> succeeds and all that it finds is replaced, the
  walk \<open>g\<close> over the rewritten tree succeeds and finds nothing.
\<close>

definition finds_nothing :: "(discovery \<Rightarrow> 'e + discovery) \<Rightarrow> discovery \<Rightarrow> bool" where
  "finds_nothing g s \<longleftrightarrow>
     (\<exists>s'. g s = Inr s' \<and> found_tables s' = found_tables s \<and> known_datasets s' = known_datasets s)"

definition hidden :: "replacements \<Rightarrow> (discovery \<Rightarrow> 'e + discovery) \<Rightarrow> discovery \<Rightarrow> discovery \<Rightarrow> bool" where
  "hidden reps g st st' \<longleftrightarrow> known_datasets st' = known_datasets st \<and>
     (\<exists>new. found_tables st' = found_tables st @ new \<and> tr_dataset ` set new \<subseteq> known_datasets st \<and>
       (tr_dataset ` set new \<subseteq> dom reps \<longrightarrow>
         (\<forall>s. known_datasets s = known_datasets st \<longrightarrow> finds_nothing g s)))"

definition hides :: "replacements \<Rightarrow> (discovery \<Rightarrow> 'e + discovery) \<Rightarrow> (discovery \<Rightarrow> 'e + discovery) \<Rightarrow> bool" where
  "hides reps f g \<longleftrightarrow> (\<forall>st st'. f st = Inr st' \<longrightarrow> hidden reps g st st')"

lemma hidesE:
  assumes "hides reps f g" "f st = Inr st'"
  obtains new where "known_datasets st' = known_datasets st" "found_tables st' = found_tables st @ new"
    "tr_dataset ` set new \<subseteq> known_datasets st"
    "\<And>s. tr_dataset ` set new \<subseteq> dom reps \<Longrightarrow> known_datasets s = known_datasets st \<Longrightarrow> finds_nothing g s"
proof -
  from assms have "hidden reps g st st'" by (simp add: hides_def)
  then obtain new where new: "known_datasets st' = known_datasets st"
    "found_tables st' = found_tables st @ new" "tr_dataset ` set new \<subseteq> known_datasets st"
    "tr_dataset ` set new \<subseteq> dom reps \<longrightarrow> (\<forall>s. known_datasets s = known_datasets st \<longrightarrow> finds_nothing g s)"
    unfolding hidden_def by (elim exE conjE)
  show thesis by (rule that [OF new(1-3)]) (use new(4) in simp)
qed

lemma hidesI:
  assumes "\<And>st st'. f st = Inr st' \<Longrightarrow> \<exists>new. known_datasets st' = known_datasets st \<and>
    found_tables st' = found_tables st @ new \<and> tr_dataset ` set new \<subseteq> known_datasets st \<and>
    (\<forall>s. tr_dataset ` set new \<subseteq> dom reps \<longrightarrow> known_datasets s = known_datasets st \<longrightarrow> finds_nothing g s)"
  shows "hides reps f g"
  unfolding hides_def
proof (intro allI impI)
  fix st st' assume "f st = Inr st'"
  from assms [OF this] obtain new where new: "known_datasets st' = known_datasets st"
    "found_tables st' = found_tables st @ new" "tr_dataset ` set new \<subseteq> known_datasets st"
    "\<forall>s. tr_dataset ` set new \<subseteq> dom reps \<longrightarrow> known_datasets s = known_datasets st \<longrightarrow> finds_nothing g s"
    by (elim exE conjE)
  from new(4) have "tr_dataset ` set new \<subseteq> dom reps \<longrightarrow>
      (\<forall>s. known_datasets s = known_datasets st \<longrightarrow> finds_nothing g s)" by simp
  with new(1-3) show "hidden reps g st st'" unfolding hidden_def by (intro conjI exI [of _ new])
qed

lemma hides_Inr [simp]: "hides reps Inr Inr"
  by (simp add: hides_def hidden_def finds_nothing_def)

lemma hides_error [simp]: "hides reps (\<lambda>st. Inl e) g"
  by (simp add: hides_def)

lemma hides_and_then:
  assumes "hides reps f g" "hides reps f' g'"
  shows "hides reps (\<lambda>st. and_then (f st) f') (\<lambda>st. and_then (g st) g')"
proof (rule hidesI)
  fix st st2 assume "and_then (f st) f' = Inr st2"
  then obtain st1 where st1: "f st = Inr st1" "f' st1 = Inr st2" by (auto simp: and_then_def)
  from hidesE [OF assms(1) st1(1)] obtain n1 where n1: "known_datasets st1 = known_datasets st"
    "found_tables st1 = found_tables st @ n1" "tr_dataset ` set n1 \<subseteq> known_datasets st"
    "\<And>s. tr_dataset ` set n1 \<subseteq> dom reps \<Longrightarrow> known_datasets s = known_datasets st \<Longrightarrow> finds_nothing g s"
    by metis
  from hidesE [OF assms(2) st1(2)] obtain n2 where n2: "known_datasets st2 = known_datasets st1"
    "found_tables st2 = found_tables st1 @ n2" "tr_dataset ` set n2 \<subseteq> known_datasets st1"
    "\<And>s. tr_dataset ` set n2 \<subseteq> dom reps \<Longrightarrow> known_datasets s = known_datasets st1 \<Longrightarrow> finds_nothing g' s"
    by metis
  have "finds_nothing (\<lambda>st. and_then (g st) g') s"
    if sub: "tr_dataset ` set (n1 @ n2) \<subseteq> dom reps" and s: "known_datasets s = known_datasets st" for s
  proof -
    from sub have sub': "tr_dataset ` set n1 \<subseteq> dom reps" "tr_dataset ` set n2 \<subseteq> dom reps"
      by (simp_all add: image_Un)
    from n1(4) [OF sub'(1) s] obtain s1 where s1: "g s = Inr s1" "found_tables s1 = found_tables s"
      "known_datasets s1 = known_datasets s" unfolding finds_nothing_def by blast
    from n2(4) [OF sub'(2), of s1] s1(3) s n1(1) have "finds_nothing g' s1" by simp
    with s1 show ?thesis by (auto simp: finds_nothing_def and_then_def)
  qed
  moreover have "found_tables st2 = found_tables st @ (n1 @ n2)" "known_datasets st2 = known_datasets st"
    "tr_dataset ` set (n1 @ n2) \<subseteq> known_datasets st"
    using n1(1-3) n2(1-3) by (simp_all add: image_Un)
  ultimately show "\<exists>new. known_datasets st2 = known_datasets st \<and> found_tables st2 = found_tables st @ new \<and>
      tr_dataset ` set new \<subseteq> known_datasets st \<and>
      (\<forall>s. tr_dataset ` set new \<subseteq> dom reps \<longrightarrow> known_datasets s = known_datasets st \<longrightarrow>
        finds_nothing (\<lambda>st. and_then (g st) g') s)" by blast
qed

lemma hides_fold:
  "(\<And>x. x \<in> set xs \<Longrightarrow> hides reps (F x) (G (h x))) \<Longrightarrow> hides reps (fold_ok F xs) (fold_ok G (map h xs))"
proof (induction xs)
  case (Cons x xs)
  then have "hides reps (\<lambda>st. and_then (F x st) (fold_ok F xs)) (\<lambda>st. and_then (G (h x) st) (fold_ok G (map h xs)))"
    by (intro hides_and_then) auto
  moreover have "fold_ok F (x # xs) = (\<lambda>st. and_then (F x st) (fold_ok F xs))"
    "fold_ok G (map h (x # xs)) = (\<lambda>st. and_then (G (h x) st) (fold_ok G (map h xs)))"
    by (auto simp: and_then_def fun_eq_iff)
  ultimately show ?case by simp
next
  case Nil
  have "fold_ok F [] = Inr" "fold_ok G (map h []) = Inr" by (simp_all add: fun_eq_iff)
  then show ?case by simp
qed

lemma visit_option_fun: "visit_option f None = Inr" "visit_option f (Some x) = f x"
  by (simp_all add: fun_eq_iff)

lemma hides_option:
  assumes "\<And>y. x = Some y \<Longrightarrow> hides reps (F y) (G (h y))"
  shows "hides reps (visit_option F x) (visit_option G (map_option h x))"
proof (cases x)
  case None
  have "visit_option F None = Inr" "visit_option G None = Inr" by (simp_all add: fun_eq_iff)
  with None show ?thesis by simp
next
  case (Some y)
  have "visit_option F (Some y) = F y" "visit_option G (Some (h y)) = G (h y)" by (simp_all add: fun_eq_iff)
  with Some assms show ?thesis by simp
qed

lemma scope_keeps [simp]:
  "found_tables (enter_scope k s) = found_tables s" "known_datasets (enter_scope k s) = known_datasets s"
  "found_tables (exit_scope s) = found_tables s" "known_datasets (exit_scope s) = known_datasets s"
  by (simp_all add: enter_scope_def exit_scope_def)

lemma hides_scope:
  assumes "hides reps f g"
  shows "hides reps (in_scope k f) (in_scope k g)"
proof (rule hidesI)
  fix st st' assume "in_scope k f st = Inr st'"
  then obtain st1 where st1: "f (enter_scope k st) = Inr st1" "st' = exit_scope st1"
    by (auto simp: in_scope_def)
  from hidesE [OF assms st1(1)] obtain new where new: "known_datasets st1 = known_datasets st"
    "found_tables st1 = found_tables st @ new" "tr_dataset ` set new \<subseteq> known_datasets st"
    "\<And>s. tr_dataset ` set new \<subseteq> dom reps \<Longrightarrow> known_datasets s = known_datasets st \<Longrightarrow> finds_nothing g s"
    by (metis scope_keeps(1,2))
  have "finds_nothing (in_scope k g) s" if "finds_nothing g (enter_scope k s)" for s
    using that by (auto simp: finds_nothing_def in_scope_def)
  with new st1(2) show "\<exists>new. known_datasets st' = known_datasets st \<and> found_tables st' = found_tables st @ new \<and>
      tr_dataset ` set new \<subseteq> known_datasets st \<and>
      (\<forall>s. tr_dataset ` set new \<subseteq> dom reps \<longrightarrow> known_datasets s = known_datasets st \<longrightarrow>
        finds_nothing (in_scope k g) s)"
    by auto
qed

section \<open>The rewritten tree\<close>

lemmas set_expr_at =
  visit_set_expr.simps [of "SelectBody s" for s]
  plain_set_expr.simps [of "SelectBody s" for s]
  rewrite_set_expr.simps [of cal reps "SelectBody s" for cal reps s]
  visit_set_expr.simps [of "QueryBody q" for q]
  plain_set_expr.simps [of "QueryBody q" for q]
  rewrite_set_expr.simps [of cal reps "QueryBody q" for cal reps q]
  visit_set_expr.simps [of "SetOperation op k l r" for op k l r]
  plain_set_expr.simps [of "SetOperation op k l r" for op k l r]
  rewrite_set_expr.simps [of cal reps "SetOperation op k l r" for cal reps op k l r]
  visit_set_expr.simps [of "Values v" for v]
  plain_set_expr.simps [of "Values v" for v]
  rewrite_set_expr.simps [of cal reps "Values v" for cal reps v]
  visit_set_expr.simps [of "InsertBody v" for v]
  plain_set_expr.simps [of "InsertBody v" for v]
  rewrite_set_expr.simps [of cal reps "InsertBody v" for cal reps v]
  visit_set_expr.simps [of "UpdateBody v" for v]
  plain_set_expr.simps [of "UpdateBody v" for v]
  rewrite_set_expr.simps [of cal reps "UpdateBody v" for cal reps v]
  visit_set_expr.simps [of "OtherBody v" for v]
  plain_set_expr.simps [of "OtherBody v" for v]
  rewrite_set_expr.simps [of cal reps "OtherBody v" for cal reps v]

lemmas visit_expr_at =
  visit_expr_for_subqueries.simps [of "Identifier i" for i]
  visit_expr_for_subqueries.simps [of "CompoundIdentifier ps" for ps]
  visit_expr_for_subqueries.simps [of "BinaryOp l op r" for l op r]
  visit_expr_for_subqueries.simps [of "UnaryOp op x" for op x]
  visit_expr_for_subqueries.simps [of "Nested x" for x]
  visit_expr_for_subqueries.simps [of "Between x b l h" for x b l h]
  visit_expr_for_subqueries.simps [of "Value v" for v]
  visit_expr_for_subqueries.simps [of "TypedString ty v" for ty v]
  visit_expr_for_subqueries.simps [of "Cast x ty r" for x ty r]
  visit_expr_for_subqueries.simps [of "Case x cs y" for x cs y]
  visit_expr_for_subqueries.simps [of "Function n a w r" for n a w r]
  visit_expr_for_subqueries.simps [of "InList x xs b" for x xs b]
  visit_expr_for_subqueries.simps [of "InSubquery x q b" for x q b]
  visit_expr_for_subqueries.simps [of "Subquery q" for q]
  visit_expr_for_subqueries.simps [of "Exists q b" for q b]
  visit_expr_for_subqueries.simps [of "IsTest t x" for t x]
  visit_expr_for_subqueries.simps [of "IsDistinctFrom b x y" for b x y]
  visit_expr_for_subqueries.simps [of "Matches t b x y r" for t b x y r]
  visit_expr_for_subqueries.simps [of "Extract f g x" for f g x]
  visit_expr_for_subqueries.simps [of "Substring x y z b c" for x y z b c]
  visit_expr_for_subqueries.simps [of "Trim x w y z" for x w y z]
  visit_expr_for_subqueries.simps [of "Tuple xs" for xs]
  visit_expr_for_subqueries.simps [of "OtherExpr s" for s]

lemmas plain_expr_at =
  plain_expr.simps [of "Identifier i" for i]
  plain_expr.simps [of "CompoundIdentifier ps" for ps]
  plain_expr.simps [of "BinaryOp l op r" for l op r]
  plain_expr.simps [of "UnaryOp op x" for op x]
  plain_expr.simps [of "Nested x" for x]
  plain_expr.simps [of "Between x b l h" for x b l h]
  plain_expr.simps [of "Value v" for v]
  plain_expr.simps [of "TypedString ty v" for ty v]
  plain_expr.simps [of "Cast x ty r" for x ty r]
  plain_expr.simps [of "Case x cs y" for x cs y]
  plain_expr.simps [of "Function n a w r" for n a w r]
  plain_expr.simps [of "InList x xs b" for x xs b]
  plain_expr.simps [of "InSubquery x q b" for x q b]
  plain_expr.simps [of "Subquery q" for q]
  plain_expr.simps [of "Exists q b" for q b]
  plain_expr.simps [of "IsTest t x" for t x]
  plain_expr.simps [of "IsDistinctFrom b x y" for b x y]
  plain_expr.simps [of "Matches t b x y r" for t b x y r]
  plain_expr.simps [of "Extract f g x" for f g x]
  plain_expr.simps [of "Substring x y z b c" for x y z b c]
  plain_expr.simps [of "Trim x w y z" for x w y z]
  plain_expr.simps [of "Tuple xs" for xs]
  plain_expr.simps [of "OtherExpr s" for s]

lemmas rewrite_expr_at =
  rewrite_expr_subqueries.simps [of cal reps "Identifier i" for cal reps i]
  rewrite_expr_subqueries.simps [of cal reps "CompoundIdentifier ps" for cal reps ps]
  rewrite_expr_subqueries.simps [of cal reps "BinaryOp l op r" for cal reps l op r]
  rewrite_expr_subqueries.simps [of cal reps "UnaryOp op x" for cal reps op x]
  rewrite_expr_subqueries.simps [of cal reps "Nested x" for cal reps x]
  rewrite_expr_subqueries.simps [of cal reps "Between x b l h" for cal reps x b l h]
  rewrite_expr_subqueries.simps [of cal reps "Value v" for cal reps v]
  rewrite_expr_subqueries.simps [of cal reps "TypedString ty v" for cal reps ty v]
  rewrite_expr_subqueries.simps [of cal reps "Cast x ty r" for cal reps x ty r]
  rewrite_expr_subqueries.simps [of cal reps "Case x cs y" for cal reps x cs y]
  rewrite_expr_subqueries.simps [of cal reps "Function n a w r" for cal reps n a w r]
  rewrite_expr_subqueries.simps [of cal reps "InList x xs b" for cal reps x xs b]
  rewrite_expr_subqueries.simps [of cal reps "InSubquery x q b" for cal reps x q b]
  rewrite_expr_subqueries.simps [of cal reps "Subquery q" for cal reps q]
  rewrite_expr_subqueries.simps [of cal reps "Exists q b" for cal reps q b]
  rewrite_expr_subqueries.simps [of cal reps "IsTest t x" for cal reps t x]
  rewrite_expr_subqueries.simps [of cal reps "IsDistinctFrom b x y" for cal reps b x y]
  rewrite_expr_subqueries.simps [of cal reps "Matches t b x y r" for cal reps t b x y r]
  rewrite_expr_subqueries.simps [of cal reps "Extract f g x" for cal reps f g x]
  rewrite_expr_subqueries.simps [of cal reps "Substring x y z b c" for cal reps x y z b c]
  rewrite_expr_subqueries.simps [of cal reps "Trim x w y z" for cal reps x w y z]
  rewrite_expr_subqueries.simps [of cal reps "Tuple xs" for cal reps xs]
  rewrite_expr_subqueries.simps [of cal reps "OtherExpr s" for cal reps s]

lemma rewritten_parts [simp]:
  "select_item_expr (map_item f i) = map_option f (select_item_expr i)"
  "unnamed_arg_expr (map_arg f a) = map_option f (unnamed_arg_expr a)"
  by (cases i; simp) (cases a rule: unnamed_arg_expr.cases; simp)

lemma visit_no_subquery: "no_subquery e \<Longrightarrow> visit_expr_for_subqueries e st = Inr st"
proof (induction e arbitrary: st rule: no_subquery.induct)
  case (8 operand conditions else_result)
  have "fold_ok (\<lambda>cw st. and_then (visit_expr_for_subqueries (when_condition cw) st)
      (visit_expr_for_subqueries (when_result cw))) cws st = Inr st" if "set cws \<subseteq> set conditions" for cws st
    using that 8 by (induction cws arbitrary: st) (auto simp: and_then_def)
  from this [of conditions] 8 show ?case
    by (cases operand; cases else_result) (auto simp: visit_expr_at and_then_def)
next
  case (9 name args over rest)
  have "fold_ok (\<lambda>a. visit_option visit_expr_for_subqueries (unnamed_arg_expr a)) ys st = Inr st"
    if "set ys \<subseteq> set xs" "args = ArgList xs r" for ys xs r st
    using that
  proof (induction ys arbitrary: st)
    case (Cons y ys)
    have "visit_option visit_expr_for_subqueries (unnamed_arg_expr y) st = Inr st" for st
      using Cons.prems 9 by (cases y rule: unnamed_arg_expr.cases) auto
    with Cons show ?case by auto
  qed simp
  then show ?case by (cases args) (auto simp: visit_expr_at)
qed (auto simp: visit_expr_at and_then_def)

lemma hides_visit_whens:
  assumes "\<forall>cw \<in> set cws. no_subquery (when_condition cw) \<and> no_subquery (when_result cw)"
  shows "fold_ok (\<lambda>cw st. and_then (visit_expr_for_subqueries (when_condition cw) st)
      (visit_expr_for_subqueries (when_result cw))) cws = Inr"
proof
  fix st show "fold_ok (\<lambda>cw st. and_then (visit_expr_for_subqueries (when_condition cw) st)
      (visit_expr_for_subqueries (when_result cw))) cws st = Inr st"
    using assms by (induction cws) (auto simp: visit_no_subquery and_then_def)
qed

lemma hides_table:
  "hides reps (visit_table_factor (TableRef name al rest))
     (visit_table_factor (rewrite_table_factor cal reps (TableRef name al rest)))"
proof (rule hidesI)
  fix st st' assume st': "visit_table_factor (TableRef name al rest) st = Inr st'"
  let ?t = "extract_table_name name"
  show "\<exists>new. known_datasets st' = known_datasets st \<and> found_tables st' = found_tables st @ new \<and>
      tr_dataset ` set new \<subseteq> known_datasets st \<and>
      (\<forall>s. tr_dataset ` set new \<subseteq> dom reps \<longrightarrow> known_datasets s = known_datasets st \<longrightarrow>
        finds_nothing (visit_table_factor (rewrite_table_factor cal reps (TableRef name al rest))) s)"
  proof (cases "?t \<in> known_datasets st")
    case True
    with st' show ?thesis
      by (auto simp: visit_table_def Let_def finds_nothing_def create_macro_call_def split: prod.split)
  next
    case False
    with st' show ?thesis
      by (cases "reps ?t") (auto simp: visit_table_def Let_def finds_nothing_def create_macro_call_def
          split: prod.split)
  qed
qed

text \<open>The walks as functions of the state.\<close>

lemma visit_query_fun:
  "visit_query (Query w body os lim fetch rest) =
     (\<lambda>st. and_then ((case w of
         Some (r, ctes) \<Rightarrow> fold_ok (\<lambda>cte. in_scope (CteScope (ident_value (alias_name (cte_alias cte))))
           (visit_query (cte_query cte))) ctes
       | None \<Rightarrow> Inr) st) (visit_set_expr body))"
  by (auto simp: fun_eq_iff split: option.split)

lemma visit_select_fun:
  "visit_select (Select proj from_items wh gb hv rest) =
     (\<lambda>st. and_then (fold_ok visit_table_with_joins from_items st)
       (\<lambda>st. and_then (visit_option visit_expr_for_subqueries wh st)
         (\<lambda>st. and_then (fold_ok (\<lambda>i. visit_option visit_expr_for_subqueries (select_item_expr i)) proj st)
           (visit_option visit_expr_for_subqueries hv))))"
  by (simp add: fun_eq_iff)

lemma visit_joins_fun:
  "visit_table_with_joins (TableWithJoins rel joins) =
     (\<lambda>st. and_then (visit_table_factor rel st) (fold_ok (\<lambda>j st.
       and_then (visit_table_factor (join_relation j) st)
         (visit_option visit_expr_for_subqueries (extract_join_on_expr (join_operator j)))) joins))"
  by (simp add: fun_eq_iff)

lemma visit_set_expr_fun:
  "visit_set_expr (SelectBody s) = visit_select s"
  "visit_set_expr (QueryBody q) = in_scope SubqueryScope (visit_query q)"
  "visit_set_expr (SetOperation op k l r) = (\<lambda>st. and_then (visit_set_expr l st) (visit_set_expr r))"
  "visit_set_expr (Values v) = Inr" "visit_set_expr (OtherBody v) = Inr"
  "visit_set_expr (InsertBody v) = (\<lambda>st. Inl (UnsupportedStatementType ''INSERT''))"
  "visit_set_expr (UpdateBody v) = (\<lambda>st. Inl (UnsupportedStatementType ''UPDATE''))"
  by (simp_all add: fun_eq_iff set_expr_at)

lemma visit_factor_fun:
  "visit_table_factor (Derived q al rest) = in_scope SubqueryScope (visit_query q)"
  "visit_table_factor (NestedJoin twj al) = visit_table_with_joins twj"
  by (simp_all add: fun_eq_iff)

lemma visit_expr_fun:
  "visit_expr_for_subqueries (Subquery q) = in_scope SubqueryScope (visit_query q)"
  "visit_expr_for_subqueries (InSubquery x q negated) = in_scope SubqueryScope (visit_query q)"
  "visit_expr_for_subqueries (Exists q negated) = in_scope SubqueryScope (visit_query q)"
  "visit_expr_for_subqueries (BinaryOp l op r) =
     (\<lambda>st. and_then (visit_expr_for_subqueries l st) (visit_expr_for_subqueries r))"
  "visit_expr_for_subqueries (UnaryOp u x) = visit_expr_for_subqueries x"
  "visit_expr_for_subqueries (Nested x) = visit_expr_for_subqueries x"
  "visit_expr_for_subqueries (Between x negated low high) =
     (\<lambda>st. and_then (visit_expr_for_subqueries x st)
       (\<lambda>st. and_then (visit_expr_for_subqueries low st) (visit_expr_for_subqueries high)))"
  "visit_expr_for_subqueries (Case operand conditions else_result) =
     (\<lambda>st. and_then (visit_option visit_expr_for_subqueries operand st)
       (\<lambda>st. and_then (fold_ok (\<lambda>cw st. and_then (visit_expr_for_subqueries (when_condition cw) st)
           (visit_expr_for_subqueries (when_result cw))) conditions st)
         (visit_option visit_expr_for_subqueries else_result)))"
  "visit_expr_for_subqueries (Function name (ArgList xs r') over rest) =
     fold_ok (\<lambda>a. visit_option visit_expr_for_subqueries (unnamed_arg_expr a)) xs"
  "visit_expr_for_subqueries (Function name (OtherArguments r') over rest) = Inr"
  by (simp_all add: fun_eq_iff visit_expr_at)

lemma hides_same: "no_subquery e \<Longrightarrow> hides reps (visit_expr_for_subqueries e) (visit_expr_for_subqueries e)"
  by (simp add: hides_def hidden_def finds_nothing_def visit_no_subquery)

lemma hides_fold_parts:
  assumes "\<And>x e. x \<in> set xs \<Longrightarrow> part x = Some e \<Longrightarrow> hides reps (F e) (F (h e))"
    and "\<And>x. part (k x) = map_option h (part x)"
  shows "hides reps (fold_ok (\<lambda>x. visit_option F (part x)) xs) (fold_ok (\<lambda>x. visit_option F (part x)) (map k xs))"
  by (rule hides_fold) (simp add: assms(2) hides_option assms(1))

lemma rewrite_hides:
  "plain_query q \<Longrightarrow> hides reps (visit_query q) (visit_query (rewrite_query cal reps q))"
  "plain_set_expr b \<Longrightarrow> hides reps (visit_set_expr b) (visit_set_expr (rewrite_set_expr cal reps b))"
  "plain_select s \<Longrightarrow> hides reps (visit_select s) (visit_select (rewrite_select cal reps s))"
  "plain_joins t \<Longrightarrow> hides reps (visit_table_with_joins t) (visit_table_with_joins (rewrite_table_with_joins cal reps t))"
  "plain_factor f \<Longrightarrow> hides reps (visit_table_factor f) (visit_table_factor (rewrite_table_factor cal reps f))"
  "plain_expr e \<Longrightarrow> hides reps (visit_expr_for_subqueries e)
     (visit_expr_for_subqueries (rewrite_expr_subqueries cal reps e))"
proof (induction cal reps q and cal reps b and cal reps s and cal reps t and cal reps f and cal reps e
    rule: rewrite_query_rewrite_set_expr_rewrite_select_rewrite_table_with_joins_rewrite_table_factor_rewrite_expr_subqueries.induct)
  case (1 cal reps w body os lim fetch rest)
  then show ?case
    by (cases w) (auto simp: visit_query_fun map_cte_def intro!: hides_and_then hides_fold hides_scope)
next
  case (2 cal reps b)
  then show ?case
    by (cases b) (auto simp: set_expr_at(2,3,5,6,8,9,11,12,14,15,17,18,20,21) visit_set_expr_fun
        intro!: hides_and_then hides_scope)
next
  case (3 cal reps proj from_items wh gb hv rest)
  then show ?case unfolding visit_select_fun rewrite_select.simps
    by (intro hides_and_then hides_fold hides_option hides_fold_parts) (auto split: option.splits)
next
  case (4 cal reps rel joins)
  then show ?case unfolding visit_joins_fun rewrite_table_with_joins.simps
    by (intro hides_and_then hides_fold) (auto simp: extract_map_join_on_expr intro!: hides_and_then hides_option)
next
  case (5 cal reps name al rest)
  show ?case by (rule hides_table)
next
  case (6 cal reps q al rest)
  then show ?case
    by (simp add: plain_factor.simps [of "Derived q al rest"] visit_factor_fun hides_scope)
next
  case (7 cal reps twj al)
  then show ?case
    by (simp add: plain_factor.simps [of "NestedJoin twj al"] visit_factor_fun)
next
  case (9 cal reps e)
  show ?case
  proof (cases e)
    case (Case operand conditions else_result)
    with 9 show ?thesis
      by (auto simp: plain_expr_at rewrite_expr_at visit_expr_fun hides_visit_whens visit_option_fun
          intro!: hides_and_then hides_option split: option.splits)
  next
    case (Function name args over rest)
    with 9 show ?thesis
      by (cases args) (auto simp: plain_expr_at rewrite_expr_at visit_expr_fun
          intro!: hides_fold_parts split: option.splits)
  qed (use 9 in \<open>auto simp: plain_expr_at rewrite_expr_at visit_expr_fun hides_same
      intro!: hides_and_then hides_scope\<close>)
qed (simp_all add: hides_def hidden_def finds_nothing_def)

section \<open>Replacements\<close>

lemma extract_intervals_dom:
  "dom (extract_intervals cal cols e tables) = tr_dataset ` {t \<in> set tables. cols (tr_dataset t) \<noteq> None}"
proof -
  have "dom (fold (\<lambda>t m. case cols (tr_dataset t) of None \<Rightarrow> m
        | Some time_col \<Rightarrow> m(tr_dataset t \<mapsto> analyze_for_table cal e (effective_name t) time_col)) ts m) =
      dom m \<union> tr_dataset ` {t \<in> set ts. cols (tr_dataset t) \<noteq> None}" for ts m
    by (induction ts arbitrary: m) (auto split: option.splits)
  from this [of tables Map.empty] show ?thesis unfolding extract_intervals_def by simp
qed

lemma fold_default_dom: "dom (fold (\<lambda>t m. m(k t \<mapsto> v)) ts m) = dom m \<union> k ` set ts"
  by (induction ts arbitrary: m) auto

lemma statement_ranges_dom:
  assumes "tr_dataset ` set tables \<subseteq> registered_dataset_ids tr"
  shows "dom (statement_ranges cal tr stmt tables) = tr_dataset ` set tables"
proof (cases "extract_where_clause stmt")
  case (Some e)
  have "dom (map_option range_of_interval \<circ> m) = dom m" for m by (auto simp: dom_def)
  moreover have "{t \<in> set tables. (map_option time_column_name \<circ> registered_datasets tr) (tr_dataset t) \<noteq> None} = set tables"
    using assms by (auto simp: registered_dataset_ids_def)
  ultimately show ?thesis by (simp add: statement_ranges_def Some extract_intervals_dom)
next
  case None
  then show ?thesis
    by (simp add: statement_ranges_def fold_default_dom)
qed

lemma build_replacements_dom:
  assumes "tr_dataset ` set tables \<subseteq> registered_dataset_ids tr" "dom ranges = tr_dataset ` set tables"
  shows "dom (build_replacements tr tables ranges) = tr_dataset ` set tables"
proof -
  have "dom (fold (\<lambda>t m. case (registered_datasets tr (tr_dataset t), ranges (tr_dataset t)) of
          (Some dataset, Some rng) \<Rightarrow> m(tr_dataset t \<mapsto> (dataset, rng))
        | _ \<Rightarrow> m) ts m) = dom m \<union> tr_dataset ` set ts" if "set ts \<subseteq> set tables" for ts m
    using that
  proof (induction ts arbitrary: m)
    case (Cons t ts)
    from Cons.prems assms(1) obtain ds where "registered_datasets tr (tr_dataset t) = Some ds"
      by (auto simp: registered_dataset_ids_def)
    moreover from Cons.prems assms(2) obtain rng where "ranges (tr_dataset t) = Some rng" by auto
    ultimately show ?case using Cons by auto
  qed simp
  from this [OF subset_refl, of Map.empty] show ?thesis unfolding build_replacements_def by simp
qed

section \<open>Properties\<close>

text \<open>
  C8. The transformation replaces every reference to a registered dataset: for a query without
  subqueries in the WHEN parts of a CASE, the transformer returns a statement in which a
  second discovery with the same registrations finds no table, and reports the datasets that
  the first discovery found.
\<close>

theorem transform_replaces_all:
  assumes "plain_query q" and "discover d (registered_dataset_ids tr) (QueryStmt q) = Inr tables"
  shows "\<exists>stmt r. transform_statement d cal tr sql (QueryStmt q) tables = Inr (stmt, r) \<and>
    discover d (registered_dataset_ids tr) stmt = Inr [] \<and>
    transformed_sql r = to_sql d stmt \<and> tables_replaced r = map tr_dataset tables"
proof -
  define ranges where "ranges = statement_ranges cal tr (QueryStmt q) tables"
  define reps where "reps = build_replacements tr tables ranges"
  let ?new = "discovery_new (registered_dataset_ids tr)"
  from assms(2) obtain st where st: "visit_query q ?new = Inr st" "found_tables st = tables"
    by (auto simp: discover_def visit_statement_def)
  obtain new where new: "found_tables st = found_tables ?new @ new"
    "tr_dataset ` set new \<subseteq> known_datasets ?new"
    "\<And>s. tr_dataset ` set new \<subseteq> dom reps \<Longrightarrow> known_datasets s = known_datasets ?new \<Longrightarrow>
      finds_nothing (visit_query (rewrite_query cal reps q)) s"
    by (rule hidesE [OF rewrite_hides(1) [OF assms(1)] st(1)]) blast
  with st(2) have "new = tables" by (simp add: discovery_new_def)
  with new(2,3) have sub: "tr_dataset ` set tables \<subseteq> registered_dataset_ids tr"
    and hidden: "tr_dataset ` set tables \<subseteq> dom reps \<Longrightarrow>
      finds_nothing (visit_query (rewrite_query cal reps q)) ?new"
    by (simp_all add: discovery_new_def)
  have "dom reps = tr_dataset ` set tables"
    unfolding reps_def ranges_def by (intro build_replacements_dom statement_ranges_dom sub)
  with hidden obtain s where "visit_query (rewrite_query cal reps q) ?new = Inr s" "found_tables s = []"
    by (auto simp: finds_nothing_def discovery_new_def)
  then show ?thesis
    by (simp add: transform_statement_def discover_def visit_statement_def ranges_def reps_def Let_def)
qed

text \<open>\<^verbatim>\<open>SELECT k FROM events WHERE dt = 's' AND k IN (SELECT k FROM sales)\<close>\<close>

definition in_query :: "string \<Rightarrow> table_factor \<Rightarrow> query" where
  "in_query s f = Query None (SelectBody (Select [UnnamedExpr (plain_column ''k'')]
     [TableWithJoins (table_ref ''events'') []]
     (Some (BinaryOp (BinaryOp dt_column Eq (date_text s)) And
       (InSubquery (plain_column ''k'') (Query None (SelectBody (Select [UnnamedExpr (plain_column ''k'')]
         [TableWithJoins f []] None (GroupByExpressions [] []) None [])) None None None []) False)))
     (GroupByExpressions [] []) None [])) None None None []"

definition sales_only :: sql_transformer where
  "sales_only = register_dataset (registered_dataset_new ''sales'' ''dt'') transformer_new"

definition macro_call :: "string \<Rightarrow> string \<Rightarrow> string \<Rightarrow> table_factor" where
  "macro_call name s e = TableFunction [IdentPart (ident_new name)]
     [UnnamedArg (ArgExpr (create_date_literal s)), UnnamedArg (ArgExpr (create_date_literal e))] None False"

lemma in_query_discovered:
  "discover d (registered_dataset_ids sales_only) (QueryStmt (in_query s (table_ref ''sales''))) =
     Inr [\<lparr>tr_dataset = ''sales'', tr_alias = None, tr_scope = ScopeId 1\<rparr>]"
  by (simp add: discover_def visit_statement_def in_query_def sales_only_def registered_dataset_ids_def
      register_dataset_def transformer_new_def registered_dataset_new_def set_expr_at and_then_def
      table_ref_def visit_table_def extract_table_name_def discovery_new_def visit_expr_at dt_column_def
      date_text_def plain_column_def in_scope_def enter_scope_def exit_scope_def current_scope_def Let_def)

theorem transform_replaces_all_witness:
  "\<exists>stmt r. transform_statement undefined day_calendar sales_only [] (QueryStmt (in_query ''7'' (table_ref ''sales'')))
       [\<lparr>tr_dataset = ''sales'', tr_alias = None, tr_scope = ScopeId 1\<rparr>] = Inr (stmt, r) \<and>
     discover undefined (registered_dataset_ids sales_only) stmt = Inr []"
proof -
  have "plain_query (in_query ''7'' (table_ref ''sales''))"
    by (simp add: in_query_def set_expr_at plain_expr_at plain_factor.simps [of "TableRef n a r" for n a r]
        table_ref_def dt_column_def date_text_def plain_column_def)
  from transform_replaces_all [OF this in_query_discovered [where d = undefined]] show ?thesis by blast
qed



end
