(* ===== verification/Admission.thy ===== *)
theory Admission
  imports Rewriting "HOL-Library.AList"
begin

text \<open>
  \<^verbatim>\<open>sql/admission.rs\<close> and the admission methods of \<^verbatim>\<open>sql/transformer.rs\<close>: queries with
  recursive CTEs, or over a distributed dataset without a condition on its time column, are
  refused. The loops over a \<open>HashMap\<close> run in an order that Rust leaves open: the order is an
  argument (\<open>order\<close> for the qualifier map, \<open>values\<close> for the values of the registrations).
\<close>

section \<open>Errors\<close>

datatype admission_error =
    RecursiveCte string
  | MissingTimeRange string string
  | AdmissionParseError string
  | UnsupportedStatement string

fun admission_error_display :: "admission_error \<Rightarrow> string" where
  "admission_error_display (RecursiveCte cte_name) =
     ''Recursive CTEs are not supported in distributed execution: WITH RECURSIVE '' @ cte_name"
| "admission_error_display (MissingTimeRange table_name time_column) =
     ''Query on distributed table '' @ [CHR 0x27] @ table_name @ [CHR 0x27] @
     '' requires a time-range predicate on column '' @ [CHR 0x27] @ time_column @ [CHR 0x27] @
     ''. Add a WHERE clause like: '' @ time_column @ '' BETWEEN '' @ [CHR 0x27] @ ''...'' @ [CHR 0x27] @
     '' AND '' @ [CHR 0x27] @ ''...'' @ [CHR 0x27]"
| "admission_error_display (AdmissionParseError msg) = ''Failed to parse SQL: '' @ msg"
| "admission_error_display (UnsupportedStatement msg) = ''Unsupported statement: '' @ msg"

fun admission_error_of :: "sql_transform_error \<Rightarrow> admission_error" where
  "admission_error_of (ParseError msg) = AdmissionParseError msg"
| "admission_error_of (UnsupportedStatementType msg) = UnsupportedStatement msg"
| "admission_error_of other = AdmissionParseError (sql_transform_error_display other)"

datatype transform_error = AdmissionRejected admission_error | TransformError sql_transform_error

text \<open>A loop whose body is a check that ends with \<open>?\<close>.\<close>

definition each_ok :: "('a \<Rightarrow> 'e + unit) \<Rightarrow> 'a list \<Rightarrow> 'e + unit" where
  "each_ok f xs = fold_ok (\<lambda>x _. f x) xs ()"

lemma each_ok_cong [fundef_cong]:
  "xs = ys \<Longrightarrow> (\<And>x. x \<in> set ys \<Longrightarrow> f x = g x) \<Longrightarrow> each_ok f xs = each_ok g ys"
  unfolding each_ok_def by (rule fold_ok_cong) auto

lemma each_ok_iff: "each_ok f xs = Inr () \<longleftrightarrow> (\<forall>x\<in>set xs. f x = Inr ())"
proof (induction xs)
  case (Cons x xs)
  then show ?case by (cases "f x") (auto simp: each_ok_def)
qed (simp add: each_ok_def)

lemma and_then_unit: "and_then r f = Inr () \<longleftrightarrow> r = Inr () \<and> f () = Inr ()"
  by (auto simp: and_then_def)

section \<open>Recursive CTEs\<close>

function (sequential) check_query_for_recursive_cte :: "query \<Rightarrow> admission_error + unit"
  and check_set_expr_for_recursive_cte :: "set_expr \<Rightarrow> admission_error + unit"
  and check_select_for_recursive_cte :: "select \<Rightarrow> admission_error + unit"
  and check_table_with_joins_for_recursive_cte :: "table_with_joins \<Rightarrow> admission_error + unit"
  and check_table_factor_for_recursive_cte :: "table_factor \<Rightarrow> admission_error + unit"
  and check_expr_for_recursive_cte :: "expr \<Rightarrow> admission_error + unit"
where
  "check_query_for_recursive_cte (Query w body os lim fetch rest) =
     and_then (case w of
         Some (recursive, ctes) \<Rightarrow>
           if recursive
           then Inl (RecursiveCte (if ctes = [] then ''unknown''
                  else ident_value (alias_name (cte_alias (hd ctes)))))
           else each_ok (\<lambda>c. check_query_for_recursive_cte (cte_query c)) ctes
       | None \<Rightarrow> Inr ())
     (\<lambda>_. check_set_expr_for_recursive_cte body)"
| "check_set_expr_for_recursive_cte b =
     (case b of
        SelectBody s \<Rightarrow> check_select_for_recursive_cte s
      | QueryBody q \<Rightarrow> check_query_for_recursive_cte q
      | SetOperation op k l r \<Rightarrow>
          and_then (check_set_expr_for_recursive_cte l) (\<lambda>_. check_set_expr_for_recursive_cte r)
      | _ \<Rightarrow> Inr ())"
| "check_select_for_recursive_cte (Select proj from_items wh gb hv rest) =
     and_then (each_ok check_table_with_joins_for_recursive_cte from_items) (\<lambda>_.
       case wh of Some e \<Rightarrow> check_expr_for_recursive_cte e | None \<Rightarrow> Inr ())"
| "check_table_with_joins_for_recursive_cte (TableWithJoins rel joins) =
     and_then (check_table_factor_for_recursive_cte rel) (\<lambda>_.
       each_ok (\<lambda>j. check_table_factor_for_recursive_cte (join_relation j)) joins)"
| "check_table_factor_for_recursive_cte (Derived q al rest) = check_query_for_recursive_cte q"
| "check_table_factor_for_recursive_cte (NestedJoin twj al) = check_table_with_joins_for_recursive_cte twj"
| "check_table_factor_for_recursive_cte _ = Inr ()"
| "check_expr_for_recursive_cte e =
     (case e of
        Subquery q \<Rightarrow> check_query_for_recursive_cte q
      | InSubquery x q negated \<Rightarrow> check_query_for_recursive_cte q
      | Exists q negated \<Rightarrow> check_query_for_recursive_cte q
      | BinaryOp l op r \<Rightarrow> and_then (check_expr_for_recursive_cte l) (\<lambda>_. check_expr_for_recursive_cte r)
      | UnaryOp op x \<Rightarrow> check_expr_for_recursive_cte x
      | Nested x \<Rightarrow> check_expr_for_recursive_cte x
      | _ \<Rightarrow> Inr ())"
  by pat_completeness auto
termination
  by (relation "measure (\<lambda>x. case x of
      Inl (Inl q) \<Rightarrow> size q | Inl (Inr (Inl b)) \<Rightarrow> size b | Inl (Inr (Inr s)) \<Rightarrow> size s
    | Inr (Inl t) \<Rightarrow> size t | Inr (Inr (Inl f)) \<Rightarrow> size f | Inr (Inr (Inr e)) \<Rightarrow> size e)")
    (auto dest: walk_sizes)

declare check_set_expr_for_recursive_cte.simps [simp del] check_expr_for_recursive_cte.simps [simp del]

fun check_recursive_cte :: "statement \<Rightarrow> admission_error + unit" where
  "check_recursive_cte (QueryStmt q) = check_query_for_recursive_cte q"
| "check_recursive_cte _ = Inr ()"

section \<open>Tables and predicates\<close>

record qualified_table_ref =
  ref_table :: string
  ref_alias :: "string option"

definition extract_table_name_opt :: "object_name \<Rightarrow> string option" where
  "extract_table_name_opt name =
     (if name = [] then None
      else case last name of IdentPart i \<Rightarrow> Some (ident_value i) | OtherPart s \<Rightarrow> None)"

text \<open>The vectors that the source passes along by reference are returned here.\<close>

function (sequential) collect_qualified_table_refs :: "query \<Rightarrow> qualified_table_ref list"
  and collect_qualified_refs_from_set_expr :: "set_expr \<Rightarrow> qualified_table_ref list"
  and collect_qualified_refs_from_select :: "select \<Rightarrow> qualified_table_ref list"
  and collect_qualified_refs_from_table_with_joins :: "table_with_joins \<Rightarrow> qualified_table_ref list"
  and collect_qualified_refs_from_table_factor :: "table_factor \<Rightarrow> qualified_table_ref list"
where
  "collect_qualified_table_refs (Query w body os lim fetch rest) =
     (case w of
        Some (recursive, ctes) \<Rightarrow> concat (map (\<lambda>c. collect_qualified_table_refs (cte_query c)) ctes)
      | None \<Rightarrow> []) @ collect_qualified_refs_from_set_expr body"
| "collect_qualified_refs_from_set_expr b =
     (case b of
        SelectBody s \<Rightarrow> collect_qualified_refs_from_select s
      | QueryBody q \<Rightarrow> collect_qualified_table_refs q
      | SetOperation op k l r \<Rightarrow> collect_qualified_refs_from_set_expr l @ collect_qualified_refs_from_set_expr r
      | _ \<Rightarrow> [])"
| "collect_qualified_refs_from_select (Select proj from_items wh gb hv rest) =
     concat (map collect_qualified_refs_from_table_with_joins from_items)"
| "collect_qualified_refs_from_table_with_joins (TableWithJoins rel joins) =
     collect_qualified_refs_from_table_factor rel @
     concat (map (\<lambda>j. collect_qualified_refs_from_table_factor (join_relation j)) joins)"
| "collect_qualified_refs_from_table_factor (TableRef name al rest) =
     (case extract_table_name_opt name of
        Some n \<Rightarrow> [\<lparr>ref_table = n, ref_alias = map_option (\<lambda>a. ident_value (alias_name a)) al\<rparr>]
      | None \<Rightarrow> [])"
| "collect_qualified_refs_from_table_factor (Derived q al rest) = collect_qualified_table_refs q"
| "collect_qualified_refs_from_table_factor (NestedJoin twj al) =
     collect_qualified_refs_from_table_with_joins twj"
| "collect_qualified_refs_from_table_factor _ = []"
  by pat_completeness auto
termination
  by (relation "measure (\<lambda>x. case x of
      Inl (Inl q) \<Rightarrow> size q | Inl (Inr b) \<Rightarrow> size b | Inr (Inl s) \<Rightarrow> size s
    | Inr (Inr (Inl t)) \<Rightarrow> size t | Inr (Inr (Inr f)) \<Rightarrow> size f)")
    (auto dest: walk_sizes)

declare collect_qualified_refs_from_set_expr.simps [simp del]

function (sequential) collect_predicates :: "query \<Rightarrow> expr list"
  and collect_predicates_from_set_expr :: "set_expr \<Rightarrow> expr list"
  and collect_predicates_from_table_with_joins :: "table_with_joins \<Rightarrow> expr list"
  and collect_predicates_from_table_factor :: "table_factor \<Rightarrow> expr list"
where
  "collect_predicates (Query w body os lim fetch rest) =
     (case w of
        Some (recursive, ctes) \<Rightarrow> concat (map (\<lambda>c. collect_predicates (cte_query c)) ctes)
      | None \<Rightarrow> []) @ collect_predicates_from_set_expr body"
| "collect_predicates_from_set_expr b =
     (case b of
        SelectBody s \<Rightarrow>
          (case s of Select proj from_items wh gb hv rest \<Rightarrow>
             (case wh of Some e \<Rightarrow> [e] | None \<Rightarrow> []) @
             concat (map collect_predicates_from_table_with_joins from_items))
      | QueryBody q \<Rightarrow> collect_predicates q
      | SetOperation op k l r \<Rightarrow> collect_predicates_from_set_expr l @ collect_predicates_from_set_expr r
      | _ \<Rightarrow> [])"
| "collect_predicates_from_table_with_joins (TableWithJoins rel joins) =
     collect_predicates_from_table_factor rel @
     concat (map (\<lambda>j. collect_predicates_from_table_factor (join_relation j) @
       (case extract_join_on_expr (join_operator j) of Some e \<Rightarrow> [e] | None \<Rightarrow> [])) joins)"
| "collect_predicates_from_table_factor (Derived q al rest) = collect_predicates q"
| "collect_predicates_from_table_factor (NestedJoin twj al) = collect_predicates_from_table_with_joins twj"
| "collect_predicates_from_table_factor _ = []"
  by pat_completeness auto
termination
  by (relation "measure (\<lambda>x. case x of
      Inl (Inl q) \<Rightarrow> size q | Inl (Inr b) \<Rightarrow> size b
    | Inr (Inl t) \<Rightarrow> size t | Inr (Inr f) \<Rightarrow> size f)")
    (auto dest: walk_sizes)

declare collect_predicates_from_set_expr.simps [simp del]

fun expr_references_column :: "expr \<Rightarrow> string \<Rightarrow> string set \<Rightarrow> bool" where
  "expr_references_column (Identifier i) column_name valid_qualifiers =
     eq_ignore_ascii_case (ident_value i) column_name"
| "expr_references_column (CompoundIdentifier parts) column_name valid_qualifiers =
     (if parts = [] \<or> \<not> eq_ignore_ascii_case (ident_value (last parts)) column_name then False
      else if 2 \<le> length parts
      then \<exists>q\<in>valid_qualifiers. eq_ignore_ascii_case q (ident_value (parts ! (length parts - 2)))
      else True)"
| "expr_references_column (BinaryOp l op r) column_name valid_qualifiers \<longleftrightarrow>
     expr_references_column l column_name valid_qualifiers \<or>
     expr_references_column r column_name valid_qualifiers"
| "expr_references_column (Between e negated low high) column_name valid_qualifiers =
     expr_references_column e column_name valid_qualifiers"
| "expr_references_column (InList e xs negated) column_name valid_qualifiers =
     expr_references_column e column_name valid_qualifiers"
| "expr_references_column (Nested e) column_name valid_qualifiers =
     expr_references_column e column_name valid_qualifiers"
| "expr_references_column _ column_name valid_qualifiers = False"

definition has_time_predicate :: "expr list \<Rightarrow> string \<Rightarrow> string set \<Rightarrow> bool" where
  "has_time_predicate predicates time_column valid_qualifiers \<longleftrightarrow>
     (\<exists>e\<in>set predicates. expr_references_column e time_column valid_qualifiers)"

section \<open>The controller\<close>

record admission_controller =
  controlled_datasets :: "string \<rightharpoonup> registered_dataset"

definition controller_new :: admission_controller where
  "controller_new = \<lparr>controlled_datasets = Map.empty\<rparr>"

definition controller_register :: "registered_dataset \<Rightarrow> admission_controller \<Rightarrow> admission_controller" where
  "controller_register ds c =
     c\<lparr>controlled_datasets := (controlled_datasets c)(dataset_id ds \<mapsto> ds)\<rparr>"

definition controller_unregister :: "string \<Rightarrow> admission_controller \<Rightarrow> admission_controller" where
  "controller_unregister i c = c\<lparr>controlled_datasets := (controlled_datasets c)(i := None)\<rparr>"

definition controller_dataset_ids :: "admission_controller \<Rightarrow> string set" where
  "controller_dataset_ids c = dom (controlled_datasets c)"

text \<open>\<open>entry(...).or_default()\<close> and the inserts on the set it returns.\<close>

definition add_qualifiers ::
  "admission_controller \<Rightarrow> qualified_table_ref \<Rightarrow> (string \<times> string set) list \<Rightarrow> (string \<times> string set) list" where
  "add_qualifiers c t m =
     (if controlled_datasets c (ref_table t) = None then m
      else let old = (case map_of m (ref_table t) of Some s \<Rightarrow> s | None \<Rightarrow> {})
           in AList.update (ref_table t)
                (old \<union> insert (ref_table t) (set_option (ref_alias t))) m)"

definition dataset_qualifiers ::
  "admission_controller \<Rightarrow> qualified_table_ref list \<Rightarrow> (string \<times> string set) list" where
  "dataset_qualifiers c refs = fold (add_qualifiers c) refs []"

type_synonym iteration_order = "(string \<times> string set) list \<Rightarrow> (string \<times> string set) list"

definition check_query_time_ranges ::
  "iteration_order \<Rightarrow> admission_controller \<Rightarrow> query \<Rightarrow> admission_error + unit" where
  "check_query_time_ranges order c q =
     (let qualifiers = dataset_qualifiers c (collect_qualified_table_refs q)
      in if qualifiers = [] then Inr ()
         else let predicates = collect_predicates q
           in each_ok (\<lambda>(i, valid_qualifiers).
                let dataset = the (controlled_datasets c i)
                in if has_time_predicate predicates (time_column_name dataset) valid_qualifiers then Inr ()
                   else Inl (MissingTimeRange (dataset_id dataset) (time_column_name dataset)))
              (order qualifiers))"

fun check_time_range_predicates ::
  "iteration_order \<Rightarrow> admission_controller \<Rightarrow> statement \<Rightarrow> admission_error + unit" where
  "check_time_range_predicates order c (QueryStmt q) = check_query_time_ranges order c q"
| "check_time_range_predicates order c _ = Inl (UnsupportedStatement ''Only SELECT queries are supported'')"

definition admission_check ::
  "sql_parser \<Rightarrow> iteration_order \<Rightarrow> admission_controller \<Rightarrow> string \<Rightarrow> admission_error + unit" where
  "admission_check parser order c sql =
     (case parse_sql parser sql of
        Inl e \<Rightarrow> Inl (admission_error_of e)
      | Inr stmt \<Rightarrow> bind_ok (check_recursive_cte stmt) (\<lambda>_.
          bind_ok (check_time_range_predicates order c stmt) (\<lambda>_. Inr ())))"

section \<open>The admission methods of the transformer\<close>

type_synonym value_order = "(string \<rightharpoonup> registered_dataset) \<Rightarrow> registered_dataset list"

definition create_admission_controller :: "value_order \<Rightarrow> sql_transformer \<Rightarrow> admission_controller" where
  "create_admission_controller values tr =
     fold controller_register (values (registered_datasets tr)) controller_new"

definition admit ::
  "sql_parser \<Rightarrow> iteration_order \<Rightarrow> value_order \<Rightarrow> sql_transformer \<Rightarrow> string \<Rightarrow> admission_error + unit" where
  "admit parser order values tr sql =
     admission_check parser order (create_admission_controller values tr) sql"

definition admit_and_transform ::
  "sql_parser \<Rightarrow> sql_display \<Rightarrow> calendar \<Rightarrow> iteration_order \<Rightarrow> value_order \<Rightarrow> sql_transformer \<Rightarrow> string \<Rightarrow>
   transform_error + transform_result" where
  "admit_and_transform parser d cal order values tr sql =
     (case admit parser order values tr sql of
        Inl e \<Rightarrow> Inl (AdmissionRejected e)
      | Inr _ \<Rightarrow> (case transform parser d cal tr sql of
          Inl e \<Rightarrow> Inl (TransformError e)
        | Inr r \<Rightarrow> Inr r))"

section \<open>What is checked\<close>

text \<open>
  The queries with a \<^verbatim>\<open>WITH RECURSIVE\<close> in a place where the controller looks: CTEs,
  operands of set operations, derived tables, and subqueries of the WHERE condition.
\<close>

inductive recursive_query :: "query \<Rightarrow> bool"
  and recursive_body :: "set_expr \<Rightarrow> bool"
  and recursive_select :: "select \<Rightarrow> bool"
  and recursive_tables :: "table_with_joins \<Rightarrow> bool"
  and recursive_factor :: "table_factor \<Rightarrow> bool"
  and recursive_condition :: "expr \<Rightarrow> bool"
where
  "recursive_query (Query (Some (True, ctes)) body os lim fetch rest)"
| "c \<in> set ctes \<Longrightarrow> recursive_query (cte_query c) \<Longrightarrow>
     recursive_query (Query (Some (r, ctes)) body os lim fetch rest)"
| "recursive_body body \<Longrightarrow> recursive_query (Query w body os lim fetch rest)"
| "recursive_select s \<Longrightarrow> recursive_body (SelectBody s)"
| "recursive_query q \<Longrightarrow> recursive_body (QueryBody q)"
| "recursive_body l \<or> recursive_body r \<Longrightarrow> recursive_body (SetOperation op k l r)"
| "t \<in> set from_items \<Longrightarrow> recursive_tables t \<Longrightarrow> recursive_select (Select proj from_items wh gb hv rest)"
| "recursive_condition e \<Longrightarrow> recursive_select (Select proj from_items (Some e) gb hv rest)"
| "recursive_factor rel \<Longrightarrow> recursive_tables (TableWithJoins rel joins)"
| "j \<in> set joins \<Longrightarrow> recursive_factor (join_relation j) \<Longrightarrow> recursive_tables (TableWithJoins rel joins)"
| "recursive_query q \<Longrightarrow> recursive_factor (Derived q al rest)"
| "recursive_tables t \<Longrightarrow> recursive_factor (NestedJoin t al)"
| "recursive_query q \<Longrightarrow> recursive_condition (Subquery q)"
| "recursive_query q \<Longrightarrow> recursive_condition (InSubquery x q negated)"
| "recursive_query q \<Longrightarrow> recursive_condition (Exists q negated)"
| "recursive_condition l \<or> recursive_condition r \<Longrightarrow> recursive_condition (BinaryOp l op r)"
| "recursive_condition x \<Longrightarrow> recursive_condition (UnaryOp op x)"
| "recursive_condition x \<Longrightarrow> recursive_condition (Nested x)"

inductive_simps recursive_query_simps: "recursive_query (Query w body os lim fetch rest)"
inductive_simps recursive_body_simps: "recursive_body (SelectBody s)" "recursive_body (QueryBody q)"
  "recursive_body (SetOperation op k l r)" "recursive_body (Values v)" "recursive_body (InsertBody v)"
  "recursive_body (UpdateBody v)" "recursive_body (OtherBody v)"
inductive_simps recursive_select_simps: "recursive_select (Select proj from_items wh gb hv rest)"
inductive_simps recursive_tables_simps: "recursive_tables (TableWithJoins rel joins)"
inductive_simps recursive_factor_simps: "recursive_factor (TableRef n al r)"
  "recursive_factor (Derived q al r)" "recursive_factor (NestedJoin t al)"
  "recursive_factor (TableFunction n args al l)" "recursive_factor (OtherFactor v)"
inductive_simps recursive_condition_simps:
  "recursive_condition (Identifier i)" "recursive_condition (CompoundIdentifier parts)"
  "recursive_condition (BinaryOp l op r)" "recursive_condition (UnaryOp op x)"
  "recursive_condition (Nested x)" "recursive_condition (Between x n lo hi)"
  "recursive_condition (Value v)" "recursive_condition (TypedString ty v)"
  "recursive_condition (Cast x ty v)" "recursive_condition (Case x cs y)"
  "recursive_condition (Function n args ov r)" "recursive_condition (InList x xs n)"
  "recursive_condition (InSubquery x q n)" "recursive_condition (Subquery q)"
  "recursive_condition (Exists q n)" "recursive_condition (IsTest t x)"
  "recursive_condition (IsDistinctFrom n x y)" "recursive_condition (Matches t n x y v)"
  "recursive_condition (Extract u v x)" "recursive_condition (Substring x y z n m)"
  "recursive_condition (Trim x v y z)" "recursive_condition (Tuple xs)"
  "recursive_condition (OtherExpr v)"

lemma recursive_cte_checks:
  "check_query_for_recursive_cte q = Inr () \<longleftrightarrow> \<not> recursive_query q"
  "check_set_expr_for_recursive_cte b = Inr () \<longleftrightarrow> \<not> recursive_body b"
  "check_select_for_recursive_cte s = Inr () \<longleftrightarrow> \<not> recursive_select s"
  "check_table_with_joins_for_recursive_cte t = Inr () \<longleftrightarrow> \<not> recursive_tables t"
  "check_table_factor_for_recursive_cte f = Inr () \<longleftrightarrow> \<not> recursive_factor f"
  "check_expr_for_recursive_cte e = Inr () \<longleftrightarrow> \<not> recursive_condition e"
proof (induction q and b and s and t and f and e rule:
    check_query_for_recursive_cte_check_set_expr_for_recursive_cte_check_select_for_recursive_cte_check_table_with_joins_for_recursive_cte_check_table_factor_for_recursive_cte_check_expr_for_recursive_cte.induct)
  case (1 w body os lim fetch rest)
  then show ?case
    by (auto simp: and_then_unit each_ok_iff recursive_query_simps split: option.splits if_splits)
next
  case (2 b)
  then show ?case
    by (cases b) (auto simp: check_set_expr_for_recursive_cte.simps and_then_unit recursive_body_simps)
next
  case (3 proj from_items wh gb hv rest)
  then show ?case
    by (cases wh) (auto simp: and_then_unit each_ok_iff recursive_select_simps)
next
  case (4 rel joins)
  then show ?case by (auto simp: and_then_unit each_ok_iff recursive_tables_simps)
next
  case (8 e)
  then show ?case
    by (cases e) (auto simp: check_expr_for_recursive_cte.simps and_then_unit recursive_condition_simps)
qed (auto simp: recursive_factor_simps)

text \<open>The names under which a query can mention a table.\<close>

definition qualifiers_of :: "string \<Rightarrow> qualified_table_ref list \<Rightarrow> string set" where
  "qualifiers_of n refs =
     {n} \<union> \<Union> (set (map (\<lambda>t. set_option (ref_alias t)) (filter (\<lambda>t. ref_table t = n) refs)))"

lemma qualifiers_of_snoc:
  "qualifiers_of n (refs @ [t]) =
     (if ref_table t = n then qualifiers_of n refs \<union> set_option (ref_alias t) else qualifiers_of n refs)"
  by (auto simp: qualifiers_of_def)

lemma qualifiers_of_none: "n \<notin> ref_table ` set refs \<Longrightarrow> qualifiers_of n refs = {n}"
  by (auto simp: qualifiers_of_def filter_empty_conv)

lemma qualifiers_of_self: "n \<in> qualifiers_of n refs"
  by (simp add: qualifiers_of_def)

lemma map_of_dataset_qualifiers:
  "map_of (dataset_qualifiers c refs) n =
     (if controlled_datasets c n \<noteq> None \<and> n \<in> ref_table ` set refs then Some (qualifiers_of n refs) else None)"
proof (induction refs rule: rev_induct)
  case (snoc t refs)
  have step: "dataset_qualifiers c (refs @ [t]) = add_qualifiers c t (dataset_qualifiers c refs)"
    by (simp add: dataset_qualifiers_def)
  show ?case
  proof (cases "controlled_datasets c (ref_table t) = None \<or> n \<noteq> ref_table t")
    case True
    with snoc show ?thesis
      by (auto simp: step add_qualifiers_def update_conv' Let_def qualifiers_of_snoc)
  next
    case False
    with snoc show ?thesis
      by (cases "n \<in> ref_table ` set refs")
        (auto simp: step add_qualifiers_def update_conv' Let_def qualifiers_of_snoc qualifiers_of_none
          qualifiers_of_self)
  qed
qed (simp add: dataset_qualifiers_def)

lemma dataset_qualifiers_distinct: "distinct (map fst (dataset_qualifiers c refs))"
proof (induction refs rule: rev_induct)
  case (snoc t refs)
  then show ?case
    by (auto simp: dataset_qualifiers_def add_qualifiers_def Let_def intro: distinct_update)
qed (simp add: dataset_qualifiers_def)

lemma set_dataset_qualifiers:
  "set (dataset_qualifiers c refs) =
     {(n, qualifiers_of n refs) | n. controlled_datasets c n \<noteq> None \<and> n \<in> ref_table ` set refs}"
proof -
  have "(n, s) \<in> set (dataset_qualifiers c refs) \<longleftrightarrow>
      controlled_datasets c n \<noteq> None \<and> n \<in> ref_table ` set refs \<and> s = qualifiers_of n refs" for n s
    by (simp add: map_of_eq_Some_iff [OF dataset_qualifiers_distinct, symmetric]
        map_of_dataset_qualifiers eq_commute)
  then show ?thesis by auto
qed

lemma check_query_time_ranges_iff:
  assumes "\<And>m. set (order m) = set m"
  shows "check_query_time_ranges order c q = Inr () \<longleftrightarrow>
    (\<forall>t\<in>set (collect_qualified_table_refs q). \<forall>ds. controlled_datasets c (ref_table t) = Some ds \<longrightarrow>
       has_time_predicate (collect_predicates q) (time_column_name ds)
         (qualifiers_of (ref_table t) (collect_qualified_table_refs q)))"
proof -
  let ?refs = "collect_qualified_table_refs q"
  let ?ok = "\<lambda>(i, vq). has_time_predicate (collect_predicates q)
    (time_column_name (the (controlled_datasets c i))) vq"
  have "check_query_time_ranges order c q = Inr () \<longleftrightarrow> (\<forall>x\<in>set (dataset_qualifiers c ?refs). ?ok x)"
    by (auto simp: check_query_time_ranges_def Let_def each_ok_iff assms split: if_splits)
  also have "\<dots> \<longleftrightarrow> (\<forall>t\<in>set ?refs. \<forall>ds. controlled_datasets c (ref_table t) = Some ds \<longrightarrow>
       has_time_predicate (collect_predicates q) (time_column_name ds) (qualifiers_of (ref_table t) ?refs))"
    by (auto simp: set_dataset_qualifiers)
  finally show ?thesis .
qed


definition dated_query :: query where
  "dated_query = Query None (SelectBody (Select [UnnamedExpr (plain_column ''k'')]
     [TableWithJoins (table_ref ''sales'') []]
     (Some (BinaryOp dt_column GtEq (date_text ''7''))) (GroupByExpressions [] []) None [])) None None None []"

definition sales_controller :: admission_controller where
  "sales_controller = controller_register (registered_dataset_new ''sales'' ''dt'') controller_new"

lemmas collect_at = collect_qualified_refs_from_set_expr.simps [of "SelectBody s" for s]
  collect_predicates_from_set_expr.simps [of "SelectBody s" for s]


definition undated_query :: "table_factor \<Rightarrow> query" where
  "undated_query f = Query None (SelectBody (Select [UnnamedExpr (plain_column ''k'')]
     [TableWithJoins (table_ref ''events'') []]
     (Some (InSubquery (plain_column ''k'') (Query None (SelectBody (Select [UnnamedExpr (plain_column ''k'')]
         [TableWithJoins f []] None (GroupByExpressions [] []) None [])) None None None []) False))
     (GroupByExpressions [] []) None [])) None None None []"

lemma sales_only_controller:
  assumes "set (values (registered_datasets sales_only)) = ran (registered_datasets sales_only)"
  shows "create_admission_controller values sales_only = sales_controller"
proof -
  let ?ds = "registered_dataset_new ''sales'' ''dt''"
  have "fold controller_register xs c = sales_controller"
    if "set xs \<subseteq> {?ds}" "c = sales_controller \<or> c = controller_new \<and> xs \<noteq> []" for xs c
    using that
  proof (induction xs arbitrary: c)
    case (Cons x xs)
    then have "x = ?ds" "controller_register x c = sales_controller"
      by (auto simp: sales_controller_def controller_register_def controller_new_def)
    with Cons show ?case by simp
  qed auto
  moreover from assms have "set (values (registered_datasets sales_only)) = {?ds}"
    by (simp add: sales_only_def register_dataset_def transformer_new_def registered_dataset_new_def ran_def)
  ultimately show ?thesis by (force simp: create_admission_controller_def)
qed

lemma undated_discovered:
  "discover d (registered_dataset_ids sales_only) (QueryStmt (undated_query (table_ref ''sales''))) =
     Inr [\<lparr>tr_dataset = ''sales'', tr_alias = None, tr_scope = ScopeId 1\<rparr>]"
  by (simp add: discover_def visit_statement_def undated_query_def sales_only_def registered_dataset_ids_def
      register_dataset_def transformer_new_def registered_dataset_new_def set_expr_at and_then_def
      table_ref_def visit_table_def extract_table_name_def discovery_new_def visit_expr_at
      plain_column_def in_scope_def enter_scope_def exit_scope_def current_scope_def Let_def)

lemma undated_transformed:
  "\<exists>r. transform_statement d cal sales_only sql (QueryStmt (undated_query (table_ref ''sales'')))
      [\<lparr>tr_dataset = ''sales'', tr_alias = None, tr_scope = ScopeId 1\<rparr>] =
    Inr (QueryStmt (undated_query (macro_call ''scan_sales'' wide_scan_start wide_scan_end)), r) \<and>
    transformed_sql r = to_sql d (QueryStmt (undated_query (macro_call ''scan_sales'' wide_scan_start wide_scan_end)))"
  by (simp add: transform_statement_def Let_def statement_ranges_def undated_query_def extract_intervals_def
      sales_only_def register_dataset_def transformer_new_def registered_dataset_new_def effective_name_def
      build_replacements_def set_expr_at rewrite_expr_at interval_universe_def range_of_interval_def
      table_ref_def extract_table_name_def create_macro_call_def format_date_args_def macro_call_def
      plain_column_def)

lemma undated_admitted:
  assumes "set (values (registered_datasets sales_only)) = ran (registered_datasets sales_only)"
    and "parse_sql parser sql = Inr (QueryStmt (undated_query (table_ref ''sales'')))"
  shows "admit parser order values sales_only sql = Inr ()"
proof -
  have "\<not> recursive_query (undated_query (table_ref ''sales''))"
    by (simp add: undated_query_def recursive_query_simps recursive_body_simps recursive_select_simps
        recursive_tables_simps recursive_factor_simps recursive_condition_simps table_ref_def)
  moreover have "collect_qualified_table_refs (undated_query (table_ref ''sales'')) =
      [\<lparr>ref_table = ''events'', ref_alias = None\<rparr>]"
    by (simp add: undated_query_def collect_at table_ref_def extract_table_name_opt_def)
  ultimately show ?thesis
    by (simp add: admit_def admission_check_def assms(2) sales_only_controller [of "values", OF assms(1)]
        recursive_cte_checks check_query_time_ranges_def dataset_qualifiers_def add_qualifiers_def
        sales_controller_def controller_register_def controller_new_def registered_dataset_new_def)
qed



end
