(* ===== verification/Proto_Convert.thy ===== *)
theory Proto_Convert
  imports Pipeline
begin

text \<open>
  \<^verbatim>\<open>ldp/proto_convert.rs\<close> and the messages of \<^verbatim>\<open>worker-proto/src/proto/ldp.rs\<close>: plans
  and stage requests on the wire. The binary encoding is the one of the prost crate and the
  record batches are written by the arrow crate; both are arguments, with the law that
  decoding returns what was encoded.
\<close>

section \<open>Messages\<close>

text \<open>A \<open>oneof\<close> field is an option of a datatype; its variants carry the fields of their message.\<close>

record proto_column_ref =
  pcr_table :: "string option"
  pcr_column :: string

datatype proto_distribution_type =
    ProtoSingleton string
  | ProtoHashPartitioned "proto_column_ref list" "string list"
  | ProtoEpochPartitioned "string list"
  | ProtoReplicated "string list"

record proto_distribution =
  distribution_type :: "proto_distribution_type option"

datatype proto_exchange_type =
    ProtoGather string
  | ProtoBroadcast "string list"
  | ProtoHashPartition "proto_column_ref list" u32

record proto_exchange =
  exchange_type :: "proto_exchange_type option"

datatype proto_input_type = ProtoLocalCatalog | ProtoExchangeInput u32 string

record proto_stage_input =
  input_type :: "proto_input_type option"

datatype proto_output_type = ProtoStream | ProtoPartitioned u32 "proto_column_ref list"

record proto_stage_output =
  output_type :: "proto_output_type option"

record proto_stage_limits =
  pl_max_bytes_output :: u64
  pl_max_rows_output :: u64
  pl_timeout_ms :: u64
  pl_memory_bytes :: u64

record proto_stage =
  ps_stage_id :: u32
  ps_target_worker_ids :: "string list"
  ps_inputs :: "proto_stage_input list"
  ps_output :: "proto_stage_output option"
  ps_stage_sql :: string
  ps_limits :: "proto_stage_limits option"

record proto_exchange_edge =
  pe_exchange_id :: u32
  pe_kind :: "proto_exchange option"
  pe_from_stage_id :: u32
  pe_to_stage_id :: u32
  pe_partition_to_worker :: "string list"

record proto_ldp_plan =
  pp_query_id :: string
  pp_coordinator_worker_id :: string
  pp_stages :: "proto_stage list"
  pp_edges :: "proto_exchange_edge list"

type_synonym bytes = "8 word list"

record exchange_input_registration =
  reg_table_name :: string
  arrow_ipc_stream :: bytes

record submit_stage_request =
  req_tenant_id :: string
  req_query_id :: string
  req_stage_id :: u32
  req_stage_sql :: string
  req_limits :: "proto_stage_limits option"
  req_exchange_inputs :: "exchange_input_registration list"

record stage_execution_stats =
  rows_produced :: u64
  bytes_produced :: u64
  execution_time_ms :: u64

record submit_stage_response =
  resp_success :: bool
  resp_error_message :: string
  resp_result_ticket :: bytes
  resp_stats :: "stage_execution_stats option"

section \<open>Conversions\<close>

datatype conversion_error =
    MissingField string
  | InvalidVariant string
  | EncodeError string
  | DecodeError string
  | Custom string

definition column_refs_to_proto :: "column_ref list \<Rightarrow> proto_column_ref list" where
  "column_refs_to_proto refs =
     map (\<lambda>cr. \<lparr>pcr_table = cr_table cr, pcr_column = cr_column cr\<rparr>) refs"

definition proto_to_column_refs :: "proto_column_ref list \<Rightarrow> column_ref list" where
  "proto_to_column_refs refs =
     map (\<lambda>cr. \<lparr>cr_table = pcr_table cr, cr_column = pcr_column cr\<rparr>) refs"

fun distribution_to_proto :: "distribution \<Rightarrow> proto_distribution" where
  "distribution_to_proto (Singleton w) = \<lparr>distribution_type = Some (ProtoSingleton (worker_name w))\<rparr>"
| "distribution_to_proto (HashPartitioned refs ws) =
     \<lparr>distribution_type = Some (ProtoHashPartitioned (column_refs_to_proto refs) (map worker_name ws))\<rparr>"
| "distribution_to_proto (EpochPartitioned ws) =
     \<lparr>distribution_type = Some (ProtoEpochPartitioned (map worker_name ws))\<rparr>"
| "distribution_to_proto (Replicated ws) =
     \<lparr>distribution_type = Some (ProtoReplicated (map worker_name ws))\<rparr>"

definition distribution_of_proto :: "proto_distribution \<Rightarrow> conversion_error + distribution" where
  "distribution_of_proto p =
     (case distribution_type p of
        Some (ProtoSingleton w) \<Rightarrow> Inr (Singleton (WorkerId w))
      | Some (ProtoHashPartitioned refs ws) \<Rightarrow>
          Inr (HashPartitioned (proto_to_column_refs refs) (map WorkerId ws))
      | Some (ProtoEpochPartitioned ws) \<Rightarrow> Inr (EpochPartitioned (map WorkerId ws))
      | Some (ProtoReplicated ws) \<Rightarrow> Inr (Replicated (map WorkerId ws))
      | None \<Rightarrow> Inl (MissingField ''distribution_type''))"

fun exchange_to_proto :: "exchange \<Rightarrow> proto_exchange" where
  "exchange_to_proto (Gather w) = \<lparr>exchange_type = Some (ProtoGather (worker_name w))\<rparr>"
| "exchange_to_proto (Broadcast ws) = \<lparr>exchange_type = Some (ProtoBroadcast (map worker_name ws))\<rparr>"
| "exchange_to_proto (HashPartition refs n) =
     \<lparr>exchange_type = Some (ProtoHashPartition (column_refs_to_proto refs) n)\<rparr>"

definition exchange_of_proto :: "proto_exchange \<Rightarrow> conversion_error + exchange" where
  "exchange_of_proto p =
     (case exchange_type p of
        Some (ProtoGather w) \<Rightarrow> Inr (Gather (WorkerId w))
      | Some (ProtoBroadcast ws) \<Rightarrow> Inr (Broadcast (map WorkerId ws))
      | Some (ProtoHashPartition refs n) \<Rightarrow> Inr (HashPartition (proto_to_column_refs refs) n)
      | None \<Rightarrow> Inl (MissingField ''exchange_type''))"

fun stage_input_to_proto :: "stage_input \<Rightarrow> proto_stage_input" where
  "stage_input_to_proto LocalCatalog = \<lparr>input_type = Some ProtoLocalCatalog\<rparr>"
| "stage_input_to_proto (ExchangeInput x t) = \<lparr>input_type = Some (ProtoExchangeInput (exchange_num x) t)\<rparr>"

definition stage_input_of_proto :: "proto_stage_input \<Rightarrow> conversion_error + stage_input" where
  "stage_input_of_proto p =
     (case input_type p of
        Some ProtoLocalCatalog \<Rightarrow> Inr LocalCatalog
      | Some (ProtoExchangeInput x t) \<Rightarrow> Inr (ExchangeInput (ExchangeId x) t)
      | None \<Rightarrow> Inl (MissingField ''input_type''))"

fun stage_output_to_proto :: "stage_output \<Rightarrow> proto_stage_output" where
  "stage_output_to_proto StreamOutput = \<lparr>output_type = Some ProtoStream\<rparr>"
| "stage_output_to_proto (Partitioned n refs) =
     \<lparr>output_type = Some (ProtoPartitioned n (column_refs_to_proto refs))\<rparr>"

definition stage_output_of_proto :: "proto_stage_output \<Rightarrow> conversion_error + stage_output" where
  "stage_output_of_proto p =
     (case output_type p of
        Some ProtoStream \<Rightarrow> Inr StreamOutput
      | Some (ProtoPartitioned n refs) \<Rightarrow> Inr (Partitioned n (proto_to_column_refs refs))
      | None \<Rightarrow> Inl (MissingField ''output_type''))"

definition stage_limits_to_proto :: "stage_limits \<Rightarrow> proto_stage_limits" where
  "stage_limits_to_proto l =
     \<lparr>pl_max_bytes_output = max_bytes_output l, pl_max_rows_output = max_rows_output l,
      pl_timeout_ms = timeout_ms l, pl_memory_bytes = memory_bytes l\<rparr>"

definition stage_limits_of_proto :: "proto_stage_limits \<Rightarrow> stage_limits" where
  "stage_limits_of_proto p =
     \<lparr>max_bytes_output = pl_max_bytes_output p, max_rows_output = pl_max_rows_output p,
      timeout_ms = pl_timeout_ms p, memory_bytes = pl_memory_bytes p\<rparr>"

definition stage_to_proto :: "stage \<Rightarrow> proto_stage" where
  "stage_to_proto s =
     \<lparr>ps_stage_id = stage_num (stage_id s), ps_target_worker_ids = map worker_name (target_workers s),
      ps_inputs = map stage_input_to_proto (inputs s), ps_output = Some (stage_output_to_proto (stage_out s)),
      ps_stage_sql = stage_sql s, ps_limits = Some (stage_limits_to_proto (limits s))\<rparr>"

text \<open>The inputs are converted first and their error is raised last, after the one of the output.\<close>

definition stage_of_proto :: "proto_stage \<Rightarrow> conversion_error + stage" where
  "stage_of_proto p =
     (let converted_inputs = map_ok stage_input_of_proto (ps_inputs p)
      in bind_ok (case ps_output p of Some out \<Rightarrow> stage_output_of_proto out | None \<Rightarrow> Inr StreamOutput) (\<lambda>out.
         bind_ok converted_inputs (\<lambda>ins.
           Inr \<lparr>stage_id = StageId (ps_stage_id p), target_workers = map WorkerId (ps_target_worker_ids p),
             inputs = ins, stage_out = out, stage_sql = ps_stage_sql p,
             limits = (case ps_limits p of Some l \<Rightarrow> stage_limits_of_proto l | None \<Rightarrow> stage_limits_default)\<rparr>)))"

definition exchange_edge_to_proto :: "exchange_edge \<Rightarrow> proto_exchange_edge" where
  "exchange_edge_to_proto e =
     \<lparr>pe_exchange_id = exchange_num (edge_id e), pe_kind = Some (exchange_to_proto (kind e)),
      pe_from_stage_id = stage_num (from_stage e), pe_to_stage_id = stage_num (to_stage e),
      pe_partition_to_worker = map worker_name (partition_to_worker e)\<rparr>"

definition exchange_edge_of_proto :: "proto_exchange_edge \<Rightarrow> conversion_error + exchange_edge" where
  "exchange_edge_of_proto p =
     (case pe_kind p of
        None \<Rightarrow> Inl (MissingField ''kind'')
      | Some k \<Rightarrow> bind_ok (exchange_of_proto k) (\<lambda>k.
          Inr \<lparr>edge_id = ExchangeId (pe_exchange_id p), kind = k, from_stage = StageId (pe_from_stage_id p),
            to_stage = StageId (pe_to_stage_id p),
            partition_to_worker = map WorkerId (pe_partition_to_worker p)\<rparr>))"

fun query_name :: "query_id \<Rightarrow> string" where
  "query_name (QueryId s) = s"

definition ldp_plan_to_proto :: "ldp_plan \<Rightarrow> proto_ldp_plan" where
  "ldp_plan_to_proto plan =
     \<lparr>pp_query_id = query_name (query_id plan), pp_coordinator_worker_id = worker_name (coordinator plan),
      pp_stages = map stage_to_proto (stages plan), pp_edges = map exchange_edge_to_proto (edges plan)\<rparr>"

definition ldp_plan_of_proto :: "proto_ldp_plan \<Rightarrow> conversion_error + ldp_plan" where
  "ldp_plan_of_proto p =
     (let converted_edges = map_ok exchange_edge_of_proto (pp_edges p)
      in bind_ok (map_ok stage_of_proto (pp_stages p)) (\<lambda>ss.
         bind_ok converted_edges (\<lambda>es.
           Inr \<lparr>query_id = QueryId (pp_query_id p), coordinator = WorkerId (pp_coordinator_worker_id p),
             stages = ss, edges = es,
             root_stage = (if ss = [] then StageId 0 else stage_id (last ss))\<rparr>)))"

section \<open>Serialization\<close>

text \<open>
  An encoder and a decoder of the prost crate for messages of type \<open>'m\<close>; the wire format is
  a type variable.
\<close>

record ('m, 'wire) prost =
  prost_encode :: "'m \<Rightarrow> string + 'wire"
  prost_decode :: "'wire \<Rightarrow> string + 'm"

definition prost_law :: "('m, 'wire) prost \<Rightarrow> bool" where
  "prost_law c \<longleftrightarrow> (\<forall>m. \<exists>b. prost_encode c m = Inr b \<and> prost_decode c b = Inr m)"

definition prost_encoded :: "('m, 'wire) prost \<Rightarrow> 'm \<Rightarrow> conversion_error + 'wire" where
  "prost_encoded c m = (case prost_encode c m of Inl e \<Rightarrow> Inl (EncodeError e) | Inr b \<Rightarrow> Inr b)"

definition prost_decoded :: "('m, 'wire) prost \<Rightarrow> 'wire \<Rightarrow> conversion_error + 'm" where
  "prost_decoded c b = (case prost_decode c b of Inl e \<Rightarrow> Inl (DecodeError e) | Inr m \<Rightarrow> Inr m)"

definition serialize_ldp_plan :: "(proto_ldp_plan, 'wire) prost \<Rightarrow> ldp_plan \<Rightarrow> conversion_error + 'wire" where
  "serialize_ldp_plan c plan = prost_encoded c (ldp_plan_to_proto plan)"

definition deserialize_ldp_plan :: "(proto_ldp_plan, 'wire) prost \<Rightarrow> 'wire \<Rightarrow> conversion_error + ldp_plan" where
  "deserialize_ldp_plan c b = bind_ok (prost_decoded c b) ldp_plan_of_proto"

text \<open>The stream writer and reader of the arrow crate.\<close>

record ('batch, 'schema, 'writer) arrow_ipc =
  batch_schema :: "'batch \<Rightarrow> 'schema"
  ipc_try_new :: "'schema \<Rightarrow> string + 'writer"
  ipc_write :: "'writer \<Rightarrow> 'batch \<Rightarrow> string + 'writer"
  ipc_finish :: "'writer \<Rightarrow> string + bytes"
  ipc_read :: "bytes \<Rightarrow> string + (string + 'batch) list"

definition custom_error :: "string \<Rightarrow> string + 'a \<Rightarrow> conversion_error + 'a" where
  "custom_error msg r = (case r of Inl e \<Rightarrow> Inl (Custom (msg @ e)) | Inr x \<Rightarrow> Inr x)"

fun write_batches ::
  "('batch, 'schema, 'writer) arrow_ipc \<Rightarrow> 'batch list \<Rightarrow> 'writer \<Rightarrow> conversion_error + 'writer" where
  "write_batches ipc [] w = Inr w"
| "write_batches ipc (b # bs) w =
     bind_ok (custom_error ''Failed to write batch: '' (ipc_write ipc w b)) (write_batches ipc bs)"

definition serialize_input ::
  "('batch, 'schema, 'writer) arrow_ipc \<Rightarrow> string \<times> 'batch list \<Rightarrow>
   conversion_error + exchange_input_registration" where
  "serialize_input ipc = (\<lambda>(table_name, batches).
     (case batches of
        [] \<Rightarrow> Inr \<lparr>reg_table_name = table_name, arrow_ipc_stream = []\<rparr>
      | b # bs \<Rightarrow>
          bind_ok (custom_error ''Failed to create Arrow IPC writer: '' (ipc_try_new ipc (batch_schema ipc b)))
            (\<lambda>w. bind_ok (write_batches ipc batches w) (\<lambda>w.
              bind_ok (custom_error ''Failed to finish Arrow IPC stream: '' (ipc_finish ipc w)) (\<lambda>stream.
                Inr \<lparr>reg_table_name = table_name, arrow_ipc_stream = stream\<rparr>)))))"

text \<open>The map of exchange inputs is given as the list of its entries in iteration order.\<close>

definition serialize_submit_stage_request ::
  "(submit_stage_request, 'wire) prost \<Rightarrow> ('batch, 'schema, 'writer) arrow_ipc \<Rightarrow> string \<Rightarrow> string \<Rightarrow>
   stage_id \<Rightarrow> string \<Rightarrow> stage_limits \<Rightarrow> (string \<times> 'batch list) list \<Rightarrow> conversion_error + 'wire" where
  "serialize_submit_stage_request c ipc tenant qid sid sql lim exchange_inputs =
     bind_ok (map_ok (serialize_input ipc) exchange_inputs) (\<lambda>serialized_inputs.
       prost_encoded c \<lparr>req_tenant_id = tenant, req_query_id = qid,
         req_stage_id = stage_num sid, req_stage_sql = sql,
         req_limits = Some (stage_limits_to_proto lim), req_exchange_inputs = serialized_inputs\<rparr>)"

definition deserialize_submit_stage_request ::
  "(submit_stage_request, 'wire) prost \<Rightarrow> 'wire \<Rightarrow> conversion_error + submit_stage_request" where
  "deserialize_submit_stage_request c b = prost_decoded c b"

definition serialize_submit_stage_response ::
  "(submit_stage_response, 'wire) prost \<Rightarrow> bool \<Rightarrow> string \<Rightarrow> bytes \<Rightarrow> (u64 \<times> u64 \<times> u64) option \<Rightarrow>
   conversion_error + 'wire" where
  "serialize_submit_stage_response c success error_message result_ticket stats =
     prost_encoded c \<lparr>resp_success = success, resp_error_message = error_message,
       resp_result_ticket = result_ticket,
       resp_stats = map_option (\<lambda>(rows, bytes, time_ms).
         \<lparr>rows_produced = rows, bytes_produced = bytes, execution_time_ms = time_ms\<rparr>) stats\<rparr>"

definition deserialize_submit_stage_response ::
  "(submit_stage_response, 'wire) prost \<Rightarrow> 'wire \<Rightarrow> conversion_error + submit_stage_response" where
  "deserialize_submit_stage_response c b = prost_decoded c b"

definition read_batches ::
  "('batch, 'schema, 'writer) arrow_ipc \<Rightarrow> bytes \<Rightarrow> conversion_error + 'batch list" where
  "read_batches ipc stream =
     (case ipc_read ipc stream of
        Inl e \<Rightarrow> Inl (DecodeError (''Failed to create Arrow IPC reader: '' @ e))
      | Inr results \<Rightarrow> map_ok (\<lambda>r. case r of
            Inl e \<Rightarrow> Inl (DecodeError (''Failed to read batch: '' @ e))
          | Inr b \<Rightarrow> Inr b) results)"

fun deserialize_inputs_into ::
  "('batch, 'schema, 'writer) arrow_ipc \<Rightarrow> exchange_input_registration list \<Rightarrow>
   (string \<rightharpoonup> 'batch list) \<Rightarrow> conversion_error + (string \<rightharpoonup> 'batch list)" where
  "deserialize_inputs_into ipc [] m = Inr m"
| "deserialize_inputs_into ipc (r # rs) m =
     (if arrow_ipc_stream r = [] then deserialize_inputs_into ipc rs (m(reg_table_name r \<mapsto> []))
      else bind_ok (read_batches ipc (arrow_ipc_stream r)) (\<lambda>bs.
        deserialize_inputs_into ipc rs (m(reg_table_name r \<mapsto> bs))))"

definition deserialize_exchange_inputs ::
  "('batch, 'schema, 'writer) arrow_ipc \<Rightarrow> exchange_input_registration list \<Rightarrow>
   conversion_error + (string \<rightharpoonup> 'batch list)" where
  "deserialize_exchange_inputs ipc regs = deserialize_inputs_into ipc regs Map.empty"

section \<open>Converting back\<close>

lemma map_WorkerId_name [simp]: "map (\<lambda>x. WorkerId (worker_name x)) ws = ws"
  by (simp add: map_idI)

lemma column_refs_back [simp]: "proto_to_column_refs (column_refs_to_proto refs) = refs"
  by (simp add: proto_to_column_refs_def column_refs_to_proto_def comp_def map_idI)

lemma map_ok_back: "(\<And>x. f (g x) = Inr x) \<Longrightarrow> map_ok f (map g xs) = Inr xs"
  by (induction xs) simp_all

lemma distribution_back [simp]: "distribution_of_proto (distribution_to_proto x) = Inr x"
  by (cases x) (simp_all add: distribution_of_proto_def comp_def)

lemma exchange_back [simp]: "exchange_of_proto (exchange_to_proto x) = Inr x"
  by (cases x) (simp_all add: exchange_of_proto_def comp_def)

lemma stage_input_back [simp]: "stage_input_of_proto (stage_input_to_proto x) = Inr x"
  by (cases x) (simp_all add: stage_input_of_proto_def)

lemma stage_output_back [simp]: "stage_output_of_proto (stage_output_to_proto x) = Inr x"
  by (cases x) (simp_all add: stage_output_of_proto_def)

lemma stage_limits_back [simp]: "stage_limits_of_proto (stage_limits_to_proto l) = l"
  by (simp add: stage_limits_of_proto_def stage_limits_to_proto_def)

lemma stage_back [simp]: "stage_of_proto (stage_to_proto s) = Inr s"
  by (simp add: stage_of_proto_def stage_to_proto_def map_ok_back comp_def)

lemma exchange_edge_back [simp]: "exchange_edge_of_proto (exchange_edge_to_proto e) = Inr e"
  by (simp add: exchange_edge_of_proto_def exchange_edge_to_proto_def comp_def)

lemma query_name_back [simp]: "QueryId (query_name q) = q"
  by (cases q) simp

lemma ldp_plan_back:
  "ldp_plan_of_proto (ldp_plan_to_proto plan) =
     Inr (plan\<lparr>root_stage := (case final_stage plan of Some s \<Rightarrow> stage_id s | None \<Rightarrow> StageId 0)\<rparr>)"
  by (simp add: ldp_plan_of_proto_def ldp_plan_to_proto_def map_ok_back final_stage_def)

lemma plan_over_the_wire:
  assumes "prost_law c"
  shows "\<exists>b. serialize_ldp_plan c plan = Inr b \<and> deserialize_ldp_plan c b =
    Inr (plan\<lparr>root_stage := (case final_stage plan of Some s \<Rightarrow> stage_id s | None \<Rightarrow> StageId 0)\<rparr>)"
proof -
  from assms obtain b where "prost_encode c (ldp_plan_to_proto plan) = Inr b"
    "prost_decode c b = Inr (ldp_plan_to_proto plan)"
    unfolding prost_law_def by blast
  then show ?thesis
    by (simp add: serialize_ldp_plan_def deserialize_ldp_plan_def prost_encoded_def prost_decoded_def
        ldp_plan_back)
qed

text \<open>
  C11. A plan that the planner returns survives the wire: serialized and deserialized it is
  the same plan, root stage included. The message has no field for the root stage and the
  receiver takes the last stage; for the plans of the planner that is the root.
\<close>

theorem planned_plan_roundtrip:
  assumes "prost_law c"
    and "parse_sql parser sql = Inr stmt" "build_logical_plan d depth stmt = Inr r"
    and "size (br_plan r) < 2 ^ 30" "plan_ldp parser d depth sql md policy qid = Inr plan"
  shows "\<exists>b. serialize_ldp_plan c plan = Inr b \<and> deserialize_ldp_plan c b = Inr plan"
proof -
  obtain ap where "cut_into_stages d ap policy qid (br_context r) = Some plan"
    and "inner_exchanges ap < 2 ^ 32 - 1"
    by (rule planned_cut [OF assms(2-5)])
  then have "map_option stage_id (final_stage plan) = Some (root_stage plan)" by (rule cut_final_root)
  with plan_over_the_wire [OF assms(1), of plan] show ?thesis by (auto split: option.splits)
qed

theorem planned_plan_roundtrip_witness:
  "\<exists>plan b. plan_ldp (\<lambda>_. Inr [QueryStmt union_query]) undefined 0 [] two_worker_ops policy_default [] = Inr plan \<and>
     serialize_ldp_plan \<lparr>prost_encode = Inr, prost_decode = Inr\<rparr> plan = Inr b \<and>
     deserialize_ldp_plan \<lparr>prost_encode = Inr, prost_decode = Inr\<rparr> b = Inr plan"
proof -
  let ?c = "\<lparr>prost_encode = Inr, prost_decode = Inr\<rparr> :: (proto_ldp_plan, proto_ldp_plan) prost"
  obtain plan where plan: "plan_ldp (\<lambda>_. Inr [QueryStmt union_query]) undefined 0 [] two_worker_ops
      policy_default [] = Inr plan"
    using union_cut [of undefined "[]"]
    by (auto simp: plan_ldp_def parse_sql_def union_built annotate_and_cut_def union_annotated)
  have parsed: "parse_sql (\<lambda>_. Inr [QueryStmt union_query]) [] = Inr (QueryStmt union_query)"
    by (simp add: parse_sql_def)
  have small: "size (br_plan \<lparr>br_plan = union_plan, br_context = plan_context_default\<rparr>) < 2 ^ 30"
    by (simp add: union_plan_def)
  have "prost_law ?c" by (simp add: prost_law_def)
  from planned_plan_roundtrip [OF this parsed union_built small plan] plan show ?thesis by blast
qed

section \<open>Exchange inputs\<close>

text \<open>What the arrow crate promises for the batches of one table: the stream that is written is read back.\<close>

definition ipc_law :: "('batch, 'schema, 'writer) arrow_ipc \<Rightarrow> 'batch list \<Rightarrow> bool" where
  "ipc_law ipc batches \<longleftrightarrow>
     (\<exists>w w' s. ipc_try_new ipc (batch_schema ipc (hd batches)) = Inr w \<and>
        write_batches ipc batches w = Inr w' \<and> ipc_finish ipc w' = Inr s \<and> s \<noteq> [] \<and>
        ipc_read ipc s = Inr (map Inr batches))"

definition read_registration ::
  "('batch, 'schema, 'writer) arrow_ipc \<Rightarrow> exchange_input_registration \<Rightarrow> conversion_error + 'batch list" where
  "read_registration ipc r =
     (if arrow_ipc_stream r = [] then Inr [] else read_batches ipc (arrow_ipc_stream r))"

lemma serialize_input_back:
  assumes "batches = [] \<or> ipc_law ipc batches"
  shows "\<exists>r. serialize_input ipc (t, batches) = Inr r \<and> reg_table_name r = t \<and>
    read_registration ipc r = Inr batches"
proof (cases batches)
  case (Cons b bs)
  with assms obtain w w' s where w: "ipc_try_new ipc (batch_schema ipc b) = Inr w"
    "write_batches ipc batches w = Inr w'" "ipc_finish ipc w' = Inr s" "s \<noteq> []"
    "ipc_read ipc s = Inr (map Inr batches)"
    by (auto simp: ipc_law_def)
  then have "serialize_input ipc (t, batches) = Inr \<lparr>reg_table_name = t, arrow_ipc_stream = s\<rparr>"
    unfolding Cons by (simp add: serialize_input_def custom_error_def del: write_batches.simps)
  moreover have "read_batches ipc s = Inr batches"
    using w(5) by (simp add: read_batches_def map_ok_back)
  ultimately show ?thesis using w(4) by (simp add: read_registration_def)
qed (simp add: serialize_input_def read_registration_def)

definition put_entry :: "'k \<times> 'v \<Rightarrow> ('k \<rightharpoonup> 'v) \<Rightarrow> 'k \<rightharpoonup> 'v" where
  "put_entry e m = m(fst e \<mapsto> snd e)"

lemma serialize_inputs_back:
  assumes "\<And>t bs. (t, bs) \<in> set entries \<Longrightarrow> bs = [] \<or> ipc_law ipc bs"
  obtains regs where "map_ok (serialize_input ipc) entries = Inr regs"
    and "\<And>m. deserialize_inputs_into ipc regs m = Inr (fold put_entry entries m)"
  using assms
proof (induction entries arbitrary: thesis)
  case (Cons e es)
  obtain t bs where e: "e = (t, bs)" by (cases e)
  obtain r where r: "serialize_input ipc (t, bs) = Inr r" "reg_table_name r = t"
    "read_registration ipc r = Inr bs"
    using serialize_input_back [of bs ipc t] Cons.prems(2) [of t bs] e by auto
  obtain regs where regs: "map_ok (serialize_input ipc) es = Inr regs"
    "\<And>m. deserialize_inputs_into ipc regs m = Inr (fold put_entry es m)"
    using Cons.IH Cons.prems(2) by (metis list.set_intros(2))
  have "deserialize_inputs_into ipc (r # regs) m = Inr (fold put_entry (e # es) m)" for m
    using r(2,3) e by (auto simp: regs(2) read_registration_def put_entry_def split: if_splits)
  with regs(1) r(1) e show ?case by (intro Cons.prems(1) [of "r # regs"]) simp_all
qed simp

lemma fold_upd_map_of:
  "distinct (map fst entries) \<Longrightarrow> fold put_entry entries m = m ++ map_of entries"
proof (induction entries arbitrary: m)
  case (Cons e es)
  then have "map_of es (fst e) = None" by (simp add: map_of_eq_None_iff)
  then have "put_entry e m ++ map_of es = (m ++ map_of es)(fst e \<mapsto> snd e)"
    by (auto simp: map_add_def put_entry_def fun_eq_iff split: option.splits)
  also have "\<dots> = m ++ map_of (e # es)" by (cases e) simp
  finally have "put_entry e m ++ map_of es = m ++ map_of (e # es)" .
  moreover have "fold put_entry es (put_entry e m) = put_entry e m ++ map_of es" using Cons by simp
  ultimately show ?case by (simp only: fold_simps)
qed simp


definition byte_ipc :: "(8 word, unit, bytes) arrow_ipc" where
  "byte_ipc = \<lparr>batch_schema = (\<lambda>_. ()), ipc_try_new = (\<lambda>_. Inr []), ipc_write = (\<lambda>w b. Inr (w @ [b])),
     ipc_finish = Inr, ipc_read = (\<lambda>s. Inr (map Inr s))\<rparr>"


end
