(* ===== verification/Arrow_Batch.thy ===== *)
theory Arrow_Batch
  imports Logical_Plan Rust_Text Proto_Convert
begin

text \<open>
  Record batches of the arrow crate as the executor sees them: a schema with named, typed
  fields, and rows of cells. The operations of the crate that build batches are arguments,
  bundled in \<open>arrow\<close>, and \<open>arrow_law\<close> says what is documented of them. \<open>DefaultHasher\<close> is
  also an argument: its algorithm is left open by the standard library, and what matters is
  that the value depends only on what was written to it.
\<close>

section \<open>Types and cells\<close>

datatype arrow_type =
    Int8 | Int16 | Int32 | Int64 | UInt8 | UInt16 | UInt32 | UInt64 | Float32 | Float64
  | Utf8 | LargeUtf8 | Date32 | Date64
  | TimestampSecond | TimestampMillisecond | TimestampMicrosecond | TimestampNanosecond
  | Decimal128 | Decimal256 | Boolean | Binary | LargeBinary | FixedSizeBinary
  | Dictionary arrow_type | OtherArrowType string

text \<open>
  A float cell is its bit pattern, with the answer of \<open>is_nan\<close>. Integers, dates, timestamps
  and decimals are stored as integers.
\<close>

datatype cell =
    NullCell
  | IntCell int
  | FloatCell bool nat
  | StrCell string
  | BoolCell bool
  | BytesCell bytes

record arrow_field =
  field_name :: string
  field_type :: arrow_type

record record_batch =
  rb_schema :: "arrow_field list"
  rb_rows :: "cell list list"

definition num_rows :: "record_batch \<Rightarrow> nat" where
  "num_rows b = length (rb_rows b)"

definition num_columns :: "record_batch \<Rightarrow> nat" where
  "num_columns b = length (rb_schema b)"

text \<open>The invariant of the crate: columns have the same length.\<close>

definition batch_ok :: "record_batch \<Rightarrow> bool" where
  "batch_ok b \<longleftrightarrow> (\<forall>r\<in>set (rb_rows b). length r = num_columns b)"

section \<open>Operations of the crate\<close>

record arrow =
  filter_record_batch :: "record_batch \<Rightarrow> bool list \<Rightarrow> string + record_batch"
  concat_batches :: "arrow_field list \<Rightarrow> record_batch list \<Rightarrow> string + record_batch"
  new_empty :: "arrow_field list \<Rightarrow> record_batch"
  fmt_arrow_type :: "arrow_type \<Rightarrow> string"
  fmt_float :: "arrow_type \<Rightarrow> nat \<Rightarrow> string"
  fmt_decimal256 :: "int \<Rightarrow> string"

definition select_rows :: "'a list \<Rightarrow> bool list \<Rightarrow> 'a list" where
  "select_rows rows keep = map fst (filter snd (zip rows keep))"

definition arrow_law :: "arrow \<Rightarrow> bool" where
  "arrow_law a \<longleftrightarrow>
     (\<forall>s. new_empty a s = \<lparr>rb_schema = s, rb_rows = []\<rparr>) \<and>
     (\<forall>b keep. length keep = num_rows b \<longrightarrow>
        filter_record_batch a b keep =
          Inr \<lparr>rb_schema = rb_schema b, rb_rows = select_rows (rb_rows b) keep\<rparr>) \<and>
     (\<forall>s bs. (\<forall>b\<in>set bs. rb_schema b = s) \<longrightarrow>
        concat_batches a s bs = Inr \<lparr>rb_schema = s, rb_rows = concat (map rb_rows bs)\<rparr>)"

text \<open>Operations that satisfy the law.\<close>

definition plain_arrow :: arrow where
  "plain_arrow =
     \<lparr>filter_record_batch = (\<lambda>b keep. Inr \<lparr>rb_schema = rb_schema b, rb_rows = select_rows (rb_rows b) keep\<rparr>),
      concat_batches = (\<lambda>s bs. Inr \<lparr>rb_schema = s, rb_rows = concat (map rb_rows bs)\<rparr>),
      new_empty = (\<lambda>s. \<lparr>rb_schema = s, rb_rows = []\<rparr>),
      fmt_arrow_type = (\<lambda>_. []), fmt_float = (\<lambda>_ _. []), fmt_decimal256 = (\<lambda>_. [])\<rparr>"

lemma plain_arrow_law: "arrow_law plain_arrow"
  by (simp add: arrow_law_def plain_arrow_def)

lemma select_rows_map: "select_rows xs (map f xs) = filter f xs"
  by (induction xs) (auto simp: select_rows_def)

lemma select_rows_Nil [simp]: "select_rows [] keep = []"
  by (simp add: select_rows_def)

lemma select_rows_Cons [simp]:
  "select_rows (x # xs) (m # ms) = (if m then x # select_rows xs ms else select_rows xs ms)"
  by (simp add: select_rows_def)

section \<open>Hashing\<close>

text \<open>What \<open>Hash::hash\<close> writes for the values of the executor; integers are written at their width.\<close>

datatype hash_item =
    HashStr string
  | HashInt arrow_type int
  | HashBits arrow_type nat
  | HashBool bool
  | HashBytes bytes

type_synonym hasher = "hash_item list \<Rightarrow> u64"

section \<open>Printing\<close>

definition show_int :: "int \<Rightarrow> string" where
  "show_int i = (if i < 0 then ''-'' @ show_nat (nat (- i)) else show_nat (nat i))"

definition show_bool :: "bool \<Rightarrow> string" where
  "show_bool b = (if b then ''true'' else ''false'')"

text \<open>\<^verbatim>\<open>{:?}\<close> of a byte slice.\<close>

definition show_bytes :: "bytes \<Rightarrow> string" where
  "show_bytes bs = ''['' @ join_with '', '' (map (\<lambda>b. show_nat (unat b)) bs) @ '']''"

end
