(* ===== verification/Float64_Arith.thy ===== *)
theory Float64_Arith
  imports Float64
begin

text \<open>
  The rest of the \<open>f64\<close> arithmetic that the executor uses: sum, difference, quotient and the
  order, with the rounding of \<open>Float64\<close>.
\<close>

section \<open>Operations\<close>

text \<open>The signed significand of a finite value at a smaller exponent.\<close>

definition signed_at :: "bool \<Rightarrow> nat \<Rightarrow> int \<Rightarrow> int \<Rightarrow> int" where
  "signed_at s m e g = (if s then - 1 else 1) * int m * 2 ^ nat (e - g)"

fun f64_neg :: "f64 \<Rightarrow> f64" where
  "f64_neg NaN = NaN"
| "f64_neg (Inf s) = Inf (\<not> s)"
| "f64_neg (Fin s m e) = Fin (\<not> s) m e"

text \<open>An exact sum of zero is positive unless both operands are negative zeros.\<close>

fun f64_add :: "f64 \<Rightarrow> f64 \<Rightarrow> f64" where
  "f64_add NaN y = NaN"
| "f64_add x NaN = NaN"
| "f64_add (Inf s) (Inf t) = (if s = t then Inf s else NaN)"
| "f64_add (Inf s) (Fin t n f) = Inf s"
| "f64_add (Fin s m e) (Inf t) = Inf t"
| "f64_add (Fin s m e) (Fin t n f) =
     (let g = min e f; v = signed_at s m e g + signed_at t n f g
      in if v = 0 then Fin (m = 0 \<and> n = 0 \<and> s \<and> t) 0 0
         else f64_round (v < 0) (nat \<bar>v\<bar>) g)"

definition f64_sub :: "f64 \<Rightarrow> f64 \<Rightarrow> f64" where
  "f64_sub x y = f64_add x (f64_neg y)"

text \<open>
  The dividend is scaled so that the integer quotient has at least 64 bits; a set low bit marks
  a remainder, as in the square root.
\<close>

fun f64_div :: "f64 \<Rightarrow> f64 \<Rightarrow> f64" where
  "f64_div NaN y = NaN"
| "f64_div x NaN = NaN"
| "f64_div (Inf s) (Inf t) = NaN"
| "f64_div (Inf s) (Fin t n f) = Inf (s \<noteq> t)"
| "f64_div (Fin s m e) (Inf t) = Fin (s \<noteq> t) 0 0"
| "f64_div (Fin s m e) (Fin t n f) =
     (if n = 0 then (if m = 0 then NaN else Inf (s \<noteq> t))
      else if m = 0 then Fin (s \<noteq> t) 0 0
      else let k = bitlen n + 64; q = (m * 2 ^ k) div n
           in f64_round (s \<noteq> t) (2 * q + (if q * n = m * 2 ^ k then 0 else 1)) (e - f - int k - 1))"

fun f64_less :: "f64 \<Rightarrow> f64 \<Rightarrow> bool" where
  "f64_less NaN y = False"
| "f64_less x NaN = False"
| "f64_less (Inf s) (Inf t) \<longleftrightarrow> s \<and> \<not> t"
| "f64_less (Inf s) (Fin t n f) = s"
| "f64_less (Fin s m e) (Inf t) = (\<not> t)"
| "f64_less (Fin s m e) (Fin t n f) \<longleftrightarrow>
     signed_at s m e (min e f) < signed_at t n f (min e f)"

text \<open>\<open>x == 0.0\<close> and \<open>Iterator::sum\<close>, which adds from the left.\<close>

fun f64_is_zero :: "f64 \<Rightarrow> bool" where
  "f64_is_zero (Fin s m e) \<longleftrightarrow> m = 0"
| "f64_is_zero _ = False"

definition f64_zero :: f64 where "f64_zero = Fin False 0 0"

definition f64_sum :: "f64 list \<Rightarrow> f64" where
  "f64_sum xs = foldl f64_add f64_zero xs"

section \<open>Lemmas\<close>

lemma f64_less_irrefl [simp]: "\<not> f64_less x x"
  by (cases x) simp_all

lemma f64_less_asym: "f64_less x y \<Longrightarrow> \<not> f64_less y x"
  by (cases x; cases y) (auto simp: min.commute)

text \<open>Evaluation on concrete values.\<close>

lemma bitlen_one: "bitlen (Suc 0) = 1"
  by (simp add: bitlen.simps)

lemmas f64_eval = Let_def f64_round_def rne_def bitlen.simps [of "numeral k" for k] bitlen_one
  f64_of_nat_def f64_sub_def signed_at_def

lemma isqrt_eq: "r * r \<le> n \<Longrightarrow> n < Suc r * Suc r \<Longrightarrow> isqrt n = r"
  using isqrt_correct [of n] by (metis less_Suc_eq_le mult_le_mono nat_less_le not_le order.trans Suc_leI)

end
