(* ===== verification/Hash_Partition.thy ===== *)
theory Hash_Partition
  imports Arrow_Batch Sql_Walk Float64_Arith "HOL-Library.Multiset"
begin

text \<open>
  Hash partitioning of a batch: the free functions of \<^verbatim>\<open>ldp/executor/exchange.rs\<close> and the
  skew handler of \<^verbatim>\<open>ldp/executor/skew.rs\<close>, through which every hash exchange goes.
  The iteration orders of the hash map of key counts and of the hash set of top keys are
  arguments (\<open>iteration\<close>).
\<close>

section \<open>Errors\<close>

datatype exchange_error =
    ExchangeStageNotFound stage_id
  | ExchangeNotFound exchange_id
  | UpstreamNotReady stage_id
  | FetchFailed string
  | PartitionFailed string
  | NoBatches
  | ConcatFailed string
  | ColumnNotFound string

fun exchange_error_display :: "exchange_error \<Rightarrow> string" where
  "exchange_error_display (ExchangeStageNotFound s) = ''Stage '' @ stage_display s @ '' not found''"
| "exchange_error_display (ExchangeNotFound x) = ''Exchange '' @ exchange_display x @ '' not found''"
| "exchange_error_display (UpstreamNotReady s) = ''Upstream stage '' @ stage_display s @ '' not ready''"
| "exchange_error_display (FetchFailed m) = ''Fetch failed: '' @ m"
| "exchange_error_display (PartitionFailed m) = ''Partition failed: '' @ m"
| "exchange_error_display NoBatches = ''No batches to process''"
| "exchange_error_display (ConcatFailed m) = ''Concat failed: '' @ m"
| "exchange_error_display (ColumnNotFound m) = ''Column not found: '' @ m"

text \<open>A run ends with an error or with a panic (a column or a partition that does not exist).\<close>

datatype exchange_stop = ExchangeFailed exchange_error | ExchangePanic

definition partition_failed :: "string + 'a \<Rightarrow> exchange_stop + 'a" where
  "partition_failed r = (case r of Inl e \<Rightarrow> Inl (ExchangeFailed (PartitionFailed e)) | Inr x \<Rightarrow> Inr x)"

section \<open>Columns\<close>

fun position_from :: "nat \<Rightarrow> ('a \<Rightarrow> bool) \<Rightarrow> 'a list \<Rightarrow> nat option" where
  "position_from i f [] = None"
| "position_from i f (x # xs) = (if f x then Some i else position_from (Suc i) f xs)"

definition position :: "('a \<Rightarrow> bool) \<Rightarrow> 'a list \<Rightarrow> nat option" where
  "position f xs = position_from 0 f xs"

text \<open>\<open>str::to_lowercase\<close> is modelled on ASCII names.\<close>

definition find_column_index :: "column_ref \<Rightarrow> arrow_field list \<Rightarrow> exchange_stop + nat" where
  "find_column_index c schema =
     (let qualified_name = (case cr_table c of Some t \<Rightarrow> Some (t @ ''.'' @ cr_column c) | None \<Rightarrow> None);
          exact = (case qualified_name of
              Some q \<Rightarrow> position (\<lambda>f. field_name f = q) schema
            | None \<Rightarrow> None)
      in case exact of Some i \<Rightarrow> Inr i | None \<Rightarrow>
        (case position (\<lambda>f. field_name f = cr_column c) schema of Some i \<Rightarrow> Inr i | None \<Rightarrow>
          (case position (\<lambda>f. map ascii_lower (field_name f) = map ascii_lower (cr_column c)) schema of
             Some i \<Rightarrow> Inr i
           | None \<Rightarrow> Inl (ExchangeFailed (ColumnNotFound
               (''Column '' @ [CHR 0x27] @ (case qualified_name of Some q \<Rightarrow> q | None \<Rightarrow> cr_column c) @ [CHR 0x27] @
                '' not found in schema. Available columns: ['' @ join_with '', '' (map field_name schema) @ '']''))))))"

definition resolve_column_indices :: "column_ref list \<Rightarrow> arrow_field list \<Rightarrow> exchange_stop + nat list" where
  "resolve_column_indices refs schema = map_ok (\<lambda>c. find_column_index c schema) refs"

text \<open>The cell of a row in a column; \<open>RecordBatch::column\<close> panics on an index out of range.\<close>

definition cell_of :: "arrow_field list \<Rightarrow> cell list \<Rightarrow> nat \<Rightarrow> exchange_stop + arrow_type \<times> cell" where
  "cell_of schema row i =
     (if i < length schema then Inr (field_type (schema ! i), row ! i) else Inl ExchangePanic)"

section \<open>Hashing rows\<close>

definition hash_column_value :: "arrow \<Rightarrow> arrow_type \<Rightarrow> cell \<Rightarrow> exchange_stop + hash_item" where
  "hash_column_value a ty c =
     (if c = NullCell then Inr (HashStr ''NULL_VALUE'')
      else case ty of
        Float32 \<Rightarrow> (case c of FloatCell nan bits \<Rightarrow> Inr (if nan then HashStr ''NaN'' else HashBits ty bits) | _ \<Rightarrow> Inl ExchangePanic)
      | Float64 \<Rightarrow> (case c of FloatCell nan bits \<Rightarrow> Inr (if nan then HashStr ''NaN'' else HashBits ty bits) | _ \<Rightarrow> Inl ExchangePanic)
      | Utf8 \<Rightarrow> (case c of StrCell s \<Rightarrow> Inr (HashStr s) | _ \<Rightarrow> Inl ExchangePanic)
      | LargeUtf8 \<Rightarrow> (case c of StrCell s \<Rightarrow> Inr (HashStr s) | _ \<Rightarrow> Inl ExchangePanic)
      | Boolean \<Rightarrow> (case c of BoolCell x \<Rightarrow> Inr (HashBool x) | _ \<Rightarrow> Inl ExchangePanic)
      | Binary \<Rightarrow> (case c of BytesCell bs \<Rightarrow> Inr (HashBytes bs) | _ \<Rightarrow> Inl ExchangePanic)
      | LargeBinary \<Rightarrow> (case c of BytesCell bs \<Rightarrow> Inr (HashBytes bs) | _ \<Rightarrow> Inl ExchangePanic)
      | FixedSizeBinary \<Rightarrow> (case c of BytesCell bs \<Rightarrow> Inr (HashBytes bs) | _ \<Rightarrow> Inl ExchangePanic)
      | Dictionary v \<Rightarrow> Inl (ExchangeFailed (PartitionFailed
          (''Dictionary type not fully supported for hash partitioning: '' @ fmt_arrow_type a ty)))
      | OtherArrowType s \<Rightarrow> Inl (ExchangeFailed (PartitionFailed
          (''Unsupported data type for hash partitioning: '' @ fmt_arrow_type a ty)))
      | _ \<Rightarrow> (case c of IntCell i \<Rightarrow> Inr (HashInt ty i) | _ \<Rightarrow> Inl ExchangePanic))"

definition row_hash_items ::
  "arrow \<Rightarrow> arrow_field list \<Rightarrow> nat list \<Rightarrow> cell list \<Rightarrow> exchange_stop + hash_item list" where
  "row_hash_items a schema field_refs row =
     map_ok (\<lambda>i. bind_ok (cell_of schema row i) (\<lambda>(ty, c). hash_column_value a ty c)) field_refs"

text \<open>\<^verbatim>\<open>(hasher.finish() % num_partitions as u64) as u32\<close>; the remainder by zero panics.\<close>

definition hash_to_partition :: "hasher \<Rightarrow> u32 \<Rightarrow> hash_item list \<Rightarrow> exchange_stop + nat" where
  "hash_to_partition h n items = (if n = 0 then Inl ExchangePanic else Inr (unat (h items) mod unat n))"

definition hash_partition_batch_traditional ::
  "arrow \<Rightarrow> hasher \<Rightarrow> record_batch \<Rightarrow> nat list \<Rightarrow> u32 \<Rightarrow> exchange_stop + record_batch list" where
  "hash_partition_batch_traditional a h batch field_refs n =
     (if num_rows batch = 0 then Inr (replicate (unat n) batch)
      else if field_refs = [] then
        (if n = 0 then Inl ExchangePanic
         else Inr ((replicate (unat n) (new_empty a (rb_schema batch)))[0 := batch]))
      else bind_ok (map_ok (\<lambda>row. bind_ok (row_hash_items a (rb_schema batch) field_refs row)
             (hash_to_partition h n)) (rb_rows batch)) (\<lambda>partition_ids.
        map_ok (\<lambda>p. partition_failed (filter_record_batch a batch (map (\<lambda>i. i = p) partition_ids)))
          [0..<unat n]))"

section \<open>Skew detection\<close>

record skew_handling_config =
  skew_threshold :: f64
  top_key_percentage :: f64
  max_top_keys :: nat
  min_rows_for_skew_detection :: nat
  enable_round_robin_distribution :: bool
  small_partition_threshold :: nat

text \<open>The literals 1.5 and 0.05.\<close>

definition skew_config_default :: skew_handling_config where
  "skew_config_default =
     \<lparr>skew_threshold = Fin False 3 (- 1), top_key_percentage = Fin False 3602879701896397 (- 56),
      max_top_keys = 20, min_rows_for_skew_detection = 1000,
      enable_round_robin_distribution = True, small_partition_threshold = 10000\<rparr>"

definition with_skew_threshold :: "f64 \<Rightarrow> skew_handling_config \<Rightarrow> skew_handling_config" where
  "with_skew_threshold t cfg = cfg\<lparr>skew_threshold := t\<rparr>"

definition with_top_key_percentage :: "f64 \<Rightarrow> skew_handling_config \<Rightarrow> skew_handling_config" where
  "with_top_key_percentage p cfg =
     cfg\<lparr>top_key_percentage := (if f64_less p f64_zero then f64_zero
                                else if f64_less f64_one p then f64_one else p)\<rparr>"

record skew_detection_result =
  is_skewed :: bool
  skew_coefficient :: f64
  top_keys :: "(string \<times> nat) list"
  distinct_keys :: nat
  total_rows :: nat
  avg_rows_per_key :: f64

definition skew_result_new :: "bool \<Rightarrow> f64 \<Rightarrow> skew_detection_result" where
  "skew_result_new skewed coefficient =
     \<lparr>is_skewed = skewed, skew_coefficient = coefficient, top_keys = [], distinct_keys = 0,
      total_rows = 0, avg_rows_per_key = f64_zero\<rparr>"

record iteration =
  count_order :: "(string \<times> nat) list \<Rightarrow> (string \<times> nat) list"
  key_order :: "string list \<Rightarrow> string list"

text \<open>The text of a value; \<open>None\<close> when the downcast to the array type fails.\<close>

definition cell_text :: "arrow \<Rightarrow> arrow_type \<Rightarrow> cell \<Rightarrow> string option" where
  "cell_text a ty c =
     (case ty of
        Float32 \<Rightarrow> (case c of FloatCell nan bits \<Rightarrow> Some (fmt_float a ty bits) | _ \<Rightarrow> None)
      | Float64 \<Rightarrow> (case c of FloatCell nan bits \<Rightarrow> Some (fmt_float a ty bits) | _ \<Rightarrow> None)
      | Utf8 \<Rightarrow> (case c of StrCell s \<Rightarrow> Some s | _ \<Rightarrow> None)
      | LargeUtf8 \<Rightarrow> (case c of StrCell s \<Rightarrow> Some s | _ \<Rightarrow> None)
      | Decimal256 \<Rightarrow> (case c of IntCell i \<Rightarrow> Some (fmt_decimal256 a i) | _ \<Rightarrow> None)
      | Boolean \<Rightarrow> (case c of BoolCell x \<Rightarrow> Some (show_bool x) | _ \<Rightarrow> None)
      | Binary \<Rightarrow> (case c of BytesCell bs \<Rightarrow> Some (show_bytes bs) | _ \<Rightarrow> None)
      | LargeBinary \<Rightarrow> (case c of BytesCell bs \<Rightarrow> Some (show_bytes bs) | _ \<Rightarrow> None)
      | FixedSizeBinary \<Rightarrow> (case c of BytesCell bs \<Rightarrow> Some (show_bytes bs) | _ \<Rightarrow> None)
      | Dictionary v \<Rightarrow> Some ''other''
      | OtherArrowType s \<Rightarrow> Some ''other''
      | _ \<Rightarrow> (case c of IntCell i \<Rightarrow> Some (show_int i) | _ \<Rightarrow> None))"

definition distribution_key_part :: "arrow \<Rightarrow> arrow_type \<Rightarrow> cell \<Rightarrow> string" where
  "distribution_key_part a ty c =
     (if c = NullCell then ''NULL''
      else case cell_text a ty c of Some s \<Rightarrow> s | None \<Rightarrow> ''unsupported'')"

definition distribution_key ::
  "arrow \<Rightarrow> arrow_field list \<Rightarrow> nat list \<Rightarrow> cell list \<Rightarrow> exchange_stop + string" where
  "distribution_key a schema field_refs row =
     bind_ok (map_ok (\<lambda>i. bind_ok (cell_of schema row i) (\<lambda>(ty, c). Inr (distribution_key_part a ty c))) field_refs)
       (\<lambda>parts. Inr (join_with ''|'' parts))"

text \<open>\<^verbatim>\<open>*key_counts.entry(key).or_insert(0) += 1\<close>.\<close>

fun count_key :: "string \<Rightarrow> (string \<times> nat) list \<Rightarrow> (string \<times> nat) list" where
  "count_key k [] = [(k, 1)]"
| "count_key k ((k', n) # m) = (if k = k' then (k', Suc n) # m else (k', n) # count_key k m)"

definition analyze_key_distribution ::
  "arrow \<Rightarrow> record_batch \<Rightarrow> nat list \<Rightarrow> exchange_stop + (string \<times> nat) list" where
  "analyze_key_distribution a batch field_refs =
     fold_ok (\<lambda>row m. bind_ok (distribution_key a (rb_schema batch) field_refs row) (\<lambda>k. Inr (count_key k m)))
       (rb_rows batch) []"

definition calculate_skew_coefficient :: "nat list \<Rightarrow> f64 \<Rightarrow> f64" where
  "calculate_skew_coefficient counts mean =
     (if counts = [] \<or> f64_is_zero mean then f64_zero
      else let variance = f64_div
             (f64_sum (map (\<lambda>c. let diff = f64_sub (f64_of_nat c) mean in f64_mul diff diff) counts))
             (f64_of_nat (length counts))
        in f64_div (f64_sqrt variance) mean)"

definition detect_skew ::
  "skew_handling_config \<Rightarrow> arrow \<Rightarrow> iteration \<Rightarrow> record_batch \<Rightarrow> nat list \<Rightarrow>
   exchange_stop + skew_detection_result" where
  "detect_skew cfg a it batch field_refs =
     (if num_rows batch < min_rows_for_skew_detection cfg
      then Inr \<lparr>is_skewed = False, skew_coefficient = f64_zero, top_keys = [],
             distinct_keys = num_rows batch, total_rows = num_rows batch, avg_rows_per_key = f64_one\<rparr>
      else bind_ok (analyze_key_distribution a batch field_refs) (\<lambda>key_counts.
        let distinct = length key_counts
        in if distinct = 0
           then Inr \<lparr>is_skewed = False, skew_coefficient = f64_zero, top_keys = [],
                  distinct_keys = 0, total_rows = num_rows batch, avg_rows_per_key = f64_zero\<rparr>
           else let entries = count_order it key_counts;
                    avg = f64_div (f64_of_nat (num_rows batch)) (f64_of_nat distinct);
                    coefficient = calculate_skew_coefficient (map snd entries) avg;
                    sorted_keys = sort_key (\<lambda>(k, c). - int c) entries;
                    top_key_count = min (max_top_keys cfg)
                      (unat (u64_of_f64 (f64_mul (f64_of_nat distinct) (top_key_percentage cfg))))
             in Inr \<lparr>is_skewed = f64_less (skew_threshold cfg) coefficient,
                  skew_coefficient = coefficient, top_keys = take top_key_count sorted_keys,
                  distinct_keys = distinct, total_rows = num_rows batch, avg_rows_per_key = avg\<rparr>))"

section \<open>Skewed partitioning\<close>

fun array_name :: "arrow_type \<Rightarrow> string" where
  "array_name Int8 = ''Int8Array''" | "array_name Int16 = ''Int16Array''"
| "array_name Int32 = ''Int32Array''" | "array_name Int64 = ''Int64Array''"
| "array_name UInt8 = ''UInt8Array''" | "array_name UInt16 = ''UInt16Array''"
| "array_name UInt32 = ''UInt32Array''" | "array_name UInt64 = ''UInt64Array''"
| "array_name Float32 = ''Float32Array''" | "array_name Float64 = ''Float64Array''"
| "array_name Utf8 = ''StringArray''" | "array_name LargeUtf8 = ''LargeStringArray''"
| "array_name Date32 = ''Date32Array''" | "array_name Date64 = ''Date64Array''"
| "array_name Decimal128 = ''Decimal128Array''" | "array_name Decimal256 = ''Decimal256Array''"
| "array_name Boolean = ''BooleanArray''" | "array_name Binary = ''BinaryArray''"
| "array_name LargeBinary = ''LargeBinaryArray''" | "array_name FixedSizeBinary = ''FixedSizeBinaryArray''"
| "array_name _ = ''Timestamp array''"

definition get_row_value_as_string :: "arrow \<Rightarrow> arrow_type \<Rightarrow> cell \<Rightarrow> exchange_stop + string" where
  "get_row_value_as_string a ty c =
     (if c = NullCell then Inr ''NULL''
      else case cell_text a ty c of
        Some s \<Rightarrow> Inr s
      | None \<Rightarrow> Inl (ExchangeFailed (PartitionFailed (''Failed to cast to '' @ array_name ty))))"

definition composite_key ::
  "arrow \<Rightarrow> arrow_field list \<Rightarrow> nat list \<Rightarrow> cell list \<Rightarrow> exchange_stop + string" where
  "composite_key a schema field_refs row =
     bind_ok (map_ok (\<lambda>i. bind_ok (cell_of schema row i) (\<lambda>(ty, c).
         if c = NullCell then Inr ''NULL'' else get_row_value_as_string a ty c)) field_refs)
       (\<lambda>parts. Inr (join_with ''|'' parts))"

definition compute_hash_partition :: "hasher \<Rightarrow> string \<Rightarrow> u32 \<Rightarrow> exchange_stop + nat" where
  "compute_hash_partition h key n = hash_to_partition h n [HashStr key]"

definition create_single_row_mask :: "nat \<Rightarrow> nat \<Rightarrow> bool list" where
  "create_single_row_mask n row_idx = map (\<lambda>i. i = row_idx) [0..<n]"

definition concatenate_batches_with_schema ::
  "record_batch \<Rightarrow> record_batch \<Rightarrow> exchange_stop + record_batch" where
  "concatenate_batches_with_schema batch1 batch2 =
     (if rb_schema batch1 \<noteq> rb_schema batch2
      then Inl (ExchangeFailed (ConcatFailed ''Schemas do not match''))
      else if num_rows batch1 = 0 then Inr batch2
      else if num_rows batch2 = 0 then Inr batch1
      else Inr batch2)"

definition skewed_partition_id ::
  "skew_handling_config \<Rightarrow> hasher \<Rightarrow> iteration \<Rightarrow> string list \<Rightarrow> u32 \<Rightarrow> string \<Rightarrow> exchange_stop + nat" where
  "skewed_partition_id cfg h it keys n key =
     (if key \<in> set keys \<and> enable_round_robin_distribution cfg
      then (if n = 0 then Inl ExchangePanic
            else Inr ((case position (\<lambda>k. k = key) (key_order it keys) of Some i \<Rightarrow> i | None \<Rightarrow> 0) mod unat n))
      else compute_hash_partition h key n)"

definition place_row ::
  "skew_handling_config \<Rightarrow> arrow \<Rightarrow> hasher \<Rightarrow> iteration \<Rightarrow> string list \<Rightarrow> record_batch \<Rightarrow> nat list \<Rightarrow> u32 \<Rightarrow>
   nat \<Rightarrow> record_batch list \<Rightarrow> exchange_stop + record_batch list" where
  "place_row cfg a h it keys batch field_refs n row_idx parts =
     bind_ok (composite_key a (rb_schema batch) field_refs (rb_rows batch ! row_idx)) (\<lambda>key.
     bind_ok (skewed_partition_id cfg h it keys n key) (\<lambda>p.
     bind_ok (partition_failed (filter_record_batch a batch
         (create_single_row_mask (num_rows batch) row_idx))) (\<lambda>single.
       if num_rows (parts ! p) = 0 then Inr (parts[p := single])
       else bind_ok (concatenate_batches_with_schema (parts ! p) single) (\<lambda>both. Inr (parts[p := both])))))"

definition handle_skewed_partitioning ::
  "skew_handling_config \<Rightarrow> arrow \<Rightarrow> hasher \<Rightarrow> iteration \<Rightarrow> record_batch \<Rightarrow> nat list \<Rightarrow> u32 \<Rightarrow>
   skew_detection_result \<Rightarrow> exchange_stop + record_batch list" where
  "handle_skewed_partitioning cfg a h it batch field_refs n skew_result =
     fold_ok (place_row cfg a h it (map fst (top_keys skew_result)) batch field_refs n)
       [0..<num_rows batch] (replicate (unat n) (new_empty a (rb_schema batch)))"

text \<open>
  Without skew the handler calls \<open>hash_partition_batch_with_skew_handling\<close> with the flag off,
  which is the traditional partitioning.
\<close>

definition skew_aware_hash_partition ::
  "skew_handling_config \<Rightarrow> arrow \<Rightarrow> hasher \<Rightarrow> iteration \<Rightarrow> record_batch \<Rightarrow> nat list \<Rightarrow> u32 \<Rightarrow>
   exchange_stop + record_batch list" where
  "skew_aware_hash_partition cfg a h it batch field_refs n =
     bind_ok (detect_skew cfg a it batch field_refs) (\<lambda>skew_result.
       if \<not> is_skewed skew_result then hash_partition_batch_traditional a h batch field_refs n
       else handle_skewed_partitioning cfg a h it batch field_refs n skew_result)"

definition hash_partition_batch_with_skew_handling ::
  "arrow \<Rightarrow> hasher \<Rightarrow> iteration \<Rightarrow> record_batch \<Rightarrow> nat list \<Rightarrow> u32 \<Rightarrow> bool \<Rightarrow>
   exchange_stop + record_batch list" where
  "hash_partition_batch_with_skew_handling a h it batch field_refs n enable_skew_handling =
     (if enable_skew_handling then skew_aware_hash_partition skew_config_default a h it batch field_refs n
      else hash_partition_batch_traditional a h batch field_refs n)"

definition hash_partition_batch ::
  "arrow \<Rightarrow> hasher \<Rightarrow> iteration \<Rightarrow> record_batch \<Rightarrow> nat list \<Rightarrow> u32 \<Rightarrow> exchange_stop + record_batch list" where
  "hash_partition_batch a h it batch field_refs n =
     hash_partition_batch_with_skew_handling a h it batch field_refs n True"

definition concat_record_batches :: "arrow \<Rightarrow> record_batch list \<Rightarrow> exchange_stop + record_batch" where
  "concat_record_batches a batches =
     (case batches of
        [] \<Rightarrow> Inl (ExchangeFailed NoBatches)
      | b # _ \<Rightarrow> (case concat_batches a (rb_schema b) batches of
          Inl e \<Rightarrow> Inl (ExchangeFailed (ConcatFailed e))
        | Inr c \<Rightarrow> Inr c))"

section \<open>Partitioning by a function of the row\<close>

text \<open>
  The contract of a hash partitioning: row \<open>r\<close> goes to partition \<open>f r\<close>, and the rows of a
  partition keep their order.
\<close>

definition partition_rows :: "('r \<Rightarrow> nat) \<Rightarrow> nat \<Rightarrow> 'r list \<Rightarrow> 'r list list" where
  "partition_rows f n rows = map (\<lambda>p. filter (\<lambda>r. f r = p) rows) [0..<n]"

lemma length_partition_rows [simp]: "length (partition_rows f n rows) = n"
  by (simp add: partition_rows_def)

lemma mset_concat_map: "mset (concat xss) = (\<Sum>xs\<leftarrow>xss. mset xs)"
  by (induction xss) simp_all

lemma sum_list_single:
  "distinct ps \<Longrightarrow> (\<Sum>p\<leftarrow>ps. if p = q then x else 0) = (if q \<in> set ps then x else (0 :: 'a :: comm_monoid_add))"
  by (induction ps) auto

lemma partition_rows_mset:
  assumes "\<And>r. r \<in> set rows \<Longrightarrow> f r < n"
  shows "mset (concat (partition_rows f n rows)) = mset rows"
  using assms
proof (induction rows)
  case (Cons r rows)
  have "mset (concat (partition_rows f n (r # rows))) =
      (\<Sum>p\<leftarrow>[0..<n]. (if p = f r then {#r#} else {#}) + mset (filter (\<lambda>s. f s = p) rows))"
    by (auto simp: partition_rows_def mset_concat_map comp_def intro!: arg_cong [where f = sum_list])
  also have "\<dots> = (\<Sum>p\<leftarrow>[0..<n]. if p = f r then {#r#} else {#}) +
      (\<Sum>p\<leftarrow>[0..<n]. mset (filter (\<lambda>s. f s = p) rows))"
    by (rule sum_list_addf)
  also have "\<dots> = {#r#} + mset rows"
    using Cons by (simp add: sum_list_single partition_rows_def mset_concat_map comp_def)
  finally show ?case by simp
qed (simp add: partition_rows_def)

text \<open>The partition of a row in the traditional partitioning: without keys all rows go to the first.\<close>

definition row_partition :: "arrow \<Rightarrow> hasher \<Rightarrow> arrow_field list \<Rightarrow> nat list \<Rightarrow> u32 \<Rightarrow> cell list \<Rightarrow> nat" where
  "row_partition a h schema field_refs n row =
     (if field_refs = [] then 0
      else case row_hash_items a schema field_refs row of
        Inr items \<Rightarrow> unat (h items) mod unat n
      | Inl e \<Rightarrow> 0)"

definition keys_hashable :: "arrow \<Rightarrow> record_batch \<Rightarrow> nat list \<Rightarrow> bool" where
  "keys_hashable a batch field_refs \<longleftrightarrow>
     (\<forall>row\<in>set (rb_rows batch). \<exists>items. row_hash_items a (rb_schema batch) field_refs row = Inr items)"

lemma row_partition_less: "n \<noteq> 0 \<Longrightarrow> row_partition a h schema field_refs n row < unat n"
  by (auto simp: row_partition_def unat_gt_0 split: sum.split)

lemma map_ok_pure: "(\<And>x. x \<in> set xs \<Longrightarrow> f x = Inr (g x)) \<Longrightarrow> map_ok f xs = Inr (map g xs)"
  by (induction xs) auto

lemma partition_ids:
  assumes "keys_hashable a batch field_refs" "field_refs \<noteq> []" "n \<noteq> 0"
  shows "map_ok (\<lambda>row. bind_ok (row_hash_items a (rb_schema batch) field_refs row) (hash_to_partition h n))
      (rb_rows batch) = Inr (map (row_partition a h (rb_schema batch) field_refs n) (rb_rows batch))"
proof (rule map_ok_pure)
  fix row assume "row \<in> set (rb_rows batch)"
  with assms(1) obtain items where "row_hash_items a (rb_schema batch) field_refs row = Inr items"
    by (auto simp: keys_hashable_def)
  with assms(2,3) show "bind_ok (row_hash_items a (rb_schema batch) field_refs row) (hash_to_partition h n) =
      Inr (row_partition a h (rb_schema batch) field_refs n row)"
    by (simp add: hash_to_partition_def row_partition_def)
qed

lemma partition_rows_first:
  "n \<noteq> 0 \<Longrightarrow> partition_rows (\<lambda>_. 0) n rows = (replicate n [])[0 := rows]"
  by (intro nth_equalityI) (auto simp: partition_rows_def nth_list_update)

lemma traditional_refines:
  assumes "arrow_law a" "keys_hashable a batch field_refs" "n \<noteq> 0"
  shows "\<exists>parts. hash_partition_batch_traditional a h batch field_refs n = Inr parts \<and>
    (\<forall>p\<in>set parts. rb_schema p = rb_schema batch) \<and>
    map rb_rows parts = partition_rows (row_partition a h (rb_schema batch) field_refs n) (unat n) (rb_rows batch)"
proof -
  let ?f = "row_partition a h (rb_schema batch) field_refs n"
  from assms(3) have n: "0 < unat n" by (simp add: unat_gt_0)
  consider (empty) "rb_rows batch = []" | (nokeys) "rb_rows batch \<noteq> []" "field_refs = []"
    | (keys) "rb_rows batch \<noteq> []" "field_refs \<noteq> []" by blast
  then show ?thesis
  proof cases
    case empty
    then show ?thesis
      by (auto simp: hash_partition_batch_traditional_def num_rows_def partition_rows_def map_replicate_const)
  next
    case nokeys
    then have "?f = (\<lambda>_. 0)" by (auto simp: row_partition_def)
    moreover from assms(1) have "new_empty a (rb_schema batch) = \<lparr>rb_schema = rb_schema batch, rb_rows = []\<rparr>"
      by (simp add: arrow_law_def)
    ultimately show ?thesis using nokeys n assms(3)
      by (auto simp: hash_partition_batch_traditional_def num_rows_def partition_rows_first map_update
          dest: set_update_subset_insert [THEN subsetD] split: if_splits)
  next
    case keys
    let ?part = "\<lambda>p. \<lparr>rb_schema = rb_schema batch, rb_rows = filter (\<lambda>r. ?f r = p) (rb_rows batch)\<rparr>"
    have "partition_failed (filter_record_batch a batch (map (\<lambda>i. i = p) (map ?f (rb_rows batch)))) = Inr (?part p)"
      for p
    proof -
      have "filter_record_batch a batch (map (\<lambda>i. i = p) (map ?f (rb_rows batch))) =
          Inr \<lparr>rb_schema = rb_schema batch,
            rb_rows = select_rows (rb_rows batch) (map (\<lambda>i. i = p) (map ?f (rb_rows batch)))\<rparr>"
        using assms(1) by (simp add: arrow_law_def num_rows_def)
      then show ?thesis
        by (simp add: partition_failed_def comp_def select_rows_map)
    qed
    then have "hash_partition_batch_traditional a h batch field_refs n = Inr (map ?part [0..<unat n])"
      using keys
      by (simp add: hash_partition_batch_traditional_def num_rows_def partition_ids [OF assms(2) _ assms(3)]
          map_ok_pure [where g = ?part])
    then show ?thesis by (auto simp: partition_rows_def)
  qed
qed

lemma unskewed_partition:
  assumes "arrow_law a" "keys_hashable a batch field_refs" "n \<noteq> 0"
    and "detect_skew skew_config_default a it batch field_refs = Inr r" "\<not> is_skewed r"
  shows "\<exists>parts. hash_partition_batch a h it batch field_refs n = Inr parts \<and> length parts = unat n \<and>
    (\<forall>p\<in>set parts. rb_schema p = rb_schema batch) \<and>
    map rb_rows parts = partition_rows (row_partition a h (rb_schema batch) field_refs n) (unat n) (rb_rows batch) \<and>
    mset (concat (map rb_rows parts)) = mset (rb_rows batch)"
proof -
  obtain parts where parts: "hash_partition_batch_traditional a h batch field_refs n = Inr parts"
    "\<forall>p\<in>set parts. rb_schema p = rb_schema batch"
    "map rb_rows parts = partition_rows (row_partition a h (rb_schema batch) field_refs n) (unat n) (rb_rows batch)"
    using traditional_refines [OF assms(1-3)] by blast
  have "length parts = unat n" using arg_cong [OF parts(3), of length] by simp
  moreover have "mset (concat (map rb_rows parts)) = mset (rb_rows batch)"
    unfolding parts(3) by (rule partition_rows_mset) (rule row_partition_less [OF assms(3)])
  ultimately show ?thesis using parts assms(4,5)
    by (simp add: hash_partition_batch_def hash_partition_batch_with_skew_handling_def
        skew_aware_hash_partition_def)
qed

text \<open>
  C3. Without skew the hash partitioning of a batch refines its contract: there are as many
  partitions as asked for, with the schema of the batch, partition \<open>p\<close> holds in order exactly
  the rows whose key hashes to \<open>p\<close>, and together they hold every row once. Rows with equal
  keys end in the same partition, whatever batch they come from.
\<close>

theorem hash_partition_refines:
  assumes "arrow_law a" "keys_hashable a batch field_refs" "n \<noteq> 0"
    and "detect_skew skew_config_default a it batch field_refs = Inr r" "\<not> is_skewed r"
  shows "\<exists>parts. hash_partition_batch a h it batch field_refs n = Inr parts \<and> length parts = unat n \<and>
    (\<forall>p\<in>set parts. rb_schema p = rb_schema batch) \<and>
    map rb_rows parts = partition_rows (row_partition a h (rb_schema batch) field_refs n) (unat n) (rb_rows batch) \<and>
    mset (concat (map rb_rows parts)) = mset (rb_rows batch)"
  using assms by (rule unskewed_partition)

definition key_field :: arrow_field where
  "key_field = \<lparr>field_name = ''k'', field_type = Utf8\<rparr>"

definition key_batch :: "string list \<Rightarrow> record_batch" where
  "key_batch ks = \<lparr>rb_schema = [key_field], rb_rows = map (\<lambda>k. [StrCell k]) ks\<rparr>"

definition length_hasher :: hasher where
  "length_hasher items = (case items of [HashStr s] \<Rightarrow> of_nat (length s) | _ \<Rightarrow> 0)"

definition plain_iteration :: iteration where
  "plain_iteration = \<lparr>count_order = id, key_order = id\<rparr>"

lemma key_batch_hashable: "keys_hashable a (key_batch ks) [0]"
  by (auto simp: keys_hashable_def key_batch_def row_hash_items_def cell_of_def key_field_def
      hash_column_value_def)

theorem hash_partition_refines_witness:
  "\<exists>parts. hash_partition_batch plain_arrow length_hasher plain_iteration (key_batch [''a'', ''bb'', ''c'']) [0] 2 =
      Inr parts \<and> map rb_rows parts = [[[StrCell ''bb'']], [[StrCell ''a''], [StrCell ''c'']]]"
proof -
  obtain r where r: "detect_skew skew_config_default plain_arrow plain_iteration (key_batch [''a'', ''bb'', ''c'']) [0] =
      Inr r" "\<not> is_skewed r"
    by (simp add: detect_skew_def key_batch_def num_rows_def skew_config_default_def)
  have "partition_rows (row_partition plain_arrow length_hasher [key_field] [0] 2) 2
      [[StrCell ''a''], [StrCell ''bb''], [StrCell ''c'']] = [[[StrCell ''bb'']], [[StrCell ''a''], [StrCell ''c'']]]"
    by (simp add: partition_rows_def row_partition_def row_hash_items_def cell_of_def key_field_def
        hash_column_value_def length_hasher_def upt_conv_Cons)
  with hash_partition_refines [OF plain_arrow_law key_batch_hashable _ r, of 2 length_hasher]
  show ?thesis by (auto simp: key_batch_def)
qed

section \<open>The skewed path\<close>

text \<open>The rows have a composite key; it fails only when an array does not have the type of its field.\<close>

definition keys_printable :: "arrow \<Rightarrow> record_batch \<Rightarrow> nat list \<Rightarrow> bool" where
  "keys_printable a batch field_refs \<longleftrightarrow>
     (\<forall>row\<in>set (rb_rows batch). \<exists>key. composite_key a (rb_schema batch) field_refs row = Inr key)"

lemma select_single: "k < length rows \<Longrightarrow> select_rows rows (map (\<lambda>i. i = k) [0..<length rows]) = [rows ! k]"
proof (induction rows rule: rev_induct)
  case (snoc r rows)
  have app: "select_rows (xs @ [x]) (ms @ [m]) = select_rows xs ms @ (if m then [x] else [])"
    if "length xs = length ms" for xs ms and x :: 'a and m
    using that by (simp add: select_rows_def)
  show ?case
  proof (cases "k < length rows")
    case True
    with snoc.IH show ?thesis by (simp add: app nth_append)
  next
    case False
    with snoc.prems have k: "k = length rows" by simp
    have "select_rows rows (map (\<lambda>i. i = length rows) [0..<length rows]) = []"
      by (auto simp: select_rows_def filter_empty_conv set_zip)
    with k show ?thesis by (simp add: app)
  qed
qed simp

lemma single_row_batch:
  assumes "arrow_law a" "k < num_rows batch"
  shows "filter_record_batch a batch (create_single_row_mask (num_rows batch) k) =
    Inr \<lparr>rb_schema = rb_schema batch, rb_rows = [rb_rows batch ! k]\<rparr>"
  using assms by (simp add: arrow_law_def create_single_row_mask_def num_rows_def select_single)

lemma fold_ok_invariant:
  assumes "\<And>x s. x \<in> set xs \<Longrightarrow> I s \<Longrightarrow> \<exists>s'. f x s = Inr s' \<and> I s'" "I s"
  shows "\<exists>s'. fold_ok f xs s = Inr s' \<and> I s'"
  using assms
proof (induction xs arbitrary: s)
  case (Cons x xs)
  then obtain s' where "f x s = Inr s'" "I s'" by (meson list.set_intros(1))
  with Cons.IH [of s'] Cons.prems(1) show ?case by simp
qed simp

definition one_row_parts :: "record_batch \<Rightarrow> u32 \<Rightarrow> record_batch list \<Rightarrow> bool" where
  "one_row_parts batch n parts \<longleftrightarrow> length parts = unat n \<and>
     (\<forall>p\<in>set parts. rb_schema p = rb_schema batch \<and> num_rows p \<le> 1)"

lemma skewed_partition_id_ok:
  "n \<noteq> 0 \<Longrightarrow> \<exists>p. skewed_partition_id cfg h it keys n key = Inr p \<and> p < unat n"
  by (auto simp: skewed_partition_id_def compute_hash_partition_def hash_to_partition_def unat_gt_0)

lemma place_row_one:
  assumes "arrow_law a" "keys_printable a batch field_refs" "n \<noteq> 0"
    and "k < num_rows batch" "one_row_parts batch n parts"
  shows "\<exists>parts'. place_row cfg a h it keys batch field_refs n k parts = Inr parts' \<and> one_row_parts batch n parts'"
proof -
  let ?row = "\<lparr>rb_schema = rb_schema batch, rb_rows = [rb_rows batch ! k]\<rparr>"
  from assms(2,4) obtain key where key: "composite_key a (rb_schema batch) field_refs (rb_rows batch ! k) = Inr key"
    by (metis keys_printable_def nth_mem num_rows_def)
  obtain p where p: "skewed_partition_id cfg h it keys n key = Inr p" "p < unat n"
    using skewed_partition_id_ok [OF assms(3)] by blast
  from p(2) assms(5) have schema: "rb_schema (parts ! p) = rb_schema batch"
    by (simp add: one_row_parts_def)
  have row: "num_rows ?row = 1" by (simp add: num_rows_def)
  have "place_row cfg a h it keys batch field_refs n k parts = Inr (parts[p := ?row])"
    using row
    by (simp add: place_row_def key p(1) single_row_batch [OF assms(1,4)] partition_failed_def
        concatenate_batches_with_schema_def schema)
  moreover have "one_row_parts batch n (parts[p := ?row])"
    using assms(5) set_update_subset_insert [of parts p] row by (fastforce simp: one_row_parts_def)
  ultimately show ?thesis by blast
qed

lemma skewed_one_row:
  assumes "arrow_law a" "keys_printable a batch field_refs" "n \<noteq> 0"
  shows "\<exists>parts. handle_skewed_partitioning cfg a h it batch field_refs n r = Inr parts \<and> one_row_parts batch n parts"
  unfolding handle_skewed_partitioning_def
proof (rule fold_ok_invariant)
  show "one_row_parts batch n (replicate (unat n) (new_empty a (rb_schema batch)))"
    using assms(1) by (simp add: one_row_parts_def arrow_law_def num_rows_def)
qed (rule place_row_one [OF assms]; simp)

text \<open>
  C38. A batch in which skew is detected loses rows. It has at least a thousand of them, and the
  partitioning succeeds with partitions of at most one row each: when a partition already
  holds a row, the next one replaces it.
\<close>

theorem skewed_partition_drops_rows:
  assumes "arrow_law a" "keys_printable a batch field_refs" "n \<noteq> 0"
    and "detect_skew skew_config_default a it batch field_refs = Inr r" "is_skewed r"
  shows "\<exists>parts. hash_partition_batch a h it batch field_refs n = Inr parts \<and> length parts = unat n \<and>
    (\<forall>p\<in>set parts. num_rows p \<le> 1) \<and> 1000 \<le> num_rows batch"
proof -
  have "1000 \<le> num_rows batch"
    using assms(4,5) by (auto simp: detect_skew_def skew_config_default_def split: if_splits)
  with skewed_one_row [OF assms(1-3), of skew_config_default h it r] assms(4,5) show ?thesis
    by (auto simp: hash_partition_batch_def hash_partition_batch_with_skew_handling_def
        skew_aware_hash_partition_def one_row_parts_def)
qed

lemma key_batch_printable: "keys_printable a (key_batch ks) [0]"
  by (auto simp: keys_printable_def key_batch_def composite_key_def cell_of_def key_field_def
      get_row_value_as_string_def cell_text_def)

lemma analyze_key_batch: "analyze_key_distribution a (key_batch ks) [0] = Inr (fold count_key ks [])"
proof -
  have "fold_ok (\<lambda>row m. bind_ok (distribution_key a [key_field] [0] row) (\<lambda>k. Inr (count_key k m)))
      (map (\<lambda>k. [StrCell k]) ks) m = Inr (fold count_key ks m)" for m
    by (induction ks arbitrary: m)
      (simp_all add: distribution_key_def cell_of_def key_field_def distribution_key_part_def cell_text_def)
  then show ?thesis by (simp add: analyze_key_distribution_def key_batch_def)
qed

lemma count_replicate: "(count_key k ^^ m) [(k, j)] = [(k, m + j)]"
  by (induction m) simp_all

definition skewed_keys :: "string list" where
  "skewed_keys = ''a'' # replicate 996 ''a'' @ [''b'', ''c'', ''d'']"

lemma skewed_counts: "fold count_key skewed_keys [] = [(''a'', 997), (''b'', 1), (''c'', 1), (''d'', 1)]"
  by (simp add: skewed_keys_def count_replicate)

lemma skewed_deviation:
  "f64_sub (f64_of_nat 997) (Fin False 8796093022208000 (- 45)) = Fin False 6570681487589376 (- 43)"
  "f64_sub (f64_of_nat (Suc 0)) (Fin False 8796093022208000 (- 45)) = Fin True 8760908650119168 (- 45)"
  by (simp_all add: f64_eval)

lemma skewed_variance:
  "f64_div (f64_sum (map (\<lambda>c. let diff = f64_sub (f64_of_nat c) (Fin False 8796093022208000 (- 45)) in
     f64_mul diff diff) [997, 1, 1, 1])) (f64_of_nat (length [997, 1, 1, 1 :: nat])) =
   Fin False 6391014415663104 (- 35)"
proof -
  have "f64_mul (Fin False 6570681487589376 (- 43)) (Fin False 6570681487589376 (- 43)) =
      Fin False 4793260811747328 (- 33)"
    "f64_mul (Fin True 8760908650119168 (- 45)) (Fin True 8760908650119168 (- 45)) =
      Fin False 8521352554217472 (- 37)"
    by (simp_all add: f64_eval)
  moreover have "f64_sum [Fin False 4793260811747328 (- 33), Fin False 8521352554217472 (- 37),
      Fin False 8521352554217472 (- 37), Fin False 8521352554217472 (- 37)] = Fin False 6391014415663104 (- 33)"
    by (simp add: f64_sum_def f64_zero_def f64_eval)
  moreover have "f64_div (Fin False 6391014415663104 (- 33)) (f64_of_nat 4) = Fin False 6391014415663104 (- 35)"
    by (simp add: f64_eval)
  moreover have "length [997, 1, 1, 1 :: nat] = 4" by simp
  ultimately show ?thesis by (simp add: skewed_deviation del: list.size)
qed

lemma skewed_root: "f64_sqrt (Fin False 6391014415663104 (- 35)) = Fin False 7587169451238034 (- 44)"
proof -
  have "isqrt (6391014415663104 * 2 ^ 129) = 2085545258385767798035822592"
    by (rule isqrt_eq) simp_all
  then show ?thesis by (simp add: f64_eval)
qed

lemma skewed_average: "f64_div (f64_of_nat 1000) (f64_of_nat 4) = Fin False 8796093022208000 (- 45)"
  by (simp add: f64_eval)

lemma skewed_coefficient:
  "f64_less (Fin False 3 (- 1)) (calculate_skew_coefficient [997, 1, 1, 1] (Fin False 8796093022208000 (- 45)))"
proof -
  have "f64_div (Fin False 7587169451238034 (- 44)) (Fin False 8796093022208000 (- 45)) =
      Fin False 7769261518067747 (- 52)"
    by (simp add: f64_eval)
  moreover have "f64_less (Fin False 3 (- 1)) (Fin False 7769261518067747 (- 52))"
    by (simp add: signed_at_def)
  moreover have "calculate_skew_coefficient [997, 1, 1, 1] (Fin False 8796093022208000 (- 45)) =
      f64_div (Fin False 7587169451238034 (- 44)) (Fin False 8796093022208000 (- 45))"
    unfolding calculate_skew_coefficient_def
    unfolding skewed_variance
    unfolding Let_def skewed_root
    by (simp del: f64_div.simps)
  ultimately show ?thesis by (simp only:)
qed

theorem skewed_partition_drops_rows_witness:
  "\<exists>parts. hash_partition_batch plain_arrow length_hasher plain_iteration (key_batch skewed_keys) [0] 2 = Inr parts \<and>
     num_rows (key_batch skewed_keys) = 1000 \<and> length parts = 2 \<and> (\<forall>p\<in>set parts. num_rows p \<le> 1)"
proof -
  have four: "Suc (Suc (Suc (Suc 0))) = 4" by simp
  have rows: "num_rows (key_batch skewed_keys) = 1000"
    by (simp add: num_rows_def key_batch_def skewed_keys_def)
  obtain r where r: "detect_skew skew_config_default plain_arrow plain_iteration (key_batch skewed_keys) [0] = Inr r"
    "is_skewed r"
    using skewed_coefficient
    by (simp add: four detect_skew_def rows analyze_key_batch skewed_counts skewed_average skew_config_default_def
        plain_iteration_def Let_def)
  from skewed_partition_drops_rows [OF plain_arrow_law key_batch_printable _ r, of 2 length_hasher] rows
  show ?thesis by auto
qed

end
