(* ===== verification/Exchange_Runtime.thy ===== *)
theory Exchange_Runtime
  imports Hash_Partition
begin

text \<open>
  The exchange runtimes of \<^verbatim>\<open>ldp/executor/exchange.rs\<close> with the tickets of
  \<^verbatim>\<open>ldp/executor/stage.rs\<close>: what a worker receives when a stage reads an exchange.
  \<open>ExchangeRuntime\<close> fetches through a stage executor (the argument \<open>fetch\<close>),
  \<open>DistributedExchangeRuntime\<close> through Flight clients (the argument \<open>flight\<close>). Logging and
  the metrics of a broadcast are left out.
\<close>

section \<open>Tickets\<close>

record stage_ticket =
  tk_query_id :: string
  tk_stage_id :: stage_id
  tk_worker_id :: worker_id
  tk_partition :: "u32 option"
  tk_ticket_id :: string
  tk_flight_ticket_bytes :: "bytes option"

definition ticket_new :: "string \<Rightarrow> stage_id \<Rightarrow> worker_id \<Rightarrow> stage_ticket" where
  "ticket_new q s w =
     \<lparr>tk_query_id = q, tk_stage_id = s, tk_worker_id = w, tk_partition = None,
      tk_ticket_id = ''stage_'' @ stage_display s @ ''_worker_'' @ worker_display w,
      tk_flight_ticket_bytes = None\<rparr>"

definition ticket_partitioned :: "string \<Rightarrow> stage_id \<Rightarrow> worker_id \<Rightarrow> u32 \<Rightarrow> stage_ticket" where
  "ticket_partitioned q s w p =
     \<lparr>tk_query_id = q, tk_stage_id = s, tk_worker_id = w, tk_partition = Some p,
      tk_ticket_id = ''stage_'' @ stage_display s @ ''_worker_'' @ worker_display w @ ''_p'' @ show_u32 p,
      tk_flight_ticket_bytes = None\<rparr>"

record stage_tickets =
  tickets :: "stage_ticket list"

definition tickets_new :: stage_tickets where
  "tickets_new = \<lparr>tickets = []\<rparr>"

definition tickets_add :: "stage_ticket \<Rightarrow> stage_tickets \<Rightarrow> stage_tickets" where
  "tickets_add t ts = ts\<lparr>tickets := tickets ts @ [t]\<rparr>"

definition tickets_for_worker :: "stage_tickets \<Rightarrow> worker_id \<Rightarrow> stage_ticket list" where
  "tickets_for_worker ts w = filter (\<lambda>t. tk_worker_id t = w) (tickets ts)"

definition tickets_for_partition :: "stage_tickets \<Rightarrow> u32 \<Rightarrow> stage_ticket list" where
  "tickets_for_partition ts p = filter (\<lambda>t. tk_partition t = Some p) (tickets ts)"

datatype stage_execution_error =
    StageNotFound stage_id
  | WorkerUnavailable worker_id string
  | StageExecutionFailed string
  | LimitsExceeded string u64 u64
  | InputNotReady string

fun stage_execution_error_display :: "stage_execution_error \<Rightarrow> string" where
  "stage_execution_error_display (StageNotFound s) = ''Stage '' @ stage_display s @ '' not found''"
| "stage_execution_error_display (WorkerUnavailable w d) = ''Worker '' @ worker_display w @ '' unavailable: '' @ d"
| "stage_execution_error_display (StageExecutionFailed m) = ''Execution failed: '' @ m"
| "stage_execution_error_display (LimitsExceeded ty actual limit) =
     ty @ '' limit exceeded: '' @ show_nat (unat actual) @ '' > '' @ show_nat (unat limit)"
| "stage_execution_error_display (InputNotReady t) = ''Input '' @ t @ '' not ready''"

type_synonym fetch = "stage_ticket \<Rightarrow> stage_execution_error + record_batch list"

section \<open>The local runtime\<close>

text \<open>
  The loop that all exchanges start with: the batches of all tickets, and the schema of the
  last batch that has columns.
\<close>

definition note_schema :: "record_batch list \<Rightarrow> arrow_field list option \<Rightarrow> arrow_field list option" where
  "note_schema batches last_schema =
     fold (\<lambda>b s. if num_columns b > 0 then Some (rb_schema b) else s) batches last_schema"

definition fetch_all ::
  "fetch \<Rightarrow> stage_tickets \<Rightarrow> exchange_stop + record_batch list \<times> arrow_field list option" where
  "fetch_all fetch ts =
     fold_ok (\<lambda>t (all_batches, last_schema).
       (case fetch t of
          Inl e \<Rightarrow> Inl (ExchangeFailed (FetchFailed
            (''Failed to fetch '' @ tk_ticket_id t @ '': '' @ stage_execution_error_display e)))
        | Inr batches \<Rightarrow> Inr (all_batches @ batches, note_schema batches last_schema)))
       (tickets ts) ([], None)"

definition or_empty_schema ::
  "arrow \<Rightarrow> record_batch list \<Rightarrow> arrow_field list option \<Rightarrow> record_batch list" where
  "or_empty_schema a all_batches last_schema =
     (if all_batches = [] then (case last_schema of Some s \<Rightarrow> [new_empty a s] | None \<Rightarrow> []) else all_batches)"

definition execute_gather :: "arrow \<Rightarrow> fetch \<Rightarrow> stage_tickets \<Rightarrow> exchange_stop + record_batch list" where
  "execute_gather a fetch ts =
     bind_ok (fetch_all fetch ts) (\<lambda>(all_batches, last_schema). Inr (or_empty_schema a all_batches last_schema))"

definition execute_broadcast :: "arrow \<Rightarrow> fetch \<Rightarrow> stage_tickets \<Rightarrow> exchange_stop + record_batch list" where
  "execute_broadcast a fetch ts =
     bind_ok (fetch_all fetch ts) (\<lambda>(all_batches, last_schema). Inr (or_empty_schema a all_batches last_schema))"

definition non_empty :: "record_batch list \<Rightarrow> record_batch list" where
  "non_empty bs = filter (\<lambda>b. num_rows b > 0) bs"

definition execute_hash_partition_all ::
  "arrow \<Rightarrow> hasher \<Rightarrow> iteration \<Rightarrow> fetch \<Rightarrow> stage_tickets \<Rightarrow> column_ref list \<Rightarrow> u32 \<Rightarrow>
   exchange_stop + record_batch list" where
  "execute_hash_partition_all a h it fetch ts refs n =
     bind_ok (fetch_all fetch ts) (\<lambda>(all_batches, last_schema).
       (case all_batches of
          [] \<Rightarrow> Inr (or_empty_schema a [] last_schema)
        | b # _ \<Rightarrow>
            bind_ok (resolve_column_indices refs (rb_schema b)) (\<lambda>field_refs.
            bind_ok (map_ok (\<lambda>batch. hash_partition_batch a h it batch field_refs n) all_batches) (\<lambda>partitioned.
              let result = concat (map non_empty partitioned)
              in if result = [] then Inr [new_empty a (rb_schema b)] else Inr result))))"

definition local_partitions :: "worker_id list \<Rightarrow> worker_id \<Rightarrow> nat list" where
  "local_partitions assignment w =
     filter (\<lambda>p. assignment ! p = w) [0..<length assignment]"

text \<open>
  The rows of a batch are appended to the partition vectors; indexing a vector that does not
  exist panics.
\<close>

definition push_partitions ::
  "record_batch list \<Rightarrow> record_batch list list \<Rightarrow> exchange_stop + record_batch list list" where
  "push_partitions parts acc =
     fold_ok (\<lambda>(p, b) acc.
       if num_rows b > 0
       then (if p < length acc then Inr (acc[p := acc ! p @ [b]]) else Inl ExchangePanic)
       else Inr acc) (enumerate 0 parts) acc"

definition take_partitions ::
  "nat list \<Rightarrow> record_batch list list \<Rightarrow> exchange_stop + record_batch list" where
  "take_partitions ps acc =
     bind_ok (map_ok (\<lambda>p. if p < length acc then Inr (acc ! p) else Inl ExchangePanic) ps)
       (\<lambda>bss. Inr (concat bss))"

definition execute_hash_partition_for_worker ::
  "arrow \<Rightarrow> hasher \<Rightarrow> iteration \<Rightarrow> fetch \<Rightarrow> stage_tickets \<Rightarrow> column_ref list \<Rightarrow> u32 \<Rightarrow> worker_id list \<Rightarrow>
   worker_id \<Rightarrow> exchange_stop + record_batch list" where
  "execute_hash_partition_for_worker a h it fetch ts refs n assignment target =
     bind_ok (fetch_all fetch ts) (\<lambda>(all_batches, last_schema).
       (case all_batches of
          [] \<Rightarrow> Inr (or_empty_schema a [] last_schema)
        | b # _ \<Rightarrow>
            bind_ok (resolve_column_indices refs (rb_schema b)) (\<lambda>field_refs.
              let ps = local_partitions assignment target
              in if ps = [] then Inr [new_empty a (rb_schema b)]
                 else bind_ok (fold_ok (\<lambda>batch acc.
                     bind_ok (hash_partition_batch a h it batch field_refs n) (\<lambda>parts. push_partitions parts acc))
                     all_batches (replicate (unat n) [])) (\<lambda>acc.
                   bind_ok (take_partitions ps acc) (\<lambda>result.
                     if result = [] then Inr [new_empty a (rb_schema b)] else Inr result)))))"

definition execute_exchange ::
  "arrow \<Rightarrow> hasher \<Rightarrow> iteration \<Rightarrow> fetch \<Rightarrow> exchange_edge \<Rightarrow> stage_tickets \<Rightarrow> exchange_stop + record_batch list" where
  "execute_exchange a h it fetch edge ts =
     (case kind edge of
        Gather target \<Rightarrow> execute_gather a fetch ts
      | Broadcast targets \<Rightarrow> execute_broadcast a fetch ts
      | HashPartition refs n \<Rightarrow> execute_hash_partition_all a h it fetch ts refs n)"

definition execute_exchange_for_worker ::
  "arrow \<Rightarrow> hasher \<Rightarrow> iteration \<Rightarrow> fetch \<Rightarrow> exchange_edge \<Rightarrow> stage_tickets \<Rightarrow> worker_id \<Rightarrow>
   exchange_stop + record_batch list" where
  "execute_exchange_for_worker a h it fetch edge ts target =
     (case kind edge of
        Gather w \<Rightarrow> execute_gather a fetch ts
      | Broadcast targets \<Rightarrow> execute_broadcast a fetch ts
      | HashPartition refs n \<Rightarrow>
          execute_hash_partition_for_worker a h it fetch ts refs n (partition_to_worker edge) target)"

text \<open>
  The inputs of a stage: both resolvers run the same loop over the inputs and differ in the
  function that executes the exchange.
\<close>

definition resolve_inputs_with ::
  "(exchange_edge \<Rightarrow> stage_tickets \<Rightarrow> exchange_stop + record_batch list) \<Rightarrow> ldp_plan \<Rightarrow> stage_id \<Rightarrow>
   (stage_id \<rightharpoonup> stage_tickets) \<Rightarrow> exchange_stop + (string \<rightharpoonup> record_batch list)" where
  "resolve_inputs_with run plan sid stage_outputs =
     (case get_stage plan sid of
        None \<Rightarrow> Inl (ExchangeFailed (ExchangeStageNotFound sid))
      | Some s \<Rightarrow> fold_ok (\<lambda>i m.
          (case i of
             LocalCatalog \<Rightarrow> Inr m
           | ExchangeInput x table_name \<Rightarrow>
               (case find (\<lambda>e. edge_id e = x) (edges plan) of
                  None \<Rightarrow> Inl (ExchangeFailed (ExchangeNotFound x))
                | Some edge \<Rightarrow>
                    (case stage_outputs (from_stage edge) of
                       None \<Rightarrow> Inl (ExchangeFailed (UpstreamNotReady (from_stage edge)))
                     | Some ts \<Rightarrow> bind_ok (run edge ts) (\<lambda>batches. Inr (m(table_name \<mapsto> batches)))))))
          (inputs s) Map.empty)"

definition resolve_inputs ::
  "arrow \<Rightarrow> hasher \<Rightarrow> iteration \<Rightarrow> fetch \<Rightarrow> ldp_plan \<Rightarrow> stage_id \<Rightarrow> (stage_id \<rightharpoonup> stage_tickets) \<Rightarrow>
   exchange_stop + (string \<rightharpoonup> record_batch list)" where
  "resolve_inputs a h it fetch plan sid stage_outputs =
     resolve_inputs_with (execute_exchange a h it fetch) plan sid stage_outputs"

definition resolve_inputs_for_worker ::
  "arrow \<Rightarrow> hasher \<Rightarrow> iteration \<Rightarrow> fetch \<Rightarrow> ldp_plan \<Rightarrow> stage_id \<Rightarrow> worker_id \<Rightarrow>
   (stage_id \<rightharpoonup> stage_tickets) \<Rightarrow> exchange_stop + (string \<rightharpoonup> record_batch list)" where
  "resolve_inputs_for_worker a h it fetch plan sid target stage_outputs =
     resolve_inputs_with (\<lambda>edge ts. execute_exchange_for_worker a h it fetch edge ts target) plan sid stage_outputs"

section \<open>The distributed runtime\<close>

record remote_ticket =
  remote_worker_id :: worker_id
  ticket_bytes :: bytes

record distributed_exchange_runtime =
  der_tenant_id :: string
  remote_tickets :: "string \<rightharpoonup> bytes"

text \<open>
  What the runtime asks of its surroundings: the endpoints of the connection pool and
  \<open>LdpFlightClient::fetch_results\<close> at an endpoint for a tenant.
\<close>

record flight =
  pool_endpoint :: "worker_id \<Rightarrow> string option"
  fetch_results :: "string \<Rightarrow> string \<Rightarrow> bytes \<Rightarrow> string + record_batch list"

definition der_new :: "string \<Rightarrow> distributed_exchange_runtime" where
  "der_new tenant = \<lparr>der_tenant_id = tenant, remote_tickets = Map.empty\<rparr>"

definition ticket_key :: "string \<Rightarrow> stage_id \<Rightarrow> worker_id \<Rightarrow> string" where
  "ticket_key q s w = q @ '':'' @ stage_display s @ '':'' @ worker_display w"

definition register_ticket ::
  "string \<Rightarrow> stage_id \<Rightarrow> worker_id \<Rightarrow> bytes \<Rightarrow> distributed_exchange_runtime \<Rightarrow> distributed_exchange_runtime" where
  "register_ticket q s w b rt = rt\<lparr>remote_tickets := (remote_tickets rt)(ticket_key q s w \<mapsto> b)\<rparr>"

definition get_ticket ::
  "distributed_exchange_runtime \<Rightarrow> string \<Rightarrow> stage_id \<Rightarrow> worker_id \<Rightarrow> bytes option" where
  "get_ticket rt q s w = remote_tickets rt (ticket_key q s w)"

definition get_worker_endpoint :: "flight \<Rightarrow> worker_id \<Rightarrow> exchange_error + string" where
  "get_worker_endpoint fl w =
     (case pool_endpoint fl w of
        Some e \<Rightarrow> Inr e
      | None \<Rightarrow> Inl (FetchFailed (''No endpoint registered for worker '' @ worker_display w)))"

definition fetch_from_worker ::
  "flight \<Rightarrow> distributed_exchange_runtime \<Rightarrow> string \<Rightarrow> stage_id \<Rightarrow> worker_id \<Rightarrow>
   exchange_error + record_batch list" where
  "fetch_from_worker fl rt q s w =
     (case get_ticket rt q s w of
        None \<Rightarrow> Inl (FetchFailed (''No ticket for query='' @ q @ '', stage='' @ stage_display s @
          '', worker='' @ worker_display w))
      | Some b \<Rightarrow> bind_ok (get_worker_endpoint fl w) (\<lambda>endpoint.
          (case fetch_results fl endpoint (der_tenant_id rt) b of
             Inl e \<Rightarrow> Inl (FetchFailed (''Flight fetch from '' @ worker_display w @ '' failed: '' @ e))
           | Inr batches \<Rightarrow> Inr batches)))"

text \<open>All fetches run; their results are combined in the order of the workers.\<close>

definition gather_results ::
  "(worker_id \<times> (exchange_error + record_batch list)) list \<Rightarrow>
   record_batch list \<times> arrow_field list option \<times> string list" where
  "gather_results results =
     fold (\<lambda>(w, r) (all_batches, last_schema, errors).
       (case r of
          Inr batches \<Rightarrow> (all_batches @ batches, note_schema batches last_schema, errors)
        | Inl e \<Rightarrow> (all_batches, last_schema, errors @ [worker_display w @ '': '' @ exchange_error_display e])))
       results ([], None, [])"

definition distributed_gather ::
  "arrow \<Rightarrow> flight \<Rightarrow> distributed_exchange_runtime \<Rightarrow> string \<Rightarrow> stage_id \<Rightarrow> worker_id list \<Rightarrow>
   exchange_error + record_batch list" where
  "distributed_gather a fl rt q s source_workers =
     (let (all_batches, last_schema, errors) =
            gather_results (map (\<lambda>w. (w, fetch_from_worker fl rt q s w)) source_workers)
      in if errors \<noteq> []
         then Inl (FetchFailed (show_nat (length errors) @ '' of '' @ show_nat (length source_workers) @
           '' source workers failed (discarding '' @ show_nat (length all_batches) @
           '' batches collected from other workers): '' @ join_with ''; '' errors))
         else Inr (or_empty_schema a all_batches last_schema))"

definition distributed_broadcast ::
  "flight \<Rightarrow> distributed_exchange_runtime \<Rightarrow> string \<Rightarrow> stage_id \<Rightarrow> worker_id \<Rightarrow>
   exchange_error + record_batch list" where
  "distributed_broadcast fl rt q s source_worker = fetch_from_worker fl rt q s source_worker"

record hash_partition_request =
  hpr_query_id :: string
  hpr_stage_id :: stage_id
  hpr_source_workers :: "worker_id list"
  hpr_column_refs :: "column_ref list"
  hpr_num_partitions :: u32
  hpr_partition_to_worker :: "worker_id list"
  hpr_local_worker :: worker_id

definition lift_error :: "exchange_error + 'a \<Rightarrow> exchange_stop + 'a" where
  "lift_error r = (case r of Inl e \<Rightarrow> Inl (ExchangeFailed e) | Inr x \<Rightarrow> Inr x)"

definition distributed_hash_partition ::
  "arrow \<Rightarrow> hasher \<Rightarrow> iteration \<Rightarrow> flight \<Rightarrow> distributed_exchange_runtime \<Rightarrow> hash_partition_request \<Rightarrow>
   exchange_stop + record_batch list" where
  "distributed_hash_partition a h it fl rt req =
     bind_ok (lift_error (distributed_gather a fl rt (hpr_query_id req) (hpr_stage_id req) (hpr_source_workers req)))
       (\<lambda>all_batches.
         (case all_batches of
            [] \<Rightarrow> Inr []
          | b # _ \<Rightarrow>
              bind_ok (resolve_column_indices (hpr_column_refs req) (rb_schema b)) (\<lambda>field_refs.
                let ps = local_partitions (hpr_partition_to_worker req) (hpr_local_worker req)
                in bind_ok (map_ok (\<lambda>batch.
                     bind_ok (hash_partition_batch a h it batch field_refs (hpr_num_partitions req)) (\<lambda>parts.
                     bind_ok (map_ok (\<lambda>p. if p < length parts then Inr (parts ! p) else Inl ExchangePanic) ps)
                       (\<lambda>bs. Inr (non_empty bs)))) all_batches) (\<lambda>bss.
                   let local_batches = concat bss
                   in if local_batches = [] then Inr [new_empty a (rb_schema b)] else Inr local_batches))))"

definition distributed_exchange ::
  "arrow \<Rightarrow> hasher \<Rightarrow> iteration \<Rightarrow> flight \<Rightarrow> distributed_exchange_runtime \<Rightarrow> string \<Rightarrow> exchange_edge \<Rightarrow>
   worker_id list \<Rightarrow> worker_id \<Rightarrow> exchange_stop + record_batch list" where
  "distributed_exchange a h it fl rt q edge source_workers local_worker =
     (case kind edge of
        Gather target \<Rightarrow> lift_error (distributed_gather a fl rt q (from_stage edge) source_workers)
      | Broadcast targets \<Rightarrow>
          (case source_workers of
             [] \<Rightarrow> Inl (ExchangeFailed (FetchFailed ''No source worker for broadcast''))
           | source # _ \<Rightarrow> lift_error (distributed_broadcast fl rt q (from_stage edge) source))
      | HashPartition refs n \<Rightarrow>
          distributed_hash_partition a h it fl rt
            \<lparr>hpr_query_id = q, hpr_stage_id = from_stage edge, hpr_source_workers = source_workers,
             hpr_column_refs = refs, hpr_num_partitions = n,
             hpr_partition_to_worker = partition_to_worker edge, hpr_local_worker = local_worker\<rparr>)"

section \<open>Rows of an exchange\<close>

definition rows_of :: "record_batch list \<Rightarrow> cell list list" where
  "rows_of bs = concat (map rb_rows bs)"

lemma rows_of_simps [simp]:
  "rows_of [] = []" "rows_of (b # bs) = rb_rows b @ rows_of bs" "rows_of (as @ bs) = rows_of as @ rows_of bs"
  by (simp_all add: rows_of_def)

lemma rows_of_non_empty [simp]: "rows_of (non_empty bs) = rows_of bs"
  by (induction bs) (auto simp: non_empty_def num_rows_def)

lemma rows_of_concat: "rows_of (concat bss) = concat (map rows_of bss)"
  by (induction bss) simp_all

lemma rows_of_new_empty [simp]: "arrow_law a \<Longrightarrow> rb_rows (new_empty a s) = []"
  by (simp add: arrow_law_def)

text \<open>A batch of schema \<open>s\<close> whose keys can be hashed and in which no skew is detected.\<close>

definition evenly_hashed :: "arrow \<Rightarrow> iteration \<Rightarrow> arrow_field list \<Rightarrow> nat list \<Rightarrow> record_batch \<Rightarrow> bool" where
  "evenly_hashed a it s field_refs b \<longleftrightarrow> rb_schema b = s \<and> keys_hashable a b field_refs \<and>
     (\<exists>r. detect_skew skew_config_default a it b field_refs = Inr r \<and> \<not> is_skewed r)"

lemma evenly_partitioned:
  assumes "arrow_law a" "evenly_hashed a it s field_refs b" "n \<noteq> 0"
  obtains parts where "hash_partition_batch a h it b field_refs n = Inr parts" "length parts = unat n"
    and "map rb_rows parts = partition_rows (row_partition a h s field_refs n) (unat n) (rb_rows b)"
proof -
  from assms(2) obtain r where "rb_schema b = s" "keys_hashable a b field_refs"
    "detect_skew skew_config_default a it b field_refs = Inr r" "\<not> is_skewed r"
    unfolding evenly_hashed_def by blast
  with unskewed_partition [OF assms(1) _ assms(3), of b field_refs it r h] that show thesis by blast
qed

lemma filter_mset_disjoint_sum:
  "distinct ps \<Longrightarrow> (\<Sum>p\<leftarrow>ps. filter_mset (\<lambda>r. f r = p) M) = filter_mset (\<lambda>r. f r \<in> set ps) M"
proof (induction ps)
  case (Cons p ps)
  from Cons.prems have "p \<notin> set ps" by simp
  then have "filter_mset (\<lambda>r. f r \<in> set (p # ps)) M =
      filter_mset (\<lambda>r. f r = p) M + filter_mset (\<lambda>r. f r \<in> set ps) M"
    by (induction M) auto
  with Cons show ?case by simp
qed simp

lemma mset_local_rows:
  assumes "\<And>r. f r < length assignment"
  shows "mset (concat (map (\<lambda>p. filter (\<lambda>r. f r = p) rows) (local_partitions assignment w))) =
    filter_mset (\<lambda>r. assignment ! f r = w) (mset rows)"
proof -
  have "mset (concat (map (\<lambda>p. filter (\<lambda>r. f r = p) rows) (local_partitions assignment w))) =
      (\<Sum>p\<leftarrow>local_partitions assignment w. filter_mset (\<lambda>r. f r = p) (mset rows))"
    by (simp add: mset_concat_map comp_def)
  also have "\<dots> = filter_mset (\<lambda>r. f r \<in> set (local_partitions assignment w)) (mset rows)"
    by (rule filter_mset_disjoint_sum) (simp add: local_partitions_def)
  also have "\<dots> = filter_mset (\<lambda>r. assignment ! f r = w) (mset rows)"
    using assms by (simp add: local_partitions_def)
  finally show ?thesis .
qed

lemma push_partitions_rows:
  assumes "k + length parts \<le> length acc"
  shows "\<exists>acc'. fold_ok (\<lambda>(p, b) acc.
       if num_rows b > 0
       then (if p < length acc then Inr (acc[p := acc ! p @ [b]]) else Inl ExchangePanic)
       else Inr acc) (enumerate k parts) acc = Inr acc' \<and> length acc' = length acc \<and>
    (\<forall>p < length acc. rows_of (acc' ! p) = rows_of (acc ! p) @
       (if k \<le> p \<and> p < k + length parts then rb_rows (parts ! (p - k)) else []))"
  using assms
proof (induction parts arbitrary: k acc)
  case (Cons b parts)
  define acc1 where "acc1 = (if num_rows b > 0 then acc[k := acc ! k @ [b]] else acc)"
  have acc1: "length acc1 = length acc"
    "\<And>p. p < length acc \<Longrightarrow> rows_of (acc1 ! p) = rows_of (acc ! p) @ (if p = k then rb_rows b else [])"
    by (auto simp: acc1_def num_rows_def nth_list_update)
  from Cons.prems acc1(1) have "Suc k + length parts \<le> length acc1" by simp
  from Cons.IH [OF this] obtain acc' where acc': "fold_ok (\<lambda>(p, b) acc.
       if num_rows b > 0
       then (if p < length acc then Inr (acc[p := acc ! p @ [b]]) else Inl ExchangePanic)
       else Inr acc) (enumerate (Suc k) parts) acc1 = Inr acc'" "length acc' = length acc"
    "\<forall>p < length acc. rows_of (acc' ! p) = rows_of (acc1 ! p) @
       (if Suc k \<le> p \<and> p < Suc k + length parts then rb_rows (parts ! (p - Suc k)) else [])"
    by (auto simp: acc1(1))
  have "rows_of (acc' ! p) = rows_of (acc ! p) @
       (if k \<le> p \<and> p < k + length (b # parts) then rb_rows ((b # parts) ! (p - k)) else [])"
    if "p < length acc" for p
    using acc'(3) acc1(2) [OF that] that by (auto simp: nth_Cons' Suc_le_eq)
  with acc'(1,2) Cons.prems show ?case by (auto simp: acc1_def)
qed auto

lemma push_partitions_ok:
  assumes "length parts = length acc"
  shows "\<exists>acc'. push_partitions parts acc = Inr acc' \<and> length acc' = length acc \<and>
    (\<forall>p < length acc. rows_of (acc' ! p) = rows_of (acc ! p) @ rb_rows (parts ! p))"
  using push_partitions_rows [of 0 parts acc] assms by (auto simp: push_partitions_def)

lemma partition_fold_rows:
  assumes "arrow_law a" "n \<noteq> 0" "\<And>b. b \<in> set bs \<Longrightarrow> evenly_hashed a it s field_refs b" "length acc = unat n"
  shows "\<exists>acc'. fold_ok (\<lambda>batch acc.
       bind_ok (hash_partition_batch a h it batch field_refs n) (\<lambda>parts. push_partitions parts acc)) bs acc =
       Inr acc' \<and> length acc' = unat n \<and>
    (\<forall>p < unat n. rows_of (acc' ! p) = rows_of (acc ! p) @
       filter (\<lambda>r. row_partition a h s field_refs n r = p) (rows_of bs))"
  using assms(3,4)
proof (induction bs arbitrary: acc)
  case (Cons b bs)
  obtain parts where parts: "hash_partition_batch a h it b field_refs n = Inr parts" "length parts = unat n"
    "map rb_rows parts = partition_rows (row_partition a h s field_refs n) (unat n) (rb_rows b)"
    using evenly_partitioned [OF assms(1) Cons.prems(1) assms(2)] by auto
  have row: "rb_rows (parts ! p) = filter (\<lambda>r. row_partition a h s field_refs n r = p) (rb_rows b)"
    if "p < unat n" for p
    using arg_cong [OF parts(3), of "\<lambda>xs. xs ! p"] that parts(2) by (simp add: partition_rows_def)
  from parts(2) Cons.prems(2) obtain acc1 where acc1: "push_partitions parts acc = Inr acc1"
    "length acc1 = unat n" "\<forall>p < unat n. rows_of (acc1 ! p) = rows_of (acc ! p) @ rb_rows (parts ! p)"
    using push_partitions_ok [of parts acc] by auto
  with Cons.IH [of acc1] Cons.prems(1) parts(1) row show ?case by fastforce
qed simp

lemma take_partitions_ok:
  assumes "\<And>p. p \<in> set ps \<Longrightarrow> p < length acc"
  shows "take_partitions ps acc = Inr (concat (map (\<lambda>p. acc ! p) ps))"
proof -
  have "map_ok (\<lambda>p. if p < length acc then Inr (acc ! p) else Inl ExchangePanic) ps = Inr (map (\<lambda>p. acc ! p) ps)"
    using assms by (intro map_ok_pure) simp
  then show ?thesis by (simp add: take_partitions_def)
qed

lemma local_partitions_less: "p \<in> set (local_partitions assignment w) \<Longrightarrow> p < length assignment"
  by (simp add: local_partitions_def)

lemma or_empty_schema_rows: "arrow_law a \<Longrightarrow> rows_of (or_empty_schema a bs ls) = rows_of bs"
  by (auto simp: or_empty_schema_def split: option.split)

lemma local_part:
  assumes "arrow_law a" "evenly_hashed a it s field_refs b" "n \<noteq> 0" "length assignment = unat n"
  shows "\<exists>bs. bind_ok (hash_partition_batch a h it b field_refs n) (\<lambda>parts.
      bind_ok (map_ok (\<lambda>p. if p < length parts then Inr (parts ! p) else Inl ExchangePanic)
        (local_partitions assignment w)) (\<lambda>bs. Inr (non_empty bs))) = Inr bs \<and>
    mset (rows_of bs) =
      filter_mset (\<lambda>r. assignment ! row_partition a h s field_refs n r = w) (mset (rb_rows b))"
proof -
  let ?f = "row_partition a h s field_refs n" and ?ps = "local_partitions assignment w"
  obtain parts where parts: "hash_partition_batch a h it b field_refs n = Inr parts" "length parts = unat n"
    "map rb_rows parts = partition_rows ?f (unat n) (rb_rows b)"
    by (rule evenly_partitioned [OF assms(1-3)])
  have row: "rb_rows (parts ! p) = filter (\<lambda>r. ?f r = p) (rb_rows b)" if "p \<in> set ?ps" for p
    using arg_cong [OF parts(3), of "\<lambda>xs. xs ! p"] local_partitions_less [OF that] parts(2) assms(4)
    by (simp add: partition_rows_def)
  have "map_ok (\<lambda>p. if p < length parts then Inr (parts ! p) else Inl ExchangePanic) ?ps =
      Inr (map (\<lambda>p. parts ! p) ?ps)"
    using local_partitions_less [of _ assignment w] parts(2) assms(4) by (intro map_ok_pure) simp
  moreover have "rows_of (map (\<lambda>p. parts ! p) ?ps) = concat (map (\<lambda>p. filter (\<lambda>r. ?f r = p) (rb_rows b)) ?ps)"
    using row by (auto simp: rows_of_def comp_def intro!: arg_cong [where f = concat])
  ultimately show ?thesis
    using parts(1) mset_local_rows [of ?f assignment "rb_rows b" w] row_partition_less [OF assms(3)] assms(4)
    by simp
qed

lemma map_ok_mset:
  assumes "\<And>b. b \<in> set bs \<Longrightarrow> \<exists>x. f b = Inr x \<and> mset (rows_of x) = filter_mset P (mset (rb_rows b))"
  shows "\<exists>xs. map_ok f bs = Inr xs \<and> mset (rows_of (concat xs)) = filter_mset P (mset (rows_of bs))"
  using assms
proof (induction bs)
  case (Cons b bs)
  then obtain x xs where "f b = Inr x" "mset (rows_of x) = filter_mset P (mset (rb_rows b))"
    "map_ok f bs = Inr xs" "mset (rows_of (concat xs)) = filter_mset P (mset (rows_of bs))"
    by (meson list.set_intros)
  then show ?case by simp
qed simp

text \<open>
  C5. A hash exchange delivers every row once. When the partitions are assigned to workers and
  no batch is skewed, each worker receives exactly the upstream rows whose partition is
  assigned to it: nothing is lost, nothing is sent to two workers, and rows with equal keys
  meet on the same worker.
\<close>

theorem hash_exchange_delivers_once:
  assumes "arrow_law a" "fetch_all fetch ts = Inr (batches, ls)" "resolve_column_indices refs s = Inr field_refs"
    and "\<And>b. b \<in> set batches \<Longrightarrow> evenly_hashed a it s field_refs b"
    and "length assignment = unat n" "n \<noteq> 0"
  shows "\<exists>received. execute_hash_partition_for_worker a h it fetch ts refs n assignment w = Inr received \<and>
    mset (rows_of received) =
      filter_mset (\<lambda>r. assignment ! row_partition a h s field_refs n r = w) (mset (rows_of batches))"
proof (cases batches)
  case Nil
  then show ?thesis
    using assms(1,2) by (simp add: execute_hash_partition_for_worker_def or_empty_schema_rows)
next
  case (Cons b bs)
  let ?f = "row_partition a h s field_refs n" and ?ps = "local_partitions assignment w"
  have ne: "batches \<noteq> []" "rb_schema (hd batches) = s"
    using assms(4) [of b] Cons by (simp_all add: evenly_hashed_def)
  obtain acc where acc: "fold_ok (\<lambda>batch acc.
       bind_ok (hash_partition_batch a h it batch field_refs n) (\<lambda>parts. push_partitions parts acc)) batches
       (replicate (unat n) []) = Inr acc" "length acc = unat n"
    "\<forall>p < unat n. rows_of (acc ! p) = filter (\<lambda>r. ?f r = p) (rows_of batches)"
    using partition_fold_rows [OF assms(1,6,4), of batches "replicate (unat n) []" h] by auto
  have ps: "p < unat n" if "p \<in> set ?ps" for p
    using local_partitions_less [OF that] assms(5) by simp
  define result where "result = concat (map (\<lambda>p. acc ! p) ?ps)"
  have "rows_of result = concat (map (\<lambda>p. filter (\<lambda>r. ?f r = p) (rows_of batches)) ?ps)"
    using acc(3) ps by (auto simp: result_def rows_of_concat comp_def intro!: arg_cong [where f = concat])
  then have rows: "mset (rows_of result) = filter_mset (\<lambda>r. assignment ! ?f r = w) (mset (rows_of batches))"
    using mset_local_rows [of ?f assignment "rows_of batches" w] row_partition_less [OF assms(6)] assms(5) by simp
  have "?ps = [] \<Longrightarrow> result = []" by (simp add: result_def)
  moreover have "take_partitions ?ps acc = Inr result"
    unfolding result_def by (rule take_partitions_ok) (simp add: ps acc(2))
  ultimately have "execute_hash_partition_for_worker a h it fetch ts refs n assignment w =
      Inr (if result = [] then [new_empty a s] else result)"
    using acc(1) by (simp add: execute_hash_partition_for_worker_def assms(2,3) list.case_eq_if ne Let_def)
  moreover have "rows_of (if result = [] then [new_empty a s] else result) = rows_of result"
    using assms(1) by simp
  ultimately show ?thesis using rows by metis
qed

lemma key_batch_even:
  "length ks < 1000 \<Longrightarrow> evenly_hashed a it [key_field] [0] (key_batch ks)"
  using key_batch_hashable [of a ks]
  by (simp add: evenly_hashed_def detect_skew_def skew_config_default_def num_rows_def key_batch_def)

definition two_tickets :: stage_tickets where
  "two_tickets = \<lparr>tickets = [ticket_new ''q'' (StageId 0) (WorkerId ''w1''), ticket_new ''q'' (StageId 0) (WorkerId ''w2'')]\<rparr>"

definition sample_fetch :: fetch where
  "sample_fetch t = Inr [key_batch (if tk_worker_id t = WorkerId ''w1'' then [''a'', ''bb''] else [''cc''])]"

lemma sample_fetched: "fetch_all sample_fetch two_tickets = Inr ([key_batch [''a'', ''bb''], key_batch [''cc'']], Some [key_field])"
  by (simp add: fetch_all_def two_tickets_def sample_fetch_def ticket_new_def note_schema_def num_columns_def
      key_batch_def)

lemma sample_resolved: "resolve_column_indices [unqualified_ref ''k''] [key_field] = Inr [0]"
  by (simp add: resolve_column_indices_def find_column_index_def unqualified_ref_def key_field_def position_def Let_def)

lemma sample_partition:
  assumes "length s < 10"
  shows "row_partition a length_hasher [key_field] [0] 2 [StrCell s] = length s mod 2"
proof -
  have "unat (word_of_nat (length s) :: u64) = length s"
    using assms by (simp add: unsigned_of_nat take_bit_nat_eq_self)
  then show ?thesis
    by (simp add: row_partition_def row_hash_items_def cell_of_def key_field_def hash_column_value_def
        length_hasher_def)
qed

theorem hash_exchange_delivers_once_witness:
  "\<exists>received. execute_hash_partition_for_worker plain_arrow length_hasher plain_iteration sample_fetch two_tickets
      [unqualified_ref ''k''] 2 [WorkerId ''w1'', WorkerId ''w2''] (WorkerId ''w1'') = Inr received \<and>
    mset (rows_of received) = {# [StrCell ''bb''], [StrCell ''cc''] #}"
proof -
  have "evenly_hashed plain_arrow plain_iteration [key_field] [0] b"
    if "b \<in> set [key_batch [''a'', ''bb''], key_batch [''cc'']]" for b
    using that by (auto simp: key_batch_even)
  from hash_exchange_delivers_once [OF plain_arrow_law sample_fetched sample_resolved this,
      of "[WorkerId ''w1'', WorkerId ''w2'']" 2 length_hasher "WorkerId ''w1''"]
  show ?thesis by (simp add: key_batch_def sample_partition)
qed


definition sample_flight :: flight where
  "sample_flight = \<lparr>pool_endpoint = (\<lambda>w. Some (worker_name w)),
     fetch_results = (\<lambda>endpoint tenant b. Inr [key_batch (if endpoint = ''w1'' then [''a'', ''bb''] else [''cc''])])\<rparr>"

definition sample_runtime :: distributed_exchange_runtime where
  "sample_runtime = register_ticket ''q'' (StageId 0) (WorkerId ''w2'') [2]
     (register_ticket ''q'' (StageId 0) (WorkerId ''w1'') [1] (der_new ''t''))"

definition sample_edge :: exchange_edge where
  "sample_edge = \<lparr>edge_id = ExchangeId 0, kind = HashPartition [unqualified_ref ''k''] 2,
     from_stage = StageId 0, to_stage = StageId 1, partition_to_worker = [WorkerId ''w1'', WorkerId ''w2'']\<rparr>"

lemma sample_gathered:
  "distributed_gather a sample_flight sample_runtime ''q'' (StageId 0) [WorkerId ''w1'', WorkerId ''w2''] =
     Inr [key_batch [''a'', ''bb''], key_batch [''cc'']]"
  by (simp add: distributed_gather_def gather_results_def fetch_from_worker_def get_ticket_def sample_runtime_def
      register_ticket_def der_new_def ticket_key_def get_worker_endpoint_def sample_flight_def or_empty_schema_def)


end
