(* ===== verification/Execution_Levels.thy ===== *)
theory Execution_Levels
  imports Admission Exchange_Runtime
begin

text \<open>
  The error types of the executor (\<^verbatim>\<open>ldp/executor/mod.rs\<close> and
  \<^verbatim>\<open>ldp/executor/coordinator.rs\<close>) and \<open>LdpCoordinator::compute_execution_levels\<close>, which groups
  the stages of a plan into levels that the coordinator runs one after the other, the stages
  of a level concurrently. The iteration order of the hash map of in-degrees is an argument.
\<close>

section \<open>Errors\<close>

datatype execution_error =
    ExecStageNotFound stage_id
  | StageFailed stage_id string
  | ExecExchangeFailed string
  | ExecInvalidPlan string

fun execution_error_display :: "execution_error \<Rightarrow> string" where
  "execution_error_display (ExecStageNotFound s) = ''Stage '' @ stage_display s @ '' not found''"
| "execution_error_display (StageFailed s m) = ''Stage '' @ stage_display s @ '' execution failed: '' @ m"
| "execution_error_display (ExecExchangeFailed m) = ''Exchange failed: '' @ m"
| "execution_error_display (ExecInvalidPlan m) = ''Invalid plan: '' @ m"

datatype coordinator_error =
    QueryRejected admission_error
  | QueryTransformFailed string
  | PlanningFailed pipeline_error
  | ExecutionFailed execution_error
  | ConnectionFailed string
  | WorkerFailed worker_id string
  | QueryTimeout nat
  | InvalidConfig string
  | CoordinatorInvalidPlan string

text \<open>A run of the coordinator returns an error, or stops with a panic of its thread.\<close>

datatype coordinator_stop = CoordinatorFailed coordinator_error | CoordinatorPanic

section \<open>Levels\<close>

text \<open>\<^verbatim>\<open>{:?}\<close> of a vector of stage identifiers.\<close>

fun stage_debug :: "stage_id \<Rightarrow> string" where
  "stage_debug (StageId n) = ''StageId('' @ show_u32 n @ '')''"

type_synonym degree_order = "(stage_id \<rightharpoonup> nat) \<Rightarrow> (stage_id \<times> nat) list"

definition degree_order_law :: "degree_order \<Rightarrow> bool" where
  "degree_order_law order \<longleftrightarrow>
     (\<forall>m. finite (dom m) \<longrightarrow> set (order m) = Map.graph m \<and> distinct (map fst (order m)))"

definition count_in_degrees :: "ldp_plan \<Rightarrow> stage_id \<rightharpoonup> nat" where
  "count_in_degrees p =
     fold (\<lambda>e deg. (case deg (to_stage e) of None \<Rightarrow> deg | Some n \<Rightarrow> deg(to_stage e \<mapsto> n + 1)))
       (edges p) (fold (\<lambda>s deg. deg(stage_id s \<mapsto> 0)) (stages p) Map.empty)"

text \<open>
  The loop over the edges that leave a finished stage. The decrement is on an unsigned
  number; below zero it wraps, or panics where overflow is checked, and the model stops.
\<close>

fun release_dependents ::
  "stage_id list \<Rightarrow> (stage_id \<rightharpoonup> nat) \<Rightarrow> stage_id list \<Rightarrow> coordinator_stop + (stage_id \<rightharpoonup> nat) \<times> stage_id list" where
  "release_dependents [] deg queue = Inr (deg, queue)"
| "release_dependents (d # ds) deg queue =
     (case deg d of
        None \<Rightarrow> release_dependents ds deg queue
      | Some n \<Rightarrow>
          if n = 0 then Inl CoordinatorPanic
          else release_dependents ds (deg(d \<mapsto> n - 1)) (if n - 1 = 0 then queue @ [d] else queue))"

fun process_level ::
  "ldp_plan \<Rightarrow> nat \<Rightarrow> stage_id list \<Rightarrow> (stage_id \<rightharpoonup> nat) \<Rightarrow> stage_id list \<Rightarrow>
   coordinator_stop + stage_id list \<times> (stage_id \<rightharpoonup> nat) \<times> stage_id list" where
  "process_level p 0 level deg queue = Inr (level, deg, queue)"
| "process_level p (Suc k) level deg [] = Inr (level, deg, [])"
| "process_level p (Suc k) level deg (s # queue) =
     bind_ok (release_dependents (map to_stage (filter (\<lambda>e. from_stage e = s) (edges p))) deg queue)
       (\<lambda>(deg', queue'). process_level p k (level @ [s]) deg' queue')"

text \<open>
  The loop over the levels ends because every decrement lowers the sum of the in-degrees and
  adds at most one stage to the queue.
\<close>

definition degree_sum :: "ldp_plan \<Rightarrow> (stage_id \<rightharpoonup> nat) \<Rightarrow> nat" where
  "degree_sum p deg = (\<Sum>s\<in>set (map to_stage (edges p)). case deg s of None \<Rightarrow> 0 | Some n \<Rightarrow> n)"

lemma release_dependents_sum:
  "release_dependents ds deg queue = Inr (deg', queue') \<Longrightarrow> set ds \<subseteq> set (map to_stage (edges p)) \<Longrightarrow>
   degree_sum p deg' + length queue' \<le> degree_sum p deg + length queue"
proof (induction ds arbitrary: deg queue)
  case (Cons d ds)
  show ?case
  proof (cases "deg d")
    case None
    with Cons show ?thesis by simp
  next
    case (Some n)
    let ?S = "set (map to_stage (edges p))"
    from Cons.prems Some have n: "n \<noteq> 0" "d \<in> ?S" by (auto split: if_splits)
    have "(\<Sum>s\<in>?S. case (deg(d \<mapsto> n - 1)) s of None \<Rightarrow> 0 | Some n \<Rightarrow> n) < (\<Sum>s\<in>?S. case deg s of None \<Rightarrow> 0 | Some n \<Rightarrow> n)"
      using n Some by (intro sum_strict_mono_ex1) auto
    then have "degree_sum p (deg(d \<mapsto> n - 1)) < degree_sum p deg" unfolding degree_sum_def .
    moreover have "degree_sum p deg' + length queue' \<le>
        degree_sum p (deg(d \<mapsto> n - 1)) + length (if n - 1 = 0 then queue @ [d] else queue)"
    proof (rule Cons.IH)
      show "release_dependents ds (deg(d \<mapsto> n - 1)) (if n - 1 = 0 then queue @ [d] else queue) =
          Inr (deg', queue')"
        using Cons.prems(1) Some n(1) by (simp del: One_nat_def fun_upd_apply)
    qed (use Cons.prems in simp)
    ultimately show ?thesis by (simp split: if_splits)
  qed
qed simp

lemma release_dependents_queue:
  "release_dependents ds deg queue = Inr (deg', queue') \<Longrightarrow> \<exists>new. queue' = queue @ new"
proof (induction ds arbitrary: deg queue)
  case (Cons d ds)
  show ?case
  proof (cases "deg d")
    case None
    with Cons show ?thesis by simp
  next
    case (Some n)
    with Cons.prems have "release_dependents ds (deg(d \<mapsto> n - 1)) (if n - 1 = 0 then queue @ [d] else queue) =
        Inr (deg', queue')" by (auto split: if_splits)
    from Cons.IH [OF this] show ?thesis by (auto split: if_splits)
  qed
qed simp

lemma process_level_sum:
  "process_level p k level deg queue = Inr (level', deg', queue') \<Longrightarrow>
   degree_sum p deg' + length queue' + min k (length queue) \<le> degree_sum p deg + length queue"
proof (induction p k level deg queue rule: process_level.induct)
  case (3 p k level deg s queue)
  from 3(2) obtain deg1 queue1 where
    r: "release_dependents (map to_stage (filter (\<lambda>e. from_stage e = s) (edges p))) deg queue = Inr (deg1, queue1)"
    and l: "process_level p k (level @ [s]) deg1 queue1 = Inr (level', deg', queue')"
    by auto
  have "degree_sum p deg1 + length queue1 \<le> degree_sum p deg + length queue"
    by (rule release_dependents_sum [OF r]) auto
  moreover have "length queue \<le> length queue1" using release_dependents_queue [OF r] by auto
  moreover note 3(1) [OF r refl l]
  ultimately show ?case by simp
qed auto

function levels_loop ::
  "ldp_plan \<Rightarrow> (stage_id \<rightharpoonup> nat) \<Rightarrow> stage_id list \<Rightarrow> stage_id list list \<Rightarrow> nat \<Rightarrow>
   coordinator_stop + stage_id list list \<times> nat \<times> (stage_id \<rightharpoonup> nat)" where
  "levels_loop p deg queue levels processed =
     (if queue = [] then Inr (levels, processed, deg)
      else bind_ok (process_level p (length queue) [] deg queue) (\<lambda>(level, deg', queue').
        levels_loop p deg' queue' (levels @ [level]) (processed + length level)))"
  by pat_completeness auto
termination
proof (relation "measure (\<lambda>(p, deg, queue, levels, processed). degree_sum p deg + length queue)", goal_cases)
  case (2 p deg queue levels processed x level y deg' queue')
  then have "process_level p (length queue) [] deg queue = Inr (level, deg', queue')" by simp
  from process_level_sum [OF this] 2(1) show ?case by (cases queue) auto
qed simp

declare levels_loop.simps [simp del]

definition compute_execution_levels ::
  "degree_order \<Rightarrow> ldp_plan \<Rightarrow> coordinator_stop + stage_id list list" where
  "compute_execution_levels order p =
     (let in_degree = count_in_degrees p;
          queue = map fst (filter (\<lambda>(s, n). n = 0) (order in_degree))
      in bind_ok (levels_loop p in_degree queue [] 0) (\<lambda>(levels, processed, deg).
           if processed < length (stages p)
           then Inl (CoordinatorFailed (CoordinatorInvalidPlan
             (''Cycle detected in stage dependencies. Stages involved: ['' @
              join_with '', '' (map (\<lambda>(s, n). stage_debug s) (filter (\<lambda>(s, n). n > 0) (order deg))) @ '']'')))
           else Inr levels))"

section \<open>Correctness\<close>

lemma count_in_degrees_eq: "count_in_degrees p = initial_in_degree p"
proof
  fix s
  let ?count = "\<lambda>e deg. (case deg (to_stage e) of None \<Rightarrow> deg | Some n \<Rightarrow> deg(to_stage e \<mapsto> n + 1))"
  have edges: "fold ?count es deg s = map_option (\<lambda>n. n + pending es {} s) (deg s)" for es and deg :: "stage_id \<rightharpoonup> nat"
    by (induction es arbitrary: deg)
      (auto simp: pending_def option.map_comp option.map_ident comp_def split: option.split)
  have zeros: "fold (\<lambda>s deg. deg(stage_id s \<mapsto> 0)) ss deg s =
      (if s \<in> stage_id ` set ss then Some 0 else deg s)" for ss and deg :: "stage_id \<rightharpoonup> nat"
    by (induction ss arbitrary: deg) auto
  show "count_in_degrees p s = initial_in_degree p s"
    by (simp add: count_in_degrees_def edges zeros initial_in_degree_eq stage_ids_def)
qed

text \<open>
  As long as no in-degree is decremented below zero, releasing is the loop of
  \<open>topological_order\<close>.
\<close>

lemma release_is_topo_release:
  assumes "\<And>d n. deg d = Some n \<Longrightarrow> count_list ds d \<le> n" "set ds \<inter> visited = {}"
  shows "release_dependents ds deg queue = Inr (topo_release visited ds (deg, queue))"
  using assms
proof (induction ds arbitrary: deg queue)
  case (Cons d ds)
  show ?case
  proof (cases "deg d")
    case None
    have "count_list ds d' \<le> n" if "deg d' = Some n" for d' n
      using Cons.prems(1) [OF that] None that by (cases "d' = d") auto
    with Cons None show ?thesis by simp
  next
    case (Some n)
    have "count_list ds d' \<le> m" if "(deg(d \<mapsto> n - 1)) d' = Some m" for d' m
      using that Cons.prems(1) [of d'] Some by (cases "d' = d") auto
    moreover from Cons.prems(2) have "set ds \<inter> visited = {}" "d \<notin> visited" by auto
    ultimately have "release_dependents ds (deg(d \<mapsto> n - 1)) q =
        Inr (topo_release visited ds (deg(d \<mapsto> n - 1), q))" for q by (intro Cons.IH)
    moreover from Cons.prems(1) [OF Some] have "n \<noteq> 0" by simp
    ultimately show ?thesis using Some \<open>d \<notin> visited\<close> by (simp del: One_nat_def)
  qed
qed simp

lemma release_dependents_distinct:
  assumes "release_dependents ds deg queue = Inr (deg', queue')" "distinct queue"
    and "\<And>d n. deg d = Some n \<Longrightarrow> count_list ds d \<le> n" "set queue \<inter> set ds = {}"
  shows "distinct queue'"
  using assms
proof (induction ds arbitrary: deg queue)
  case (Cons d ds)
  show ?case
  proof (cases "deg d")
    case None
    have "count_list ds d' \<le> n" if "deg d' = Some n" for d' n
      using Cons.prems(3) [OF that] None that by (cases "d' = d") auto
    with Cons None show ?thesis by auto
  next
    case (Some n)
    let ?queue = "if n - 1 = 0 then queue @ [d] else queue"
    from Cons.prems(3) [OF Some] have n: "n \<noteq> 0" "count_list ds d \<le> n - 1" by simp_all
    show ?thesis
    proof (rule Cons.IH)
      show "release_dependents ds (deg(d \<mapsto> n - 1)) ?queue = Inr (deg', queue')"
        using Cons.prems(1) Some n(1) by (simp del: One_nat_def fun_upd_apply)
      show "distinct ?queue" using Cons.prems(2,4) by auto
      show "count_list ds d' \<le> m" if "(deg(d \<mapsto> n - 1)) d' = Some m" for d' m
        using that Cons.prems(3) [of d'] n(2) by (cases "d' = d") auto
      show "set ?queue \<inter> set ds = {}"
        using Cons.prems(4) n(2) count_list_0_iff [of ds d] by auto
    qed
  qed
qed simp

definition level_inv ::
  "ldp_plan \<Rightarrow> stage_id list \<Rightarrow> stage_id list \<Rightarrow> (stage_id \<rightharpoonup> nat) \<Rightarrow> bool" where
  "level_inv p queue result deg \<longleftrightarrow> topo_inv p queue result deg \<and> distinct (result @ queue)"

lemma level_step:
  assumes inv: "level_inv p (s # queue) result deg" and edges: "edge_rel p \<subseteq> stage_ids p \<times> stage_ids p"
  obtains deg' new where "release_dependents (downstream_stages p s) deg queue = Inr (deg', queue @ new)"
    and "level_inv p (queue @ new) (result @ [s]) deg'"
proof -
  let ?ds = "downstream_stages p s" and ?done = "set (result @ [s])"
  from inv have t: "topo_inv p (s # queue) result deg" and s: "s \<notin> set result"
    and dist: "distinct (result @ s # queue)" by (auto simp: level_inv_def)
  from t have deg: "\<And>d. deg d = (if d \<in> stage_ids p then Some (pending (edges p) (set result) d) else None)"
    and ready: "set (s # queue) \<union> set result = {d \<in> stage_ids p. pending (edges p) (set result) d = 0}"
    by (simp_all add: topo_inv_def)
  have split: "pending (edges p) (set result) d = pending (edges p) ?done d + count_list ?ds d" for d
    using pending_insert [OF s] by (simp add: count_downstream)
  have count: "count_list ?ds d \<le> n" if "deg d = Some n" for d n
    using that split [of d] by (simp add: deg split: if_splits)
  have fresh: "d \<notin> set ?ds" if "d \<in> set (s # queue) \<union> set result" for d
  proof -
    from that ready have "pending (edges p) (set result) d = 0" by blast
    with split [of d] show ?thesis by (simp add: count_list_0_iff)
  qed
  obtain deg' queue' where rel: "topo_release ?done ?ds (deg, queue) = (deg', queue')" by (metis surj_pair)
  have "set ?ds \<inter> ?done = {}" using fresh by auto
  with count have r: "release_dependents ?ds deg queue = Inr (deg', queue')"
    using release_is_topo_release [of deg ?ds ?done queue] rel by simp
  from release_dependents_queue [OF this] obtain new where new: "queue' = queue @ new" by blast
  have t': "topo_inv p queue' (result @ [s]) deg'" by (rule topo_inv_step [OF t s edges rel])
  have "distinct queue'"
    using release_dependents_distinct [OF r _ count] dist fresh by auto
  moreover have "set new \<inter> set (result @ [s]) = {}"
  proof -
    have "set new \<subseteq> set ?ds" using topo_release_queue [of ?done ?ds deg queue] rel dist \<open>distinct queue'\<close>
      by (auto simp: new)
    then show ?thesis using fresh by auto
  qed
  ultimately have "level_inv p queue' (result @ [s]) deg'"
    using t' dist by (auto simp: level_inv_def new)
  with r that show thesis by (simp add: new)
qed

lemma process_level_inv:
  assumes "edge_rel p \<subseteq> stage_ids p \<times> stage_ids p"
  shows "level_inv p (xs @ ys) result deg \<Longrightarrow>
    \<exists>deg' new. process_level p (length xs) level deg (xs @ ys) = Inr (level @ xs, deg', ys @ new) \<and>
      level_inv p (ys @ new) (result @ xs) deg'"
proof (induction xs arbitrary: ys result deg level)
  case (Cons s xs)
  from Cons.prems have "level_inv p (s # (xs @ ys)) result deg" by simp
  from level_step [OF this assms] obtain deg1 new1 where
    r: "release_dependents (downstream_stages p s) deg (xs @ ys) = Inr (deg1, (xs @ ys) @ new1)"
    and inv: "level_inv p ((xs @ ys) @ new1) (result @ [s]) deg1" .
  from inv Cons.IH [of "ys @ new1" "result @ [s]" deg1 "level @ [s]"] obtain deg' new where
    "process_level p (length xs) (level @ [s]) deg1 (xs @ ys @ new1) = Inr ((level @ [s]) @ xs, deg', (ys @ new1) @ new)"
    "level_inv p ((ys @ new1) @ new) ((result @ [s]) @ xs) deg'" by auto
  with r show ?case by (auto simp: downstream_stages_def)
qed (auto simp: level_inv_def)

text \<open>
  Every level holds exactly the stages that are not in an earlier level and read only from
  stages of earlier levels.
\<close>

definition ready_after :: "ldp_plan \<Rightarrow> stage_id set \<Rightarrow> stage_id set" where
  "ready_after p done =
     {s \<in> stage_id ` set (stages p). s \<notin> done \<and> (\<forall>e\<in>set (edges p). to_stage e = s \<longrightarrow> from_stage e \<in> done)}"

definition layered :: "ldp_plan \<Rightarrow> stage_id list list \<Rightarrow> bool" where
  "layered p levels \<longleftrightarrow> distinct (concat levels) \<and>
     (\<forall>i < length levels. levels ! i \<noteq> [] \<and> set (levels ! i) = ready_after p (set (concat (take i levels))))"

lemma level_inv_ready: "level_inv p queue result deg \<Longrightarrow> set queue = ready_after p (set result)"
  by (auto simp: level_inv_def topo_inv_def ready_after_def pending_0_iff stage_ids_def)

lemma layered_snoc:
  assumes "layered p levels" "level_inv p queue (concat levels) deg" "queue \<noteq> []"
  shows "layered p (levels @ [queue])"
  using assms level_inv_ready [OF assms(2)]
  by (auto simp: layered_def level_inv_def nth_append less_Suc_eq)

lemma levels_loop_inv:
  "edge_rel p \<subseteq> stage_ids p \<times> stage_ids p \<Longrightarrow> level_inv p queue (concat levels) deg \<Longrightarrow> layered p levels \<Longrightarrow>
   processed = length (concat levels) \<Longrightarrow>
   \<exists>levels' deg'. levels_loop p deg queue levels processed = Inr (levels', length (concat levels'), deg') \<and>
     level_inv p [] (concat levels') deg' \<and> layered p levels'"
proof (induction p deg queue levels processed rule: levels_loop.induct)
  case (1 p deg queue levels processed)
  show ?case
  proof (cases "queue = []")
    case True
    then have "levels_loop p deg queue levels processed = Inr (levels, processed, deg)"
      by (subst levels_loop.simps) simp
    with 1(3-) True show ?thesis by auto
  next
    case False
    from process_level_inv [OF 1(2), of queue "[]" "concat levels" deg "[]"] 1(3) obtain deg1 queue1 where
      r: "process_level p (length queue) [] deg queue = Inr (queue, deg1, queue1)"
      and inv: "level_inv p queue1 (concat (levels @ [queue])) deg1" by auto
    have "processed + length queue = length (concat (levels @ [queue]))" using 1(5) by simp
    from 1(1) [OF False r refl refl 1(2) inv layered_snoc [OF 1(4,3) False] this]
    show ?thesis using False r by (simp add: levels_loop.simps [of p deg queue])
  qed
qed

lemma initial_level:
  assumes "degree_order_law order"
  shows "level_inv p (map fst (filter (\<lambda>(s, n). n = 0) (order (count_in_degrees p)))) [] (count_in_degrees p)"
proof -
  let ?deg = "count_in_degrees p"
  have deg: "?deg s = (if s \<in> stage_ids p then Some (pending (edges p) {} s) else None)" for s
    by (simp add: count_in_degrees_eq initial_in_degree_eq)
  have "dom ?deg = stage_ids p" by (auto simp: deg dom_def)
  then have "finite (dom ?deg)" by (simp add: stage_ids_def)
  with assms have order: "set (order ?deg) = Map.graph ?deg" "distinct (map fst (order ?deg))"
    by (auto simp: degree_order_law_def)
  have "distinct (map fst (filter (\<lambda>(s, n). n = 0) (order ?deg)))"
    using order(2) by (rule distinct_map_filter)
  moreover have "set (map fst (filter (\<lambda>(s, n). n = 0) (order ?deg))) = {s. ?deg s = Some 0}"
    by (force simp: order(1) Map.graph_def)
  moreover have "{s. ?deg s = Some 0} = {s \<in> stage_ids p. pending (edges p) {} s = 0}"
    by (auto simp: deg)
  ultimately show ?thesis
    by (simp add: level_inv_def topo_inv_def deps_before_def deg del: set_map)
qed

lemma execution_levels:
  assumes "degree_order_law order" "edge_rel p \<subseteq> stage_ids p \<times> stage_ids p" "distinct (map stage_id (stages p))"
  shows "acyclic (edge_rel p) \<Longrightarrow> \<exists>levels. compute_execution_levels order p = Inr levels \<and> layered p levels \<and>
      set (concat levels) = stage_ids p"
    and "\<not> acyclic (edge_rel p) \<Longrightarrow>
      \<exists>m. compute_execution_levels order p = Inl (CoordinatorFailed (CoordinatorInvalidPlan m))"
proof -
  have "layered p []" by (simp add: layered_def)
  with levels_loop_inv [OF assms(2), of _ "[]"] initial_level [OF assms(1), of p]
  obtain levels deg where
    loop: "levels_loop p (count_in_degrees p) (map fst (filter (\<lambda>(s, n). n = 0) (order (count_in_degrees p)))) [] 0 =
      Inr (levels, length (concat levels), deg)"
    and inv: "level_inv p [] (concat levels) deg" and lay: "layered p levels" by fastforce
  from inv have t: "topo_inv p [] (concat levels) deg" and dist: "distinct (concat levels)"
    by (simp_all add: level_inv_def)
  then have set: "set (concat levels) = {s \<in> stage_ids p. pending (edges p) (set (concat levels)) s = 0}"
    by (simp add: topo_inv_def)
  have all: "length (concat levels) < length (stages p) \<longleftrightarrow> set (concat levels) \<noteq> stage_ids p"
  proof -
    have "length (concat levels) = card (set (concat levels))" by (rule distinct_card [OF dist, symmetric])
    moreover have "length (stages p) = card (stage_ids p)"
      using distinct_card [OF assms(3)] by (simp add: stage_ids_def)
    moreover have "set (concat levels) \<subseteq> stage_ids p" using set by blast
    moreover have "finite (stage_ids p)" by (simp add: stage_ids_def)
    ultimately show ?thesis
      using psubset_card_mono [of "stage_ids p" "set (concat levels)"] by auto
  qed
  have acyclic: "acyclic (edge_rel p)" if "set (concat levels) = stage_ids p"
    using t dist assms(2) that by (intro deps_before_acyclic [of p "concat levels"]) (simp_all add: topo_inv_def)
  show "\<exists>levels. compute_execution_levels order p = Inr levels \<and> layered p levels \<and>
      set (concat levels) = stage_ids p" if "acyclic (edge_rel p)"
  proof -
    have "stage_ids p \<subseteq> set (concat levels)"
      by (rule ready_closed_complete [OF assms(2) that]) (use set in blast)
    with set have "set (concat levels) = stage_ids p" by blast
    with all loop lay show ?thesis by (simp add: compute_execution_levels_def Let_def)
  qed
  show "\<exists>m. compute_execution_levels order p = Inl (CoordinatorFailed (CoordinatorInvalidPlan m))"
    if "\<not> acyclic (edge_rel p)"
    using that acyclic all loop by (auto simp: compute_execution_levels_def Let_def)
qed

text \<open>
  C6. \<open>compute_execution_levels\<close> on a plan with unique stage numbers whose edges join stages
  of the plan never underflows an in-degree. Without a cycle it returns levels that hold
  every stage once, and a level is exactly the set of stages that are not in an earlier level
  and read only from earlier levels: no stage starts before its inputs are complete, and
  none waits longer than it has to. With a cycle it returns \<open>InvalidPlan\<close>.
\<close>

theorem compute_execution_levels_correct:
  assumes "degree_order_law order" "distinct (map stage_id (stages p))"
    and "\<forall>e\<in>set (edges p). from_stage e \<in> stage_id ` set (stages p) \<and> to_stage e \<in> stage_id ` set (stages p)"
  shows "if acyclic (edge_rel p)
    then \<exists>levels. compute_execution_levels order p = Inr levels \<and>
      distinct (concat levels) \<and> set (concat levels) = stage_id ` set (stages p) \<and>
      (\<forall>i < length levels. levels ! i \<noteq> [] \<and> set (levels ! i) = ready_after p (set (concat (take i levels))))
    else \<exists>m. compute_execution_levels order p = Inl (CoordinatorFailed (CoordinatorInvalidPlan m))"
proof -
  have "edge_rel p \<subseteq> stage_ids p \<times> stage_ids p" using assms(3) by (auto simp: edge_rel_def stage_ids_def)
  from execution_levels [OF assms(1) this assms(2)] show ?thesis
    unfolding layered_def stage_ids_def by (cases "acyclic (edge_rel p)") auto
qed

text \<open>An iteration order: the entries that are present, in the order of the stage numbers.\<close>

definition ascending_order :: degree_order where
  "ascending_order m =
     map (\<lambda>k. (StageId (of_nat k), the (m (StageId (of_nat k))))) (sorted_list_of_set (stage_index ` dom m))"

lemma ascending_order_law: "degree_order_law ascending_order"
  unfolding degree_order_law_def
proof (intro allI impI conjI)
  fix m :: "stage_id \<rightharpoonup> nat" assume fin: "finite (dom m)"
  have inv: "StageId (of_nat (stage_index s)) = s" for s by (cases s) (simp add: stage_index_def)
  have "set (ascending_order m) = (\<lambda>s. (s, the (m s))) ` dom m"
    using fin by (simp add: ascending_order_def image_image inv)
  also have "\<dots> = Map.graph m" by (force simp: Map.graph_def)
  finally show "set (ascending_order m) = Map.graph m" .
  have "inj_on (\<lambda>k. StageId (of_nat k)) (set (sorted_list_of_set (stage_index ` dom m)))"
    using fin by (intro inj_onI) (auto simp del: stage_id.inject dest!: arg_cong [of "StageId _" _ stage_index] simp: inv)
  then show "distinct (map fst (ascending_order m))"
    by (simp add: ascending_order_def distinct_map comp_def)
qed

theorem compute_execution_levels_correct_witness:
  "\<exists>levels. compute_execution_levels ascending_order Plan_Graph.sample_plan = Inr levels \<and>
     set (concat levels) = {StageId 0, StageId 1, StageId 2}"
proof -
  have plan: "distinct (map stage_id (stages Plan_Graph.sample_plan))"
    "\<forall>e\<in>set (edges Plan_Graph.sample_plan). from_stage e \<in> stage_id ` set (stages Plan_Graph.sample_plan) \<and>
       to_stage e \<in> stage_id ` set (stages Plan_Graph.sample_plan)"
    "stage_id ` set (stages Plan_Graph.sample_plan) = {StageId 0, StageId 1, StageId 2}"
    by (auto simp: Plan_Graph.sample_plan_def Plan_Graph.sample_stage_def stage_new_def Plan_Graph.sample_edge_def)
  have "acyclic (edge_rel Plan_Graph.sample_plan)"
    by (rule acyclic_by_rank [of _ "\<lambda>s. if s = StageId 2 then 1 else 0"])
      (auto simp: edge_rel_def Plan_Graph.sample_plan_def Plan_Graph.sample_edge_def)
  with compute_execution_levels_correct [OF ascending_order_law plan(1,2)] show ?thesis
    unfolding plan(3) by auto
qed

end
