(* ===== verification/Stage_Executor.thy ===== *)
theory Stage_Executor
  imports Execution_Levels
begin

text \<open>
  The monitor of \<^verbatim>\<open>ldp/executor/monitor.rs\<close> and \<open>LocalStageExecutor\<close> of
  \<^verbatim>\<open>ldp/executor/stage.rs\<close>: a stage is run on each of its workers, with the exchanged tables
  registered as temporary tables of the worker's database, and its output is stored under the
  identifiers of the tickets. DuckDB is an argument: the answer of a query from the catalog
  of a worker and the temporary tables of the session, and the failures of opening,
  borrowing and registering. Streaming execution is not modelled.
\<close>

section \<open>The monitor\<close>

text \<open>Durations are in nanoseconds; the time since the start of the monitor is an argument.\<close>

datatype limit_exceeded_error =
    LimitTimeout nat nat
  | LimitMemory u64 u64
  | LimitRowsScan u64 u64
  | LimitRowsOutput u64 u64
  | LimitBytesOutput u64 u64

definition show_u64 :: "u64 \<Rightarrow> string" where
  "show_u64 n = show_nat (unat n)"

fun limit_exceeded_display :: "(nat \<Rightarrow> string) \<Rightarrow> limit_exceeded_error \<Rightarrow> string" where
  "limit_exceeded_display dur (LimitTimeout t l) = ''Query timeout exceeded: '' @ dur t @ '' > '' @ dur l"
| "limit_exceeded_display dur (LimitMemory n l) =
     ''Memory limit exceeded: '' @ show_u64 n @ '' bytes > '' @ show_u64 l @ '' bytes''"
| "limit_exceeded_display dur (LimitRowsScan n l) = ''Rows scan limit exceeded: '' @ show_u64 n @ '' > '' @ show_u64 l"
| "limit_exceeded_display dur (LimitRowsOutput n l) = ''Output rows limit exceeded: '' @ show_u64 n @ '' > '' @ show_u64 l"
| "limit_exceeded_display dur (LimitBytesOutput n l) = ''Output bytes limit exceeded: '' @ show_u64 n @ '' > '' @ show_u64 l"

record stage_execution_monitor =
  mon_limits :: stage_limits
  mon_rows_scanned :: u64
  mon_rows_produced :: u64
  mon_bytes_produced :: u64
  mon_cancelled :: bool

definition monitor_new :: "stage_limits \<Rightarrow> stage_execution_monitor" where
  "monitor_new lim =
     \<lparr>mon_limits = lim, mon_rows_scanned = 0, mon_rows_produced = 0, mon_bytes_produced = 0, mon_cancelled = False\<rparr>"

definition increment_rows_scanned :: "u64 \<Rightarrow> stage_execution_monitor \<Rightarrow> stage_execution_monitor" where
  "increment_rows_scanned n m = m\<lparr>mon_rows_scanned := mon_rows_scanned m + n\<rparr>"

definition increment_rows_produced :: "u64 \<Rightarrow> stage_execution_monitor \<Rightarrow> stage_execution_monitor" where
  "increment_rows_produced n m = m\<lparr>mon_rows_produced := mon_rows_produced m + n\<rparr>"

definition increment_bytes_produced :: "u64 \<Rightarrow> stage_execution_monitor \<Rightarrow> stage_execution_monitor" where
  "increment_bytes_produced n m = m\<lparr>mon_bytes_produced := mon_bytes_produced m + n\<rparr>"

definition check_limits :: "nat \<Rightarrow> stage_execution_monitor \<Rightarrow> limit_exceeded_error + unit" where
  "check_limits elapsed m =
     (let lim = mon_limits m; timeout = unat (timeout_ms lim) * 1000000
      in if mon_cancelled m then Inl (LimitTimeout elapsed 0)
         else if elapsed > timeout then Inl (LimitTimeout elapsed timeout)
         else if mon_rows_scanned m > max_rows_output lim
         then Inl (LimitRowsScan (mon_rows_scanned m) (max_rows_output lim))
         else if mon_rows_produced m > max_rows_output lim
         then Inl (LimitRowsOutput (mon_rows_produced m) (max_rows_output lim))
         else if mon_bytes_produced m > max_bytes_output lim
         then Inl (LimitBytesOutput (mon_bytes_produced m) (max_bytes_output lim))
         else Inr ())"

definition monitor_cancel :: "stage_execution_monitor \<Rightarrow> stage_execution_monitor" where
  "monitor_cancel m = m\<lparr>mon_cancelled := True\<rparr>"

section \<open>DuckDB\<close>

type_synonym tables = "string \<rightharpoonup> record_batch list"

datatype query_outcome =
    PrepareFailed string
  | QueryFailed string
  | Rows "arrow_field list" "record_batch list"

text \<open>
  The surroundings of an executor. A registration that fails leaves the table in some state.
  The pool of a worker hands out a session; its temporary tables stay until they are dropped.
\<close>

record 'db local_env =
  env_arrow :: arrow
  env_hasher :: hasher
  env_iteration :: iteration
  env_pool_error :: "'db \<Rightarrow> string option"
  env_open_error :: "string option"
  env_register_failure :: "string \<Rightarrow> record_batch list \<Rightarrow> (string \<times> record_batch list option) option"
  env_query :: "'db option \<Rightarrow> tables \<Rightarrow> string \<Rightarrow> query_outcome"
  env_memory_size :: "record_batch \<Rightarrow> nat"
  env_input_order :: "tables \<Rightarrow> (string \<times> record_batch list) list"
  env_duration :: "nat \<Rightarrow> string"
  env_elapsed :: "stage_id \<Rightarrow> worker_id \<Rightarrow> nat"

record 'db session =
  ses_catalog :: 'db
  ses_temps :: tables

section \<open>The local executor\<close>

record 'db local_stage_executor =
  ex_outputs :: "string \<rightharpoonup> record_batch list"
  ex_databases :: "worker_id \<rightharpoonup> 'db session"

definition executor_with_databases :: "(worker_id \<rightharpoonup> 'db session) \<Rightarrow> 'db local_stage_executor" where
  "executor_with_databases dbs = \<lparr>ex_outputs = Map.empty, ex_databases = dbs\<rparr>"

text \<open>An error of a stage, or a panic while its output is partitioned.\<close>

datatype stage_stop = StageStopped stage_execution_error | StagePanic

fun register_inputs ::
  "'db local_env \<Rightarrow> (string \<times> record_batch list) list \<Rightarrow> tables \<Rightarrow> string list \<Rightarrow>
   tables \<times> (stage_execution_error + string list)" where
  "register_inputs env [] temps registered = (temps, Inr registered)"
| "register_inputs env ((t, batches) # rest) temps registered =
     (if batches = [] then register_inputs env rest temps registered
      else case env_register_failure env t batches of
             Some (e, left) \<Rightarrow> (temps(t := left),
               Inl (StageExecutionFailed (''Failed to register table '' @ CHR 0x27 # t @ CHR 0x27 # '': '' @ e)))
           | None \<Rightarrow> register_inputs env rest (temps(t \<mapsto> batches)) (registered @ [t]))"

definition run_sql_with_inputs ::
  "'db local_env \<Rightarrow> 'db option \<Rightarrow> tables \<Rightarrow> string \<Rightarrow> tables \<Rightarrow>
   tables \<times> (stage_execution_error + record_batch list)" where
  "run_sql_with_inputs env cat temps sql ins =
     (case register_inputs env (env_input_order env ins) temps [] of
        (temps', Inl e) \<Rightarrow> (temps', Inl e)
      | (temps', Inr registered) \<Rightarrow>
          (fold (\<lambda>t m. m(t := None)) registered temps',
           (case env_query env cat temps' sql of
              PrepareFailed e \<Rightarrow> Inl (StageExecutionFailed (''Failed to prepare SQL: '' @ e))
            | QueryFailed e \<Rightarrow> Inl (StageExecutionFailed (''Failed to execute SQL: '' @ e))
            | Rows schema batches \<Rightarrow>
                Inr (if batches = [] then [new_empty (env_arrow env) schema] else batches))))"

definition total_num_rows :: "record_batch list \<Rightarrow> u64" where
  "total_num_rows batches = (\<Sum>b\<leftarrow>batches. of_nat (num_rows b))"

definition total_num_bytes :: "'db local_env \<Rightarrow> record_batch list \<Rightarrow> u64" where
  "total_num_bytes env batches = (\<Sum>b\<leftarrow>batches. of_nat (env_memory_size env b))"

definition run_on_worker ::
  "'db local_env \<Rightarrow> worker_id \<Rightarrow> string \<Rightarrow> tables \<Rightarrow> bool \<Rightarrow> 'db local_stage_executor \<Rightarrow>
   'db local_stage_executor \<times> (stage_execution_error + record_batch list)" where
  "run_on_worker env w sql ins requires_local_catalog ex =
     (case ex_databases ex w of
        Some db \<Rightarrow>
          (case env_pool_error env (ses_catalog db) of
             Some e \<Rightarrow> (ex, Inl (StageExecutionFailed (''Failed to get DuckDB connection for worker '' @
               CHR 0x27 # worker_display w @ CHR 0x27 # '': Failed to get connection from pool: '' @ e)))
           | None \<Rightarrow>
               let (temps, r) = run_sql_with_inputs env (Some (ses_catalog db)) (ses_temps db) sql ins
               in (ex\<lparr>ex_databases := (ex_databases ex)(w \<mapsto> db\<lparr>ses_temps := temps\<rparr>)\<rparr>, r))
      | None \<Rightarrow>
          if requires_local_catalog
          then (ex, Inl (StageExecutionFailed (''Missing worker database for '' @ CHR 0x27 # worker_display w @
            CHR 0x27 # '' while stage requires local catalog access'')))
          else (case env_open_error env of
                  Some e \<Rightarrow> (ex, Inl (StageExecutionFailed (''Failed to open DuckDB: '' @ e)))
                | None \<Rightarrow> (ex, snd (run_sql_with_inputs env None Map.empty sql ins))))"

definition execute_sql_with_monitor ::
  "'db local_env \<Rightarrow> worker_id \<Rightarrow> string \<Rightarrow> tables \<Rightarrow> bool \<Rightarrow> nat \<Rightarrow> stage_execution_monitor \<Rightarrow>
   'db local_stage_executor \<Rightarrow>
   'db local_stage_executor \<times> stage_execution_monitor \<times> (stage_execution_error + record_batch list)" where
  "execute_sql_with_monitor env w sql ins requires_local_catalog elapsed mon ex =
     (if sql = [] then (ex, mon, Inr [])
      else case run_on_worker env w sql ins requires_local_catalog ex of
             (ex', Inl e) \<Rightarrow> (ex', mon, Inl e)
           | (ex', Inr batches) \<Rightarrow>
               let mon' = increment_bytes_produced (total_num_bytes env batches)
                     (increment_rows_produced (total_num_rows batches) mon)
               in (ex', mon',
                   (case check_limits elapsed mon' of
                      Inl e \<Rightarrow> Inl (StageExecutionFailed (''Limit exceeded during execution: '' @
                        limit_exceeded_display (env_duration env) e))
                    | Inr _ \<Rightarrow> Inr batches)))"

definition check_output_limits ::
  "'db local_env \<Rightarrow> record_batch list \<Rightarrow> stage_limits \<Rightarrow> stage_execution_error + unit" where
  "check_output_limits env batches lim =
     (let rows = total_num_rows batches; bytes = total_num_bytes env batches
      in if rows > max_rows_output lim then Inl (LimitsExceeded ''rows'' rows (max_rows_output lim))
         else if bytes > max_bytes_output lim then Inl (LimitsExceeded ''bytes'' bytes (max_bytes_output lim))
         else Inr ())"

definition partition_batches ::
  "'db local_env \<Rightarrow> record_batch list \<Rightarrow> u32 \<Rightarrow> column_ref list \<Rightarrow> stage_stop + record_batch list list" where
  "partition_batches env batches n refs =
     (case batches of
        [] \<Rightarrow> Inr (replicate (unat n) [])
      | b # rest \<Rightarrow>
          (case (if rest = [] then Inr b else concat_batches (env_arrow env) (rb_schema b) batches) of
             Inl e \<Rightarrow> Inl (StageStopped (StageExecutionFailed (''Failed to concatenate batches for partitioning: '' @ e)))
           | Inr combined \<Rightarrow>
               if num_rows combined = 0 then Inr (replicate (unat n) [])
               else (case resolve_column_indices refs (rb_schema b) of
                       Inl (ExchangeFailed e) \<Rightarrow> Inl (StageStopped (StageExecutionFailed
                         (''Failed to resolve column references: '' @ exchange_error_display e)))
                     | Inl ExchangePanic \<Rightarrow> Inl StagePanic
                     | Inr field_indices \<Rightarrow>
                         (case hash_partition_batch (env_arrow env) (env_hasher env) (env_iteration env)
                                 combined field_indices n of
                            Inl (ExchangeFailed e) \<Rightarrow> Inl (StageStopped (StageExecutionFailed
                              (''Partitioning failed: '' @ exchange_error_display e)))
                          | Inl ExchangePanic \<Rightarrow> Inl StagePanic
                          | Inr parts \<Rightarrow> Inr (map (\<lambda>p. if num_rows p > 0 then [p] else []) parts)))))"

definition store_output :: "stage_ticket \<Rightarrow> record_batch list \<Rightarrow> 'db local_stage_executor \<Rightarrow> 'db local_stage_executor" where
  "store_output t batches ex = ex\<lparr>ex_outputs := (ex_outputs ex)(tk_ticket_id t \<mapsto> batches)\<rparr>"

text \<open>The tickets of one worker, with the batches that are stored under them.\<close>

definition worker_tickets ::
  "'db local_env \<Rightarrow> string \<Rightarrow> stage \<Rightarrow> worker_id \<Rightarrow> record_batch list \<Rightarrow>
   stage_stop + (stage_ticket \<times> record_batch list) list" where
  "worker_tickets env qid s w output =
     (case stage_out s of
        StreamOutput \<Rightarrow> Inr [(ticket_new qid (stage_id s) w, output)]
      | Partitioned n refs \<Rightarrow>
          bind_ok (partition_batches env output n refs) (\<lambda>parts.
            Inr (map (\<lambda>(p, bs). (ticket_partitioned qid (stage_id s) w (of_nat p), bs)) (enumerate 0 parts))))"

fun submit_to_workers ::
  "'db local_env \<Rightarrow> string \<Rightarrow> stage \<Rightarrow> tables \<Rightarrow> worker_id list \<Rightarrow> stage_execution_monitor \<Rightarrow> stage_tickets \<Rightarrow>
   'db local_stage_executor \<Rightarrow> 'db local_stage_executor \<times> (stage_stop + stage_tickets)" where
  "submit_to_workers env qid s ins [] mon ts ex = (ex, Inr ts)"
| "submit_to_workers env qid s ins (w # ws) mon ts ex =
     (case execute_sql_with_monitor env w (stage_sql s) ins (LocalCatalog \<in> set (inputs s))
             (env_elapsed env (stage_id s) w) mon ex of
        (ex1, mon1, Inl e) \<Rightarrow> (ex1, Inl (StageStopped e))
      | (ex1, mon1, Inr output) \<Rightarrow>
          (case check_output_limits env output (limits s) of
             Inl e \<Rightarrow> (ex1, Inl (StageStopped e))
           | Inr _ \<Rightarrow>
               (case worker_tickets env qid s w output of
                  Inl e \<Rightarrow> (ex1, Inl e)
                | Inr tos \<Rightarrow>
                    submit_to_workers env qid s ins ws mon1 (fold (\<lambda>(t, _). tickets_add t) tos ts)
                      (fold (\<lambda>(t, bs). store_output t bs) tos ex1))))"

definition submit_stage ::
  "'db local_env \<Rightarrow> string \<Rightarrow> stage \<Rightarrow> tables \<Rightarrow> 'db local_stage_executor \<Rightarrow>
   'db local_stage_executor \<times> (stage_stop + stage_tickets)" where
  "submit_stage env qid s ins ex =
     submit_to_workers env qid s ins (target_workers s) (monitor_new (limits s)) tickets_new ex"

definition fetch_output :: "'db local_stage_executor \<Rightarrow> fetch" where
  "fetch_output ex t =
     (case ex_outputs ex (tk_ticket_id t) of
        Some batches \<Rightarrow> Inr batches
      | None \<Rightarrow> Inl (InputNotReady (tk_ticket_id t)))"

end
