(* ===== verification/Coordinator.thy ===== *)
theory Coordinator
  imports Stage_Executor
begin

text \<open>
  The coordinator of \<^verbatim>\<open>ldp/executor/coordinator.rs\<close>: its configuration, the status table and
  cancellation, the retries of a stage, and the local execution of a plan level by level.
  The stages of a level are joined futures; here they run one after the other in the order of
  the level, which the iteration order of the in-degree table leaves open. The sleeps between
  attempts double each time, so that the retry counter never reaches its width. The state of
  the executor is passed along; the databases of the workers live on in the coordinator.
\<close>

section \<open>Configuration and state\<close>

record coordinator_config =
  cc_tenant_id :: string
  cc_query_timeout :: nat
  cc_max_concurrent_stages :: nat
  cc_max_stage_retries :: u32
  cc_planner_policy :: planner_policy
  cc_distributed :: bool

definition coordinator_config_default :: coordinator_config where
  "coordinator_config_default =
     \<lparr>cc_tenant_id = ''default'', cc_query_timeout = 300, cc_max_concurrent_stages = 16,
      cc_max_stage_retries = 3, cc_planner_policy = policy_default, cc_distributed = False\<rparr>"

datatype stage_status =
    StatusPending
  | StatusRunning
  | StatusCompleted stage_tickets
  | StatusFailed string u32

record 'db coordinator_state =
  co_config :: coordinator_config
  co_stage_status :: "string \<times> stage_id \<rightharpoonup> stage_status"
  co_stage_monitors :: "string \<times> stage_id \<rightharpoonup> stage_execution_monitor"
  co_worker_databases :: "worker_id \<rightharpoonup> 'db session"

definition coordinator_new :: "coordinator_config \<Rightarrow> 'db coordinator_state" where
  "coordinator_new cfg =
     \<lparr>co_config = cfg, co_stage_status = Map.empty, co_stage_monitors = Map.empty, co_worker_databases = Map.empty\<rparr>"

definition register_worker_database :: "worker_id \<Rightarrow> 'db session \<Rightarrow> 'db coordinator_state \<Rightarrow> 'db coordinator_state" where
  "register_worker_database w db co = co\<lparr>co_worker_databases := (co_worker_databases co)(w \<mapsto> db)\<rparr>"

section \<open>Status and cancellation\<close>

definition set_stage_status ::
  "string \<Rightarrow> stage_id \<Rightarrow> stage_status \<Rightarrow> 'db coordinator_state \<Rightarrow> 'db coordinator_state" where
  "set_stage_status qid sid st co = co\<lparr>co_stage_status := (co_stage_status co)((qid, sid) \<mapsto> st)\<rparr>"

definition get_stage_status :: "'db coordinator_state \<Rightarrow> string \<Rightarrow> stage_id \<Rightarrow> stage_status option" where
  "get_stage_status co qid sid = co_stage_status co (qid, sid)"

definition register_stage_monitor ::
  "string \<Rightarrow> stage_id \<Rightarrow> stage_execution_monitor \<Rightarrow> 'db coordinator_state \<Rightarrow> 'db coordinator_state" where
  "register_stage_monitor qid sid m co = co\<lparr>co_stage_monitors := (co_stage_monitors co)((qid, sid) \<mapsto> m)\<rparr>"

definition unregister_stage_monitor :: "string \<Rightarrow> stage_id \<Rightarrow> 'db coordinator_state \<Rightarrow> 'db coordinator_state" where
  "unregister_stage_monitor qid sid co = co\<lparr>co_stage_monitors := (co_stage_monitors co)((qid, sid) := None)\<rparr>"

text \<open>
  Cancelling a stage of a local query cancels its monitor, if there is one. In distributed
  mode a background task tells the workers; it changes nothing here.
\<close>

definition cancel_stage :: "string \<Rightarrow> stage_id \<Rightarrow> 'db coordinator_state \<Rightarrow> 'db coordinator_state" where
  "cancel_stage qid sid co =
     (if cc_distributed (co_config co) then co
      else case co_stage_monitors co (qid, sid) of
             Some m \<Rightarrow> co\<lparr>co_stage_monitors := (co_stage_monitors co)((qid, sid) \<mapsto> monitor_cancel m)\<rparr>
           | None \<Rightarrow> co)"

definition clear_query_status :: "string \<Rightarrow> 'db coordinator_state \<Rightarrow> 'db coordinator_state" where
  "clear_query_status qid co =
     co\<lparr>co_stage_status := (\<lambda>(q, s). if q = qid then None else co_stage_status co (q, s)),
        co_stage_monitors := (\<lambda>(q, s). if q = qid then None else co_stage_monitors co (q, s))\<rparr>"

record cancellation_result =
  cr_query_id :: string
  cr_stages_cancelled :: nat
  cr_cleanup_completed :: bool

type_synonym status_order = "(string \<times> stage_id \<rightharpoonup> stage_status) \<Rightarrow> ((string \<times> stage_id) \<times> stage_status) list"

definition cancel_query ::
  "status_order \<Rightarrow> string \<Rightarrow> 'db coordinator_state \<Rightarrow> 'db coordinator_state \<times> cancellation_result" where
  "cancel_query order qid co =
     (let in_flight = map (snd \<circ> fst)
            (filter (\<lambda>((q, s), st). q = qid \<and> st = StatusRunning) (order (co_stage_status co)))
      in (clear_query_status qid (fold (cancel_stage qid) in_flight co),
          \<lparr>cr_query_id = qid, cr_stages_cancelled = length in_flight, cr_cleanup_completed = True\<rparr>))"

section \<open>Retries\<close>

definition is_retryable_error :: "execution_error \<Rightarrow> bool" where
  "is_retryable_error e =
     (let msg = to_lowercase (execution_error_display e)
      in str_contains msg ''unavailable'' \<or> str_contains msg ''deadline_exceeded'' \<or>
         str_contains msg ''connection refused'' \<or> str_contains msg ''timed out'' \<or>
         str_contains msg ''broken pipe'')"

fun attempt_stage ::
  "'db local_env \<Rightarrow> u32 \<Rightarrow> string \<Rightarrow> stage \<Rightarrow> tables \<Rightarrow> nat \<Rightarrow> execution_error option \<Rightarrow> 'db local_stage_executor \<Rightarrow>
   'db local_stage_executor \<times> (coordinator_stop + stage_tickets)" where
  "attempt_stage env max_retries qid s ins 0 last_error ex =
     (ex, Inl (CoordinatorFailed (ExecutionFailed (StageFailed (stage_id s)
        (''Failed after '' @ show_u32 max_retries @ '' retries: '' @
         (case last_error of Some e \<Rightarrow> execution_error_display e | None \<Rightarrow> []))))))"
| "attempt_stage env max_retries qid s ins (Suc k) last_error ex =
     (case submit_stage env qid s ins ex of
        (ex', Inr ts) \<Rightarrow> (ex', Inr ts)
      | (ex', Inl StagePanic) \<Rightarrow> (ex', Inl CoordinatorPanic)
      | (ex', Inl (StageStopped e)) \<Rightarrow>
          (let exec_err = StageFailed (stage_id s) (stage_execution_error_display e)
           in if \<not> is_retryable_error exec_err then (ex', Inl (CoordinatorFailed (ExecutionFailed exec_err)))
              else attempt_stage env max_retries qid s ins k (Some exec_err) ex'))"

definition execute_stage_with_retry ::
  "'db local_env \<Rightarrow> u32 \<Rightarrow> string \<Rightarrow> stage \<Rightarrow> tables \<Rightarrow> 'db local_stage_executor \<Rightarrow>
   'db local_stage_executor \<times> (coordinator_stop + stage_tickets)" where
  "execute_stage_with_retry env max_retries qid s ins ex =
     attempt_stage env max_retries qid s ins (Suc (unat max_retries)) None ex"

section \<open>Local execution\<close>

definition exchange_stopped :: "exchange_stop + 'a \<Rightarrow> coordinator_stop + 'a" where
  "exchange_stopped r =
     (case r of
        Inl (ExchangeFailed e) \<Rightarrow> Inl (CoordinatorFailed (ExecutionFailed (ExecExchangeFailed (exchange_error_display e))))
      | Inl ExchangePanic \<Rightarrow> Inl CoordinatorPanic
      | Inr x \<Rightarrow> Inr x)"

fun run_per_worker ::
  "'db local_env \<Rightarrow> u32 \<Rightarrow> string \<Rightarrow> ldp_plan \<Rightarrow> (stage_id \<rightharpoonup> stage_tickets) \<Rightarrow> stage \<Rightarrow> worker_id list \<Rightarrow> stage_tickets \<Rightarrow>
   'db local_stage_executor \<Rightarrow> 'db local_stage_executor \<times> (coordinator_stop + stage_tickets)" where
  "run_per_worker env r qid plan outs s [] all_tickets ex = (ex, Inr all_tickets)"
| "run_per_worker env r qid plan outs s (w # ws) all_tickets ex =
     (case exchange_stopped (resolve_inputs_for_worker (env_arrow env) (env_hasher env) (env_iteration env)
             (fetch_output ex) plan (stage_id s) w outs) of
        Inl e \<Rightarrow> (ex, Inl e)
      | Inr ins \<Rightarrow>
          (case execute_stage_with_retry env r qid (s\<lparr>target_workers := [w]\<rparr>) ins ex of
             (ex', Inl e) \<Rightarrow> (ex', Inl e)
           | (ex', Inr ts) \<Rightarrow>
               run_per_worker env r qid plan outs s ws (fold tickets_add (tickets ts) all_tickets) ex'))"

definition run_local_stage ::
  "'db local_env \<Rightarrow> u32 \<Rightarrow> string \<Rightarrow> ldp_plan \<Rightarrow> (stage_id \<rightharpoonup> stage_tickets) \<Rightarrow> stage_id \<Rightarrow>
   'db local_stage_executor \<Rightarrow> 'db local_stage_executor \<times> (coordinator_stop + stage_tickets)" where
  "run_local_stage env r qid plan outs sid ex =
     (case get_stage plan sid of
        None \<Rightarrow> (ex, Inl (CoordinatorFailed (ExecutionFailed (ExecStageNotFound sid))))
      | Some s \<Rightarrow>
          if has_exchange_inputs s
          then run_per_worker env r qid plan outs s (target_workers s) tickets_new ex
          else (case exchange_stopped (resolve_inputs (env_arrow env) (env_hasher env) (env_iteration env)
                        (fetch_output ex) plan sid outs) of
                  Inl e \<Rightarrow> (ex, Inl e)
                | Inr ins \<Rightarrow> execute_stage_with_retry env r qid s ins ex))"

text \<open>
  A level: every stage is run before the results are looked at; a panic ends the query at once.
\<close>

fun run_level ::
  "'db local_env \<Rightarrow> u32 \<Rightarrow> string \<Rightarrow> ldp_plan \<Rightarrow> (stage_id \<rightharpoonup> stage_tickets) \<Rightarrow> stage_id list \<Rightarrow>
   'db local_stage_executor \<Rightarrow>
   'db local_stage_executor \<times> (coordinator_stop + (stage_id \<times> (coordinator_error + stage_tickets)) list)" where
  "run_level env r qid plan outs [] ex = (ex, Inr [])"
| "run_level env r qid plan outs (sid # sids) ex =
     (case run_local_stage env r qid plan outs sid ex of
        (ex1, Inl CoordinatorPanic) \<Rightarrow> (ex1, Inl CoordinatorPanic)
      | (ex1, Inl (CoordinatorFailed e)) \<Rightarrow>
          (case run_level env r qid plan outs sids ex1 of (ex2, res) \<Rightarrow> (ex2, bind_ok res (\<lambda>rs. Inr ((sid, Inl e) # rs))))
      | (ex1, Inr ts) \<Rightarrow>
          (case run_level env r qid plan outs sids ex1 of (ex2, res) \<Rightarrow> (ex2, bind_ok res (\<lambda>rs. Inr ((sid, Inr ts) # rs)))))"

text \<open>The loop over the results of a level. The first error cancels the query and is returned.\<close>

fun collect_level ::
  "status_order \<Rightarrow> string \<Rightarrow> (stage_id \<times> (coordinator_error + stage_tickets)) list \<Rightarrow> (stage_id \<rightharpoonup> stage_tickets) \<Rightarrow>
   worker_id list \<Rightarrow> 'db coordinator_state \<Rightarrow>
   'db coordinator_state \<times> (coordinator_stop + (stage_id \<rightharpoonup> stage_tickets) \<times> worker_id list)" where
  "collect_level order qid [] outs workers co = (co, Inr (outs, workers))"
| "collect_level order qid ((sid, Inl e) # rs) outs workers co =
     (fst (cancel_query order qid co), Inl (CoordinatorFailed e))"
| "collect_level order qid ((sid, Inr ts) # rs) outs workers co =
     collect_level order qid rs (outs(sid \<mapsto> ts)) (fold (\<lambda>t ws. push_new ws (tk_worker_id t)) (tickets ts) workers)
       (set_stage_status qid sid (StatusCompleted ts) co)"

fun run_levels ::
  "'db local_env \<Rightarrow> status_order \<Rightarrow> string \<Rightarrow> ldp_plan \<Rightarrow> stage_id list list \<Rightarrow> (stage_id \<rightharpoonup> stage_tickets) \<Rightarrow>
   worker_id list \<Rightarrow> 'db coordinator_state \<Rightarrow> 'db local_stage_executor \<Rightarrow>
   'db coordinator_state \<times> 'db local_stage_executor \<times>
   (coordinator_stop + (stage_id \<rightharpoonup> stage_tickets) \<times> worker_id list)" where
  "run_levels env order qid plan [] outs workers co ex = (co, ex, Inr (outs, workers))"
| "run_levels env order qid plan (level # levels) outs workers co ex =
     (case run_level env (cc_max_stage_retries (co_config co)) qid plan outs level ex of
        (ex', Inl e) \<Rightarrow> (co, ex', Inl e)
      | (ex', Inr results) \<Rightarrow>
          (case collect_level order qid results outs workers co of
             (co', Inl e) \<Rightarrow> (co', ex', Inl e)
           | (co', Inr (outs', workers')) \<Rightarrow> run_levels env order qid plan levels outs' workers' co' ex'))"

definition fetch_root ::
  "'db local_stage_executor \<Rightarrow> ldp_plan \<Rightarrow> stage_tickets \<Rightarrow> coordinator_stop + record_batch list" where
  "fetch_root ex plan root_tickets =
     bind_ok (map_ok (\<lambda>t. (case fetch_output ex t of
          Inl e \<Rightarrow> Inl (CoordinatorFailed (ExecutionFailed (StageFailed (root_stage plan) (stage_execution_error_display e))))
        | Inr batches \<Rightarrow> Inr batches)) (tickets root_tickets)) (\<lambda>bss. Inr (concat bss))"

definition execute_local ::
  "'db local_env \<Rightarrow> degree_order \<Rightarrow> status_order \<Rightarrow> ldp_plan \<Rightarrow> string \<Rightarrow> 'db coordinator_state \<Rightarrow>
   'db coordinator_state \<times> 'db local_stage_executor \<times> (coordinator_stop + record_batch list \<times> worker_id list)" where
  "execute_local env levels_order order plan qid co =
     (let ex = executor_with_databases (co_worker_databases co)
      in case compute_execution_levels levels_order plan of
           Inl e \<Rightarrow> (co, ex, Inl e)
         | Inr levels \<Rightarrow>
             (case run_levels env order qid plan levels Map.empty [] co ex of
                (co', ex', r) \<Rightarrow>
                  (co'\<lparr>co_worker_databases := ex_databases ex'\<rparr>, ex',
                   bind_ok r (\<lambda>(outs, workers).
                     (case outs (root_stage plan) of
                        None \<Rightarrow> Inl (CoordinatorFailed (ExecutionFailed (ExecStageNotFound (root_stage plan))))
                      | Some root_tickets \<Rightarrow>
                          bind_ok (fetch_root ex' plan root_tickets) (\<lambda>batches. Inr (batches, workers)))))))"

end
