(* ===== verification/Local_Execution.thy ===== *)
theory Local_Execution
  imports Coordinator "HOL-Library.List_Lexorder"
begin

text \<open>
  What a successful local execution computes. The outputs of the stages are a solution of the
  data flow equations of the plan: every stage ran on each of its workers, its SQL saw
  exactly the exchanged outputs of its upstream stages, and the answer of the query is what
  the root stage stored, whatever the order in which the stages of a level ran.
\<close>

section \<open>Tickets\<close>

text \<open>The identifiers of the tickets of a stage.\<close>

definition stage_key :: "stage_id \<Rightarrow> string \<Rightarrow> bool" where
  "stage_key s k \<longleftrightarrow> (\<exists>rest. k = ''stage_'' @ stage_display s @ ''_'' @ rest)"

lemma digits_prefix_unique:
  assumes "xs @ c # ys = xs' @ c # ys'" "c \<notin> set xs" "c \<notin> set xs'"
  shows "xs = xs'" "ys = ys'"
  using assms by (auto simp: append_eq_append_conv2 append_eq_Cons_conv Cons_eq_append_conv)

lemma show_u32_no_underscore: "CHR ''_'' \<notin> set (show_u32 n)"
proof -
  have "CHR ''_'' \<notin> set (show_nat k)" for k
  proof (induction k rule: show_nat.induct)
    case (1 k)
    have "CHR ''_'' \<noteq> digit_char d" if "d < 10" for d
    proof
      assume "CHR ''_'' = digit_char d"
      then have "(of_char (digit_char d) :: nat) = of_char (CHR ''_'')" by simp
      with that show False by (simp add: digit_char_def)
    qed
    with 1 show ?case by (auto simp: show_nat.simps [of k])
  qed
  then show ?thesis by (simp add: show_u32_def)
qed

lemma stage_key_unique: "stage_key s k \<Longrightarrow> stage_key s' k \<Longrightarrow> s = s'"
proof -
  assume "stage_key s k" "stage_key s' k"
  then obtain rest rest' where
    "stage_display s @ CHR ''_'' # rest = stage_display s' @ CHR ''_'' # rest'" by (auto simp: stage_key_def)
  then have "stage_display s = stage_display s'"
    by (rule digits_prefix_unique(1)) (cases s; cases s'; simp add: show_u32_no_underscore)+
  then show "s = s'" by (cases s; cases s') (auto dest: show_u32_inj)
qed

lemma ticket_stage_key:
  "stage_key s (tk_ticket_id (ticket_new q s w))" "stage_key s (tk_ticket_id (ticket_partitioned q s w p))"
  by (auto simp: stage_key_def ticket_new_def ticket_partitioned_def)

lemma ticket_new_inj: "tk_ticket_id (ticket_new q s w) = tk_ticket_id (ticket_new q s w') \<Longrightarrow> w = w'"
  by (cases w; cases w') (simp add: ticket_new_def)

lemma ticket_partitioned_inj:
  assumes "tk_ticket_id (ticket_partitioned q s w p) = tk_ticket_id (ticket_partitioned q s w' p')"
  shows "w = w' \<and> p = p'"
proof -
  from assms have "worker_display w @ ''_p'' @ show_u32 p = worker_display w' @ ''_p'' @ show_u32 p'"
    by (simp add: ticket_partitioned_def)
  from arg_cong [OF this, of rev]
  have "(rev (show_u32 p) @ ''p'') @ CHR ''_'' # rev (worker_display w) =
      (rev (show_u32 p') @ ''p'') @ CHR ''_'' # rev (worker_display w')" by simp
  from digits_prefix_unique [OF this]
  have "show_u32 p = show_u32 p'" "worker_display w = worker_display w'"
    by (simp_all add: show_u32_no_underscore)
  then show ?thesis by (cases w; cases w') (auto dest: show_u32_inj)
qed

section \<open>Partitions of an output\<close>

lemma length_map_ok: "map_ok f xs = Inr ys \<Longrightarrow> length ys = length xs"
  by (induction xs arbitrary: ys) auto

lemma hash_partition_length:
  assumes "hash_partition_batch a h it b field_refs n = Inr parts"
  shows "length parts = unat n"
proof -
  have "length parts = unat n" if "hash_partition_batch_traditional a h b field_refs n = Inr parts"
    using that by (auto simp: hash_partition_batch_traditional_def dest: length_map_ok split: if_splits)
  moreover have "length parts = unat n"
    if "handle_skewed_partitioning cfg a h it b field_refs n r = Inr parts" for cfg r
  proof -
    have "length ps' = length ps" if "fold_ok (place_row cfg a h it keys b field_refs n) is ps = Inr ps'" for keys "is" ps ps'
      using that by (induction "is" arbitrary: ps) (auto simp: place_row_def split: if_splits)
    from this [OF that [unfolded handle_skewed_partitioning_def]] show ?thesis by simp
  qed
  ultimately show ?thesis
    using assms by (auto simp: hash_partition_batch_def hash_partition_batch_with_skew_handling_def
        skew_aware_hash_partition_def split: if_splits)
qed

lemma partition_batches_length:
  "partition_batches env batches n refs = Inr parts \<Longrightarrow> length parts = unat n"
  by (auto simp: partition_batches_def dest: hash_partition_length
      split: list.splits sum.splits if_splits exchange_stop.splits)

lemma worker_tickets_keys:
  assumes "worker_tickets env q s w output = Inr tos"
  shows "distinct (map (tk_ticket_id \<circ> fst) tos)"
    and "(t, bs) \<in> set tos \<Longrightarrow> stage_key (stage_id s) (tk_ticket_id t) \<and> tk_worker_id t = w"
    and "worker_tickets env q s w' output' = Inr tos' \<Longrightarrow> w \<noteq> w' \<Longrightarrow>
      (t, bs) \<in> set tos \<Longrightarrow> (t', bs') \<in> set tos' \<Longrightarrow> tk_ticket_id t \<noteq> tk_ticket_id t'"
proof -
  show "distinct (map (tk_ticket_id \<circ> fst) tos)"
  proof (cases "stage_out s")
    case (Partitioned n refs)
    with assms obtain parts where parts: "partition_batches env output n refs = Inr parts"
      and tos: "tos = map (\<lambda>(p, bs). (ticket_partitioned q (stage_id s) w (of_nat p), bs)) (enumerate 0 parts)"
      by (auto simp: worker_tickets_def)
    have "map (tk_ticket_id \<circ> fst) tos =
        map (\<lambda>p. tk_ticket_id (ticket_partitioned q (stage_id s) w (of_nat p))) [0..<length parts]"
      by (rule nth_equalityI) (simp_all add: tos nth_enumerate_eq)
    moreover have "inj_on (\<lambda>p. tk_ticket_id (ticket_partitioned q (stage_id s) w (of_nat p))) {0..<length parts}"
    proof (rule inj_onI)
      fix p p' assume p: "p \<in> {0..<length parts}" "p' \<in> {0..<length parts}"
        and "tk_ticket_id (ticket_partitioned q (stage_id s) w (of_nat p)) =
          tk_ticket_id (ticket_partitioned q (stage_id s) w (of_nat p'))"
      then have "(of_nat p :: u32) = of_nat p'" using ticket_partitioned_inj by blast
      then have "take_bit 32 p = take_bit 32 p'" by (auto dest: arg_cong [of _ _ unat] simp: unsigned_of_nat)
      moreover have "unat n < 2 ^ 32" using unsigned_less [of n] by simp
      with p partition_batches_length [OF parts] have "p < 2 ^ 32" "p' < 2 ^ 32" by auto
      ultimately show "p = p'" by (simp add: take_bit_nat_eq_self del: power_numeral)
    qed
    ultimately show ?thesis by (simp add: distinct_map)
  qed (use assms in \<open>auto simp: worker_tickets_def\<close>)
next
  show "stage_key (stage_id s) (tk_ticket_id t) \<and> tk_worker_id t = w" if "(t, bs) \<in> set tos"
    using assms that ticket_stage_key
    by (cases "stage_out s") (auto simp: worker_tickets_def ticket_new_def ticket_partitioned_def)
next
  show "tk_ticket_id t \<noteq> tk_ticket_id t'"
    if "worker_tickets env q s w' output' = Inr tos'" "w \<noteq> w'" "(t, bs) \<in> set tos" "(t', bs') \<in> set tos'"
    using assms that ticket_new_inj ticket_partitioned_inj
    by (cases "stage_out s") (auto simp: worker_tickets_def)
qed

section \<open>Queries on a worker\<close>

text \<open>The tables that a stage sees: the inputs that have at least one batch.\<close>

definition input_tables :: "tables \<Rightarrow> tables" where
  "input_tables ins t = (case ins t of Some bs \<Rightarrow> if bs = [] then None else Some bs | None \<Rightarrow> None)"

definition query_answer :: "'db local_env \<Rightarrow> 'db option \<Rightarrow> tables \<Rightarrow> string \<Rightarrow> record_batch list option" where
  "query_answer env cat ins sql =
     (if sql = [] then Some []
      else case env_query env cat (input_tables ins) sql of
             Rows schema bs \<Rightarrow> Some (if bs = [] then [new_empty (env_arrow env) schema] else bs)
           | _ \<Rightarrow> None)"

definition input_order_law :: "'db local_env \<Rightarrow> bool" where
  "input_order_law env \<longleftrightarrow>
     (\<forall>m. finite (dom m) \<longrightarrow> set (env_input_order env m) = Map.graph m \<and> distinct (map fst (env_input_order env m)))"

lemma ordered_inputs:
  assumes "input_order_law env" "finite (dom ins)"
  shows "map_of (filter (\<lambda>(t, bs). bs \<noteq> []) (env_input_order env ins)) = input_tables ins"
    and "distinct (map fst (filter (\<lambda>(t, bs). bs \<noteq> []) (env_input_order env ins)))"
proof -
  let ?xs = "env_input_order env ins"
  from assms have xs: "set ?xs = Map.graph ins" "distinct (map fst ?xs)" by (auto simp: input_order_law_def)
  show d: "distinct (map fst (filter (\<lambda>(t, bs). bs \<noteq> []) ?xs))" using xs(2) by (rule distinct_map_filter)
  show "map_of (filter (\<lambda>(t, bs). bs \<noteq> []) ?xs) = input_tables ins"
  proof
    fix t
    have "map_of (filter (\<lambda>(t, bs). bs \<noteq> []) ?xs) t = Some bs \<longleftrightarrow> input_tables ins t = Some bs" for bs
      unfolding map_of_eq_Some_iff [OF d] by (auto simp: xs(1) Map.graph_def input_tables_def split: option.splits if_splits)
    then show "map_of (filter (\<lambda>(t, bs). bs \<noteq> []) ?xs) t = input_tables ins t"
      by (metis not_None_eq)
  qed
qed

lemma register_inputs_cases:
  "register_inputs env xs temps reg = (temps', r) \<Longrightarrow>
   (case r of
      Inr registered \<Rightarrow> temps' = temps ++ map_of (rev (filter (\<lambda>(t, bs). bs \<noteq> []) xs)) \<and>
        registered = reg @ map fst (filter (\<lambda>(t, bs). bs \<noteq> []) xs)
    | Inl e \<Rightarrow> dom temps' \<subseteq> dom temps \<union> fst ` set (filter (\<lambda>(t, bs). bs \<noteq> []) xs))"
proof (induction env xs temps reg rule: register_inputs.induct)
  case (2 env t batches rest temps registered)
  show ?case
  proof (cases "batches = []")
    case True
    with 2(1) [OF True] 2(3) show ?thesis by (cases r) simp_all
  next
    case False
    show ?thesis
    proof (cases "env_register_failure env t batches")
      case None
      with 2(3) False have "register_inputs env rest (temps(t \<mapsto> batches)) (registered @ [t]) = (temps', r)" by simp
      from 2(2) [OF False None this] False show ?thesis by (cases r) (auto simp: map_add_assoc)
    qed (use 2(3) False in \<open>auto split: if_splits\<close>)
  qed
qed auto

lemma fold_drop: "fold (\<lambda>t m. m(t := None)) ts m = m |` (- set ts)"
  by (induction ts arbitrary: m) (auto simp: restrict_map_def fun_eq_iff)

lemma run_sql_cases:
  assumes "run_sql_with_inputs env cat temps sql ins = (temps', r)" "sql \<noteq> []"
    and "input_order_law env" "finite (dom ins)" "dom temps \<subseteq> dom (input_tables ins)"
  shows "case r of Inr out \<Rightarrow> temps' = Map.empty \<and> query_answer env cat ins sql = Some out
    | Inl e \<Rightarrow> dom temps' \<subseteq> dom (input_tables ins)"
proof -
  let ?xs = "filter (\<lambda>(t, bs). bs \<noteq> []) (env_input_order env ins)"
  note o = ordered_inputs [OF assms(3,4)]
  have keys: "set (map fst ?xs) = dom (input_tables ins)" using o(1) by (metis dom_map_of_conv_image_fst set_map)
  have rev: "map_of (rev ?xs) = input_tables ins"
    using map_of_inject_set [of "rev ?xs" ?xs] o by (simp add: rev_map [symmetric])
  have all: "temps ++ map_of (rev ?xs) = input_tables ins"
    using assms(5) by (auto simp: rev map_add_def fun_eq_iff split: option.split)
  obtain t1 r1 where reg: "register_inputs env (env_input_order env ins) temps [] = (t1, r1)" by fastforce
  show ?thesis
  proof (cases r1)
    case (Inl e)
    from register_inputs_cases [OF reg] Inl keys have "dom t1 \<subseteq> dom temps \<union> dom (input_tables ins)" by simp
    with assms(5) have "dom t1 \<subseteq> dom (input_tables ins)" by blast
    with assms(1) reg Inl show ?thesis by (auto simp: run_sql_with_inputs_def)
  next
    case (Inr registered)
    with register_inputs_cases [OF reg] have t1: "t1 = input_tables ins" "registered = map fst ?xs"
      by (simp_all add: all)
    have "input_tables ins |` (- set registered) = Map.empty"
      unfolding t1(2) keys by (auto simp: restrict_map_def fun_eq_iff dom_def)
    with assms(1,2) reg Inr t1(1) show ?thesis
      by (auto simp: run_sql_with_inputs_def fold_drop query_answer_def split: query_outcome.splits)
  qed
qed

text \<open>
  The sessions of the workers during the attempts of a stage: as at the start, except that a
  failed attempt can leave tables of the stage's inputs in the sessions of the workers \<open>W\<close>.
\<close>

definition session_ok :: "string set \<Rightarrow> 'db session \<Rightarrow> 'db session \<Rightarrow> bool" where
  "session_ok keys db0 db \<longleftrightarrow> db = db0\<lparr>ses_temps := ses_temps db\<rparr> \<and> dom (ses_temps db) \<subseteq> keys"

definition sessions_ok ::
  "worker_id set \<Rightarrow> tables \<Rightarrow> (worker_id \<rightharpoonup> 'db session) \<Rightarrow> (worker_id \<rightharpoonup> 'db session) \<Rightarrow> bool" where
  "sessions_ok W ins dbs0 dbs \<longleftrightarrow>
     (\<forall>w. rel_option (session_ok (if w \<in> W then dom (input_tables ins) else {})) (dbs0 w) (dbs w))"

lemma sessions_ok_mono:
  assumes "sessions_ok W ins dbs0 dbs" "W \<subseteq> W'"
  shows "sessions_ok W' ins dbs0 dbs"
  unfolding sessions_ok_def
proof
  fix w
  from assms have "rel_option (session_ok (if w \<in> W then dom (input_tables ins) else {})) (dbs0 w) (dbs w)"
    by (simp add: sessions_ok_def)
  then show "rel_option (session_ok (if w \<in> W' then dom (input_tables ins) else {})) (dbs0 w) (dbs w)"
    by (rule option.rel_mono_strong) (use assms(2) in \<open>auto simp: session_ok_def split: if_splits\<close>)
qed

lemma sessions_ok_clean:
  assumes "\<And>w db. dbs0 w = Some db \<Longrightarrow> ses_temps db = Map.empty"
  shows "sessions_ok {} ins dbs0 dbs \<longleftrightarrow> dbs = dbs0"
proof
  assume ok: "sessions_ok {} ins dbs0 dbs"
  show "dbs = dbs0"
  proof
    fix w
    from ok have "rel_option (session_ok {}) (dbs0 w) (dbs w)" by (simp add: sessions_ok_def)
    then show "dbs w = dbs0 w" using assms [of w]
      by (cases "dbs0 w"; cases "dbs w") (auto simp: session_ok_def)
  qed
qed (use assms in \<open>auto simp: sessions_ok_def session_ok_def intro!: option.rel_refl_strong\<close>)

lemma sessions_ok_update:
  assumes "sessions_ok W ins dbs0 dbs" "dbs0 w = Some db0" "V - {w} = W - {w}"
    and "dom temps \<subseteq> (if w \<in> V then dom (input_tables ins) else {})"
  shows "sessions_ok V ins dbs0 (dbs(w \<mapsto> db0\<lparr>ses_temps := temps\<rparr>))"
  unfolding sessions_ok_def
proof
  fix v
  show "rel_option (session_ok (if v \<in> V then dom (input_tables ins) else {})) (dbs0 v)
      ((dbs(w \<mapsto> db0\<lparr>ses_temps := temps\<rparr>)) v)"
  proof (cases "v = w")
    case False
    with assms(3) have "v \<in> V \<longleftrightarrow> v \<in> W" by blast
    with assms(1) False show ?thesis by (simp add: sessions_ok_def)
  qed (use assms(2,4) in \<open>simp add: session_ok_def\<close>)
qed

lemma sessions_ok_missing:
  assumes "sessions_ok W ins dbs0 dbs" "dbs w = None"
  shows "dbs0 w = None" "sessions_ok (W - {w}) ins dbs0 dbs"
proof -
  from assms have "rel_option (session_ok (if w \<in> W then dom (input_tables ins) else {})) (dbs0 w) None"
    by (metis sessions_ok_def)
  then show w: "dbs0 w = None" by simp
  show "sessions_ok (W - {w}) ins dbs0 dbs"
    unfolding sessions_ok_def
  proof
    fix v show "rel_option (session_ok (if v \<in> W - {w} then dom (input_tables ins) else {})) (dbs0 v) (dbs v)"
      using assms w by (cases "v = w") (auto simp: sessions_ok_def)
  qed
qed

lemma run_on_worker_cases:
  assumes "run_on_worker env w sql ins req ex = (ex', r)" "sql \<noteq> []"
    and "input_order_law env" "finite (dom ins)" "sessions_ok W ins dbs0 (ex_databases ex)"
  shows "ex_outputs ex' = ex_outputs ex"
    and "case r of
      Inr out \<Rightarrow> sessions_ok (W - {w}) ins dbs0 (ex_databases ex') \<and>
        query_answer env (map_option ses_catalog (dbs0 w)) ins sql = Some out
    | Inl e \<Rightarrow> sessions_ok (insert w W) ins dbs0 (ex_databases ex')"
proof -
  from assms(1) show "ex_outputs ex' = ex_outputs ex"
    by (auto simp: run_on_worker_def split: option.splits if_splits prod.splits)
  have more: "sessions_ok (insert w W) ins dbs0 (ex_databases ex)"
    by (rule sessions_ok_mono [OF assms(5)]) blast
  show "case r of
      Inr out \<Rightarrow> sessions_ok (W - {w}) ins dbs0 (ex_databases ex') \<and>
        query_answer env (map_option ses_catalog (dbs0 w)) ins sql = Some out
    | Inl e \<Rightarrow> sessions_ok (insert w W) ins dbs0 (ex_databases ex')"
  proof (cases "ex_databases ex w")
    case None
    obtain t1 r1 where sql: "run_sql_with_inputs env None Map.empty sql ins = (t1, r1)" by fastforce
    from assms(1) None sql run_sql_cases [OF sql assms(2-4)] sessions_ok_missing [OF assms(5) None] more show ?thesis
      by (auto simp: run_on_worker_def split: option.splits if_splits sum.splits)
  next
    case (Some db)
    have "rel_option (session_ok (if w \<in> W then dom (input_tables ins) else {})) (dbs0 w) (Some db)"
      using assms(5) Some by (metis sessions_ok_def)
    then obtain db0 where db: "dbs0 w = Some db0" "db = db0\<lparr>ses_temps := ses_temps db\<rparr>"
      "dom (ses_temps db) \<subseteq> dom (input_tables ins)"
      by (cases "dbs0 w") (auto simp: session_ok_def split: if_splits)
    obtain t1 r1 where sql: "run_sql_with_inputs env (Some (ses_catalog db)) (ses_temps db) sql ins = (t1, r1)"
      by fastforce
    from db(2) have cat: "ses_catalog db = ses_catalog db0" "db\<lparr>ses_temps := t1\<rparr> = db0\<lparr>ses_temps := t1\<rparr>"
      by (cases db, cases db0, simp)+
    show ?thesis
    proof (cases "env_pool_error env (ses_catalog db)")
      case None
      with assms(1) Some sql have ex': "ex_databases ex' = (ex_databases ex)(w \<mapsto> db0\<lparr>ses_temps := t1\<rparr>)" "r = r1"
        by (auto simp: run_on_worker_def cat(2))
      from run_sql_cases [OF sql assms(2-4) db(3)] have
        "case r1 of Inr out \<Rightarrow> t1 = Map.empty \<and> query_answer env (Some (ses_catalog db0)) ins sql = Some out
         | Inl e \<Rightarrow> dom t1 \<subseteq> dom (input_tables ins)" unfolding cat(1) .
      then show ?thesis unfolding ex' using sessions_ok_update [OF assms(5) db(1), of _ t1]
        by (auto simp: db(1) split: sum.splits)
    qed (use assms(1) Some more in \<open>auto simp: run_on_worker_def\<close>)
  qed
qed

lemma execute_sql_cases:
  assumes "execute_sql_with_monitor env w sql ins req t mon ex = (ex', mon', r)"
    and "input_order_law env" "finite (dom ins)" "sessions_ok (if sql = [] then {} else W) ins dbs0 (ex_databases ex)"
  shows "ex_outputs ex' = ex_outputs ex \<and> (case r of
      Inr out \<Rightarrow> sessions_ok (if sql = [] then {} else W - {w}) ins dbs0 (ex_databases ex') \<and>
        query_answer env (map_option ses_catalog (dbs0 w)) ins sql = Some out
    | Inl e \<Rightarrow> sessions_ok (if sql = [] then {} else insert w W) ins dbs0 (ex_databases ex'))"
proof (cases "sql = []")
  case True
  with assms(1,4) show ?thesis by (auto simp: execute_sql_with_monitor_def query_answer_def)
next
  case False
  obtain ex1 r1 where run: "run_on_worker env w sql ins req ex = (ex1, r1)" by fastforce
  from assms(4) False have "sessions_ok W ins dbs0 (ex_databases ex)" by simp
  note run_on_worker_cases [OF run False assms(2,3) this]
  moreover have "sessions_ok (W - {w}) ins dbs0 dbs \<Longrightarrow> sessions_ok (insert w W) ins dbs0 dbs" for dbs
    by (erule sessions_ok_mono) blast
  ultimately show ?thesis using assms(1) False run
    by (auto simp: execute_sql_with_monitor_def Let_def split: sum.splits)
qed

section \<open>Stages\<close>

lemma tickets_added [simp]: "tickets (fold (\<lambda>(t, _). tickets_add t) tos ts) = tickets ts @ map fst tos"
  by (induction tos arbitrary: ts) (auto simp: tickets_add_def)

lemma tickets_add_all [simp]: "tickets (fold tickets_add xs ts) = tickets ts @ xs"
  by (induction xs arbitrary: ts) (auto simp: tickets_add_def)

lemma store_output_simps [simp]:
  "ex_databases (store_output t bs ex) = ex_databases ex"
  "ex_outputs (store_output t bs ex) = (ex_outputs ex)(tk_ticket_id t \<mapsto> bs)"
  by (simp_all add: store_output_def)

lemma store_all:
  fixes ex :: "'db local_stage_executor"
  shows "ex_databases (fold (\<lambda>(t, bs). store_output t bs) tos ex) = ex_databases ex"
    and "k \<notin> (tk_ticket_id \<circ> fst) ` set tos \<Longrightarrow> ex_outputs (fold (\<lambda>(t, bs). store_output t bs) tos ex) k = ex_outputs ex k"
    and "distinct (map (tk_ticket_id \<circ> fst) tos) \<Longrightarrow> (t, bs) \<in> set tos \<Longrightarrow>
      ex_outputs (fold (\<lambda>(t, bs). store_output t bs) tos ex) (tk_ticket_id t) = Some bs"
proof -
  show "ex_databases (fold (\<lambda>(t, bs). store_output t bs) tos ex) = ex_databases ex" for ex :: "'db local_stage_executor"
    by (induction tos arbitrary: ex) auto
  show other: "ex_outputs (fold (\<lambda>(t, bs). store_output t bs) tos ex) k = ex_outputs ex k"
    if "k \<notin> (tk_ticket_id \<circ> fst) ` set tos" for k tos and ex :: "'db local_stage_executor"
    using that by (induction tos arbitrary: ex) auto
  show "ex_outputs (fold (\<lambda>(t, bs). store_output t bs) tos ex) (tk_ticket_id t) = Some bs"
    if "distinct (map (tk_ticket_id \<circ> fst) tos)" "(t, bs) \<in> set tos"
    using that
  proof (induction tos arbitrary: ex)
    case (Cons x tos)
    then show ?case using other [of "tk_ticket_id t" tos] by auto
  qed simp
qed

text \<open>The tickets that a stage writes on a worker.\<close>

definition written_by :: "'db local_env \<Rightarrow> string \<Rightarrow> stage \<Rightarrow> worker_id \<Rightarrow> string \<Rightarrow> bool" where
  "written_by env q s w k \<longleftrightarrow> (\<exists>out tos. worker_tickets env q s w out = Inr tos \<and> k \<in> (tk_ticket_id \<circ> fst) ` set tos)"

lemma written_by_stage: "written_by env q s w k \<Longrightarrow> stage_key (stage_id s) k"
  unfolding written_by_def using worker_tickets_keys(2) by fastforce

lemma written_by_unique: "written_by env q s w k \<Longrightarrow> written_by env q s w' k \<Longrightarrow> w = w'"
  unfolding written_by_def
proof (rule ccontr, elim exE conjE)
  fix out tos out' tos'
  assume "w \<noteq> w'" "worker_tickets env q s w out = Inr tos" "worker_tickets env q s w' out' = Inr tos'"
    "k \<in> (tk_ticket_id \<circ> fst) ` set tos" "k \<in> (tk_ticket_id \<circ> fst) ` set tos'"
  with worker_tickets_keys(3) show False by fastforce
qed

text \<open>
  The worker \<open>w\<close> has run the stage on these inputs, and its output is stored under the tickets.
\<close>

definition ran_on ::
  "'db local_env \<Rightarrow> string \<Rightarrow> stage \<Rightarrow> (worker_id \<rightharpoonup> 'db session) \<Rightarrow> tables \<Rightarrow> (string \<rightharpoonup> record_batch list) \<Rightarrow>
   worker_id \<Rightarrow> stage_ticket list \<Rightarrow> bool" where
  "ran_on env q s dbs ins outputs w ts \<longleftrightarrow>
     (\<exists>out tos. query_answer env (map_option ses_catalog (dbs w)) ins (stage_sql s) = Some out \<and>
        worker_tickets env q s w out = Inr tos \<and> ts = map fst tos \<and>
        (\<forall>(t, bs)\<in>set tos. outputs (tk_ticket_id t) = Some bs))"

lemma ran_on_cong:
  assumes "ran_on env q s dbs ins outputs w ts" "\<And>k. written_by env q s w k \<Longrightarrow> outputs' k = outputs k"
  shows "ran_on env q s dbs ins outputs' w ts"
proof -
  from assms(1) obtain out tos where
    o: "query_answer env (map_option ses_catalog (dbs w)) ins (stage_sql s) = Some out"
    "worker_tickets env q s w out = Inr tos" "ts = map fst tos"
    "\<forall>(t, bs)\<in>set tos. outputs (tk_ticket_id t) = Some bs" by (auto simp: ran_on_def)
  have "outputs' (tk_ticket_id t) = Some bs" if "(t, bs) \<in> set tos" for t bs
  proof -
    have "written_by env q s w (tk_ticket_id t)" using o(2) that by (force simp: written_by_def)
    with assms(2) o(4) that show ?thesis by auto
  qed
  with o show ?thesis by (auto simp: ran_on_def)
qed

text \<open>What a submission to the workers \<open>ws\<close> does to the executor.\<close>

definition submitted ::
  "'db local_env \<Rightarrow> string \<Rightarrow> stage \<Rightarrow> tables \<Rightarrow> (worker_id \<rightharpoonup> 'db session) \<Rightarrow> worker_id set \<Rightarrow> worker_id list \<Rightarrow>
   stage_ticket list \<Rightarrow> (string \<rightharpoonup> record_batch list) \<Rightarrow> 'db local_stage_executor \<Rightarrow> 'e + stage_tickets \<Rightarrow> bool" where
  "submitted env q s ins dbs0 W ws ts outputs ex r \<longleftrightarrow>
     (\<forall>k. (\<forall>w\<in>set ws. \<not> written_by env q s w k) \<longrightarrow> ex_outputs ex k = outputs k) \<and>
     (case r of
        Inl e \<Rightarrow> sessions_ok (if stage_sql s = [] then {} else W \<union> set ws) ins dbs0 (ex_databases ex)
      | Inr ts' \<Rightarrow> sessions_ok (if stage_sql s = [] then {} else W - set ws) ins dbs0 (ex_databases ex) \<and>
          (\<exists>tof. tickets ts' = ts @ concat (map tof ws) \<and>
            (\<forall>w\<in>set ws. ran_on env q s dbs0 ins (ex_outputs ex) w (tof w))))"

lemma submitted_failed:
  assumes "sessions_ok (if stage_sql s = [] then {} else V) ins dbs0 (ex_databases ex)" "V \<subseteq> insert w W"
    and "ex_outputs ex = outputs"
  shows "submitted env q s ins dbs0 W (w # ws) ts outputs ex (Inl e)"
proof -
  from assms(2) have "V \<subseteq> W \<union> set (w # ws)" by auto
  with assms(1,3) sessions_ok_mono show ?thesis
    by (auto simp: submitted_def simp del: list.set split: if_splits)
qed

lemma submitted_step:
  assumes "submitted env q s ins dbs0 (W - {w}) ws (ts @ map fst tos)
      (ex_outputs (fold (\<lambda>(t, bs). store_output t bs) tos ex1)) ex r"
    and "w \<notin> set ws" "worker_tickets env q s w out = Inr tos"
    and "query_answer env (map_option ses_catalog (dbs0 w)) ins (stage_sql s) = Some out"
  shows "submitted env q s ins dbs0 W (w # ws) ts (ex_outputs ex1) ex r"
proof -
  let ?ex2 = "fold (\<lambda>(t, bs). store_output t bs) tos ex1"
  have own: "written_by env q s w k" if "k \<in> (tk_ticket_id \<circ> fst) ` set tos" for k
    using that assms(3) by (auto simp: written_by_def)
  from assms(1) have keep: "\<And>k. (\<forall>v\<in>set ws. \<not> written_by env q s v k) \<Longrightarrow> ex_outputs ex k = ex_outputs ?ex2 k"
    by (simp add: submitted_def)
  have "ex_outputs ex k = ex_outputs ex1 k" if "\<forall>v\<in>set (w # ws). \<not> written_by env q s v k" for k
    using keep [of k] store_all(2) [of k tos ex1] own that by auto
  moreover have "sessions_ok ((W - {w}) \<union> set ws) ins dbs0 dbs \<Longrightarrow> sessions_ok (W \<union> set (w # ws)) ins dbs0 dbs" for dbs
    by (erule sessions_ok_mono) auto
  moreover have "W - {w} - set ws = W - set (w # ws)" by auto
  moreover have "ran_on env q s dbs0 ins (ex_outputs ex) w (map fst tos)"
  proof (rule ran_on_cong)
    have "\<forall>(t, bs)\<in>set tos. ex_outputs ?ex2 (tk_ticket_id t) = Some bs"
      using store_all(3) [OF worker_tickets_keys(1) [OF assms(3)], of _ _ ex1] by auto
    with assms(3,4) show "ran_on env q s dbs0 ins (ex_outputs ?ex2) w (map fst tos)"
      by (auto simp: ran_on_def)
    show "ex_outputs ex k = ex_outputs ?ex2 k" if "written_by env q s w k" for k
      using keep written_by_unique [OF that] assms(2) by metis
  qed
  moreover from this have "\<exists>tof'. map fst tos @ concat (map tof ws) = concat (map tof' (w # ws)) \<and>
      (\<forall>v\<in>set (w # ws). ran_on env q s dbs0 ins (ex_outputs ex) v (tof' v))"
    if "\<forall>v\<in>set ws. ran_on env q s dbs0 ins (ex_outputs ex) v (tof v)" for tof
    using that assms(2) by (intro exI [of _ "tof(w := map fst tos)"]) (auto simp: map_fun_upd)
  ultimately show ?thesis
    using assms(1) unfolding submitted_def by (auto simp del: list.set split: sum.splits if_splits)
qed

lemma submit_cases:
  assumes "submit_to_workers env q s ins ws mon ts ex = (ex', r)" "distinct ws"
    and "input_order_law env" "finite (dom ins)"
    and "sessions_ok (if stage_sql s = [] then {} else W) ins dbs0 (ex_databases ex)"
  shows "submitted env q s ins dbs0 W ws (tickets ts) (ex_outputs ex) ex' r"
  using assms
proof (induction ws arbitrary: mon ts ex W)
  case (Cons w ws)
  obtain ex1 mon1 r1 where x: "execute_sql_with_monitor env w (stage_sql s) ins (LocalCatalog \<in> set (inputs s))
      (env_elapsed env (stage_id s) w) mon ex = (ex1, mon1, r1)" by (metis prod_cases3)
  note run = execute_sql_cases [OF x Cons.prems(3-5)]
  show ?case
  proof (cases r1)
    case (Inl e)
    with x Cons.prems(1) run show ?thesis by (auto intro!: submitted_failed [of s "insert w W"])
  next
    case (Inr out)
    with run have ok: "sessions_ok (if stage_sql s = [] then {} else W - {w}) ins dbs0 (ex_databases ex1)"
      "query_answer env (map_option ses_catalog (dbs0 w)) ins (stage_sql s) = Some out" "ex_outputs ex1 = ex_outputs ex"
      by simp_all
    have err: "submitted env q s ins dbs0 W (w # ws) (tickets ts) (ex_outputs ex) ex1 (Inl e)" for e :: stage_stop
      using ok by (intro submitted_failed [of s "W - {w}"]) auto
    show ?thesis
    proof (cases "check_output_limits env out (limits s)")
      case limits: (Inr u)
      show ?thesis
      proof (cases "worker_tickets env q s w out")
        case tos: (Inr tos)
        let ?ex2 = "fold (\<lambda>(t, bs). store_output t bs) tos ex1"
        have "submit_to_workers env q s ins ws mon1 (fold (\<lambda>(t, _). tickets_add t) tos ts) ?ex2 = (ex', r)"
          using Cons.prems(1) x Inr limits tos by simp
        from Cons.IH [OF this _ Cons.prems(3,4), of "W - {w}"] Cons.prems(2) ok(1)
        have "submitted env q s ins dbs0 (W - {w}) ws (tickets ts @ map fst tos) (ex_outputs ?ex2) ex' r"
          by (simp add: store_all(1))
        from submitted_step [OF this _ tos ok(2)] Cons.prems(2) ok(3) show ?thesis by simp
      qed (use x Inr limits Cons.prems(1) err in auto)
    qed (use x Inr Cons.prems(1) err in auto)
  qed
qed (auto simp: submitted_def split: if_splits)

text \<open>The stage ran on the workers \<open>ws\<close> and left the sessions as they were.\<close>

definition completed ::
  "'db local_env \<Rightarrow> string \<Rightarrow> stage \<Rightarrow> tables \<Rightarrow> (worker_id \<rightharpoonup> 'db session) \<Rightarrow> worker_id list \<Rightarrow>
   'db local_stage_executor \<Rightarrow> stage_ticket list \<Rightarrow> bool" where
  "completed env q s ins dbs0 ws ex ts \<longleftrightarrow> ex_databases ex = dbs0 \<and>
     (\<exists>tof. ts = concat (map tof ws) \<and> (\<forall>w\<in>set ws. ran_on env q s dbs0 ins (ex_outputs ex) w (tof w)))"

definition clean_sessions :: "(worker_id \<rightharpoonup> 'db session) \<Rightarrow> bool" where
  "clean_sessions dbs \<longleftrightarrow> (\<forall>w db. dbs w = Some db \<longrightarrow> ses_temps db = Map.empty)"

lemma attempt_stage_cases:
  assumes "attempt_stage env n q s ins k last_error ex = (ex', r)" "distinct (target_workers s)"
    and "input_order_law env" "finite (dom ins)" "clean_sessions dbs0"
    and "sessions_ok (if stage_sql s = [] then {} else set (target_workers s)) ins dbs0 (ex_databases ex)"
  shows "(\<forall>k. (\<forall>w\<in>set (target_workers s). \<not> written_by env q s w k) \<longrightarrow> ex_outputs ex' k = ex_outputs ex k) \<and>
    (\<forall>ts. r = Inr ts \<longrightarrow> completed env q s ins dbs0 (target_workers s) ex' (tickets ts))"
  using assms
proof (induction env n q s ins k last_error ex rule: attempt_stage.induct)
  case (2 env n q s ins k last_error ex)
  obtain ex1 r1 where sub: "submit_stage env q s ins ex = (ex1, r1)" by fastforce
  from submit_cases [OF sub [unfolded submit_stage_def] 2(3-5,7)]
  have d: "submitted env q s ins dbs0 (set (target_workers s)) (target_workers s) [] (ex_outputs ex) ex1 r1"
    by (simp add: tickets_new_def)
  have clean: "sessions_ok {} ins dbs0 dbs \<longleftrightarrow> dbs = dbs0" for dbs
    by (rule sessions_ok_clean) (use 2(6) in \<open>auto simp: clean_sessions_def\<close>)
  show ?case
  proof (cases r1)
    case (Inr ts)
    with d sub 2(2) show ?thesis by (auto simp: submitted_def completed_def clean split: if_splits)
  next
    case (Inl stop)
    with d have keep: "\<forall>k. (\<forall>w\<in>set (target_workers s). \<not> written_by env q s w k) \<longrightarrow> ex_outputs ex1 k = ex_outputs ex k"
      and ses: "sessions_ok (if stage_sql s = [] then {} else set (target_workers s)) ins dbs0 (ex_databases ex1)"
      by (auto simp: submitted_def split: if_splits)
    show ?thesis
    proof (cases stop)
      case (StageStopped e)
      let ?err = "StageFailed (stage_id s) (stage_execution_error_display e)"
      show ?thesis
      proof (cases "is_retryable_error ?err")
        case True
        with 2(2) sub Inl StageStopped have
          "attempt_stage env n q s ins k (Some ?err) ex1 = (ex', r)" by (simp add: Let_def)
        from 2(1) [OF sub [symmetric] Inl StageStopped refl _ this 2(3-6) ses] True keep show ?thesis by auto
      qed (use 2(2) sub Inl StageStopped keep in \<open>auto simp: Let_def\<close>)
    qed (use 2(2) sub Inl keep in auto)
  qed
qed auto

lemma retry_cases:
  assumes "execute_stage_with_retry env n q s ins ex = (ex', r)" "distinct (target_workers s)"
    and "input_order_law env" "finite (dom ins)" "clean_sessions dbs0" "ex_databases ex = dbs0"
  shows "(\<forall>w\<in>set (target_workers s). \<not> written_by env q s w k) \<Longrightarrow> ex_outputs ex' k = ex_outputs ex k"
    and "r = Inr ts \<Longrightarrow> completed env q s ins dbs0 (target_workers s) ex' (tickets ts)"
proof -
  have "sessions_ok {} ins dbs0 (ex_databases ex)"
    using sessions_ok_clean [of dbs0 ins "ex_databases ex"] assms(5,6) by (auto simp: clean_sessions_def)
  then have "sessions_ok (if stage_sql s = [] then {} else set (target_workers s)) ins dbs0 (ex_databases ex)"
    by (rule sessions_ok_mono) simp
  from attempt_stage_cases [OF assms(1) [unfolded execute_stage_with_retry_def] assms(2-5) this]
  show "(\<forall>w\<in>set (target_workers s). \<not> written_by env q s w k) \<Longrightarrow> ex_outputs ex' k = ex_outputs ex k"
    and "r = Inr ts \<Longrightarrow> completed env q s ins dbs0 (target_workers s) ex' (tickets ts)" by auto
qed

section \<open>Inputs\<close>

lemma fetch_all_cong: "(\<And>t. t \<in> set (tickets ts) \<Longrightarrow> fetch t = fetch' t) \<Longrightarrow> fetch_all fetch ts = fetch_all fetch' ts"
  unfolding fetch_all_def by (rule fold_ok_cong) auto

lemma exchange_cong:
  assumes "\<And>t. t \<in> set (tickets ts) \<Longrightarrow> fetch t = fetch' t"
  shows "execute_exchange_for_worker a h it fetch edge ts w = execute_exchange_for_worker a h it fetch' edge ts w"
  using fetch_all_cong [OF assms]
  by (simp add: execute_exchange_for_worker_def execute_gather_def execute_broadcast_def
      execute_hash_partition_for_worker_def split: exchange.split)

text \<open>Inputs stay the same when more stages complete and the upstream outputs do not change.\<close>

lemma resolve_inputs_more:
  assumes "resolve_inputs_with run plan sid outs = Inr ins" "outs \<subseteq>\<^sub>m outs'"
    and "\<And>edge ts s. outs s = Some ts \<Longrightarrow> run' edge ts = run edge ts"
  shows "resolve_inputs_with run' plan sid outs' = Inr ins"
proof -
  obtain s where s: "get_stage plan sid = Some s" using assms(1) by (auto simp: resolve_inputs_with_def split: option.splits)
  let ?step = "\<lambda>run outs i m. (case i of LocalCatalog \<Rightarrow> Inr m
     | ExchangeInput x table_name \<Rightarrow>
         (case find (\<lambda>e. edge_id e = x) (edges plan) of
            None \<Rightarrow> Inl (ExchangeFailed (ExchangeNotFound x))
          | Some edge \<Rightarrow>
              (case outs (from_stage edge) of
                 None \<Rightarrow> Inl (ExchangeFailed (UpstreamNotReady (from_stage edge)))
               | Some ts \<Rightarrow> bind_ok (run edge ts) (\<lambda>batches. Inr (m(table_name \<mapsto> batches))))))"
  have step: "?step run' outs' i m = Inr m'" if "?step run outs i m = Inr m'" for i and m m' :: tables
    using that assms(2,3) by (auto simp: map_le_def dom_def split: stage_input.splits option.splits) (metis+)?
  have "fold_ok (?step run' outs') xs m = Inr m'" if "fold_ok (?step run outs) xs m = Inr m'" for xs and m m' :: tables
    using that by (induction xs arbitrary: m) (auto dest!: step)
  with assms(1) s show ?thesis by (simp add: resolve_inputs_with_def)
qed

lemma resolved_finite:
  assumes "resolve_inputs_with run plan sid outs = Inr ins"
  shows "finite (dom ins)"
proof -
  obtain s where s: "get_stage plan sid = Some s" using assms by (auto simp: resolve_inputs_with_def split: option.splits)
  let ?step = "\<lambda>i (m :: tables). (case i of LocalCatalog \<Rightarrow> Inr m
     | ExchangeInput x table_name \<Rightarrow>
         (case find (\<lambda>e. edge_id e = x) (edges plan) of
            None \<Rightarrow> Inl (ExchangeFailed (ExchangeNotFound x))
          | Some edge \<Rightarrow>
              (case outs (from_stage edge) of
                 None \<Rightarrow> Inl (ExchangeFailed (UpstreamNotReady (from_stage edge)))
               | Some ts \<Rightarrow> bind_ok (run edge ts) (\<lambda>batches. Inr (m(table_name \<mapsto> batches))))))"
  have "finite (dom m')" if "fold_ok ?step xs m = Inr m'" "finite (dom m)" for xs m m'
    using that by (induction xs arbitrary: m) (auto split: stage_input.splits option.splits)
  from this [of "inputs s" Map.empty ins] assms s show ?thesis by (simp add: resolve_inputs_with_def)
qed

lemma resolve_no_exchange:
  assumes "get_stage plan sid = Some s" "\<not> has_exchange_inputs s"
  shows "resolve_inputs_with run plan sid outs = Inr Map.empty"
proof -
  have "i = LocalCatalog" if "i \<in> set (inputs s)" for i
    using assms(2) that by (cases i) (auto simp: has_exchange_inputs_def list_ex_iff)
  then have "fold_ok (\<lambda>i m. (case i of LocalCatalog \<Rightarrow> Inr m | ExchangeInput x t \<Rightarrow> f x t m)) xs m = Inr m"
    if "set xs \<subseteq> set (inputs s)" for xs and f :: "exchange_id \<Rightarrow> string \<Rightarrow> tables \<Rightarrow> exchange_stop + tables" and m
    using that by (induction xs arbitrary: m) fastforce+
  with assms(1) show ?thesis by (simp add: resolve_inputs_with_def)
qed

section \<open>The data flow of a plan\<close>

text \<open>
  The equations that the outputs of a stage satisfy: each worker's inputs are what the
  exchanges deliver to it from the upstream outputs, its SQL was answered on these inputs
  and the worker's catalog, and the answer is stored under the tickets of the stage.
\<close>

definition worker_done ::
  "'db local_env \<Rightarrow> string \<Rightarrow> ldp_plan \<Rightarrow> (worker_id \<rightharpoonup> 'db session) \<Rightarrow> (stage_id \<rightharpoonup> stage_tickets) \<Rightarrow>
   'db local_stage_executor \<Rightarrow> stage \<Rightarrow> worker_id \<Rightarrow> stage_ticket list \<Rightarrow> bool" where
  "worker_done env q plan dbs outs ex s w ts \<longleftrightarrow>
     (\<exists>ins. resolve_inputs_for_worker (env_arrow env) (env_hasher env) (env_iteration env) (fetch_output ex) plan
        (stage_id s) w outs = Inr ins \<and> ran_on env q s dbs ins (ex_outputs ex) w ts)"

definition stage_done ::
  "'db local_env \<Rightarrow> string \<Rightarrow> ldp_plan \<Rightarrow> (worker_id \<rightharpoonup> 'db session) \<Rightarrow> (stage_id \<rightharpoonup> stage_tickets) \<Rightarrow>
   'db local_stage_executor \<Rightarrow> stage_id \<Rightarrow> stage_tickets \<Rightarrow> bool" where
  "stage_done env q plan dbs outs ex sid ts \<longleftrightarrow>
     (\<exists>s tof. get_stage plan sid = Some s \<and> tickets ts = concat (map tof (target_workers s)) \<and>
        (\<forall>w\<in>set (target_workers s). worker_done env q plan dbs outs ex s w (tof w)))"

definition keyed :: "(stage_id \<rightharpoonup> stage_tickets) \<Rightarrow> bool" where
  "keyed outs \<longleftrightarrow> (\<forall>sid ts. outs sid = Some ts \<longrightarrow> (\<forall>t\<in>set (tickets ts). stage_key sid (tk_ticket_id t)))"

lemma get_stage_id: "get_stage plan sid = Some s \<Longrightarrow> stage_id s = sid \<and> s \<in> set (stages plan)"
  by (auto simp: get_stage_def find_Some_iff)

lemma ran_on_keys: "ran_on env q s dbs ins outputs w ts \<Longrightarrow> t \<in> set ts \<Longrightarrow>
    stage_key (stage_id s) (tk_ticket_id t) \<and> tk_worker_id t = w"
  unfolding ran_on_def using worker_tickets_keys(2) by fastforce

lemma stage_done_keys:
  assumes "stage_done env q plan dbs outs ex sid ts" "t \<in> set (tickets ts)"
  shows "stage_key sid (tk_ticket_id t)" "\<exists>s\<in>set (stages plan). tk_worker_id t \<in> set (target_workers s)"
proof -
  from assms obtain s tof w where s: "get_stage plan sid = Some s" "w \<in> set (target_workers s)" "t \<in> set (tof w)"
    "worker_done env q plan dbs outs ex s w (tof w)" by (auto simp: stage_done_def)
  then show "stage_key sid (tk_ticket_id t)" "\<exists>s\<in>set (stages plan). tk_worker_id t \<in> set (target_workers s)"
    using ran_on_keys get_stage_id [OF s(1)] by (fastforce simp: worker_done_def)+
qed

text \<open>A worker that is done stays done when other tickets are written.\<close>

lemma worker_done_more:
  assumes "worker_done env q plan dbs outs ex s w ts" "outs \<subseteq>\<^sub>m outs'" "keyed outs"
    and "\<And>k sid. sid \<in> dom outs \<Longrightarrow> stage_key sid k \<Longrightarrow> ex_outputs ex' k = ex_outputs ex k"
    and "\<And>k. written_by env q s w k \<Longrightarrow> ex_outputs ex' k = ex_outputs ex k"
  shows "worker_done env q plan dbs outs' ex' s w ts"
proof -
  let ?run = "\<lambda>ex edge ts. execute_exchange_for_worker (env_arrow env) (env_hasher env) (env_iteration env)
    (fetch_output ex) edge ts w"
  from assms(1) obtain ins where ins: "resolve_inputs_with (?run ex) plan (stage_id s) outs = Inr ins"
    "ran_on env q s dbs ins (ex_outputs ex) w ts" by (auto simp: worker_done_def resolve_inputs_for_worker_def)
  have "?run ex' edge ts = ?run ex edge ts" if "outs sid = Some ts" for edge ts sid
  proof (rule exchange_cong)
    fix t assume "t \<in> set (tickets ts)"
    with assms(3) that have "stage_key sid (tk_ticket_id t)" by (simp add: keyed_def)
    moreover from that have "sid \<in> dom outs" by blast
    ultimately have "ex_outputs ex' (tk_ticket_id t) = ex_outputs ex (tk_ticket_id t)" by (intro assms(4))
    then show "fetch_output ex' t = fetch_output ex t" by (simp add: fetch_output_def)
  qed
  from resolve_inputs_more [OF ins(1) assms(2) this] ran_on_cong [OF ins(2) assms(5)] show ?thesis
    by (auto simp: worker_done_def resolve_inputs_for_worker_def)
qed

lemma stage_done_more:
  assumes "stage_done env q plan dbs outs ex sid ts" "outs \<subseteq>\<^sub>m outs'" "keyed outs"
    and "\<And>k sid'. sid' \<in> insert sid (dom outs) \<Longrightarrow> stage_key sid' k \<Longrightarrow> ex_outputs ex' k = ex_outputs ex k"
  shows "stage_done env q plan dbs outs' ex' sid ts"
proof -
  from assms(1) obtain s tof where s: "get_stage plan sid = Some s" "tickets ts = concat (map tof (target_workers s))"
    "\<forall>w\<in>set (target_workers s). worker_done env q plan dbs outs ex s w (tof w)" by (auto simp: stage_done_def)
  have "worker_done env q plan dbs outs' ex' s w (tof w)" if "w \<in> set (target_workers s)" for w
  proof (rule worker_done_more [OF bspec [OF s(3) that] assms(2,3)])
    show "ex_outputs ex' k = ex_outputs ex k" if "written_by env q s w k" for k
      using written_by_stage [OF that] get_stage_id [OF s(1)] assms(4) by blast
  qed (use assms(4) in blast)
  with s show ?thesis by (auto simp: stage_done_def)
qed

section \<open>Execution\<close>

lemma worker_stage [simp]:
  "worker_tickets env q (s\<lparr>target_workers := ws\<rparr>) w = worker_tickets env q s w"
  "written_by env q (s\<lparr>target_workers := ws\<rparr>) w = written_by env q s w"
  "ran_on env q (s\<lparr>target_workers := ws\<rparr>) dbs ins outputs w = ran_on env q s dbs ins outputs w"
  by (auto simp: fun_eq_iff worker_tickets_def written_by_def ran_on_def split: stage_output.splits)

text \<open>The facts that the steps of an execution share.\<close>

definition execution_context ::
  "'db local_env \<Rightarrow> (worker_id \<rightharpoonup> 'db session) \<Rightarrow> ldp_plan \<Rightarrow> (stage_id \<rightharpoonup> stage_tickets) \<Rightarrow> bool" where
  "execution_context env dbs plan outs \<longleftrightarrow> input_order_law env \<and> clean_sessions dbs \<and> keyed outs \<and>
     (\<forall>s\<in>set (stages plan). distinct (target_workers s))"

lemma run_per_worker_done:
  assumes "run_per_worker env n q plan outs s ws all ex = (ex', Inr ts)" "distinct ws"
    and "execution_context env dbs plan outs" "stage_id s \<notin> dom outs" "ex_databases ex = dbs"
  shows "ex_databases ex' = dbs \<and>
    (\<forall>k. (\<forall>w\<in>set ws. \<not> written_by env q s w k) \<longrightarrow> ex_outputs ex' k = ex_outputs ex k) \<and>
    (\<exists>tof. tickets ts = tickets all @ concat (map tof ws) \<and>
      (\<forall>w\<in>set ws. worker_done env q plan dbs outs ex' s w (tof w)))"
  using assms
proof (induction ws arbitrary: all ex)
  case (Cons w ws)
  let ?res = "resolve_inputs_for_worker (env_arrow env) (env_hasher env) (env_iteration env) (fetch_output ex) plan
    (stage_id s) w outs"
  from Cons.prems(1) obtain ins ex1 ts1 where ins: "?res = Inr ins"
    and retry: "execute_stage_with_retry env n q (s\<lparr>target_workers := [w]\<rparr>) ins ex = (ex1, Inr ts1)"
    and rest: "run_per_worker env n q plan outs s ws (fold tickets_add (tickets ts1) all) ex1 = (ex', Inr ts)"
    by (auto simp: exchange_stopped_def split: sum.splits exchange_stop.splits prod.splits)
  have fin: "finite (dom ins)" using ins unfolding resolve_inputs_for_worker_def by (rule resolved_finite)
  from Cons.prems(3) have law: "input_order_law env" "clean_sessions dbs" "keyed outs" by (simp_all add: execution_context_def)
  note once = retry_cases [OF retry _ law(1) fin law(2) Cons.prems(5), simplified]
  from once(2) have dbs1: "ex_databases ex1 = dbs" and ran: "ran_on env q s dbs ins (ex_outputs ex1) w (tickets ts1)"
    by (auto simp: completed_def)
  have keep1: "ex_outputs ex1 k = ex_outputs ex k" if "\<not> written_by env q s w k" for k
    using once(1) [of k] that by simp
  from Cons.prems(2) have w: "w \<notin> set ws" "distinct ws" by simp_all
  from Cons.IH [OF rest w(2) Cons.prems(3,4) dbs1] obtain tof where dbs': "ex_databases ex' = dbs"
    and keep: "\<And>k. (\<forall>v\<in>set ws. \<not> written_by env q s v k) \<Longrightarrow> ex_outputs ex' k = ex_outputs ex1 k"
    and tof: "tickets ts = (tickets all @ tickets ts1) @ concat (map tof ws)"
      "\<forall>v\<in>set ws. worker_done env q plan dbs outs ex' s v (tof v)" by auto
  have other: "\<not> written_by env q s v k" if "sid \<in> dom outs" "stage_key sid k" for v k sid
    using that Cons.prems(4) written_by_stage stage_key_unique by blast
  have "worker_done env q plan dbs outs ex' s w (tickets ts1)"
  proof -
    have "resolve_inputs_for_worker (env_arrow env) (env_hasher env) (env_iteration env) (fetch_output ex1) plan
        (stage_id s) w outs = Inr ins"
      unfolding resolve_inputs_for_worker_def
    proof (rule resolve_inputs_more [OF ins [unfolded resolve_inputs_for_worker_def]], simp, rule exchange_cong)
      fix edge ts' sid t assume "outs sid = Some ts'" "t \<in> set (tickets ts')"
      with law(3) have "stage_key sid (tk_ticket_id t)" "sid \<in> dom outs" by (auto simp: keyed_def)
      with other keep1 show "fetch_output ex1 t = fetch_output ex t" by (simp add: fetch_output_def)
    qed
    with ran have "worker_done env q plan dbs outs ex1 s w (tickets ts1)" by (auto simp: worker_done_def)
    then show ?thesis
    proof (rule worker_done_more [OF _ map_le_refl law(3)])
      show "ex_outputs ex' k = ex_outputs ex1 k" if "sid \<in> dom outs" "stage_key sid k" for k sid
        using keep other [OF that] by blast
      show "ex_outputs ex' k = ex_outputs ex1 k" if "written_by env q s w k" for k
        using keep written_by_unique [OF that] w(1) by metis
    qed
  qed
  with tof w(1) have "\<exists>tof. tickets ts = tickets all @ concat (map tof (w # ws)) \<and>
      (\<forall>v\<in>set (w # ws). worker_done env q plan dbs outs ex' s v (tof v))"
    by (intro exI [of _ "tof(w := tickets ts1)"]) (auto simp: map_fun_upd)
  with dbs' keep keep1 show ?case by auto
qed simp

lemma run_local_stage_done:
  assumes "run_local_stage env n q plan outs sid ex = (ex', Inr ts)"
    and "execution_context env dbs plan outs" "sid \<notin> dom outs" "ex_databases ex = dbs"
  shows "ex_databases ex' = dbs" "stage_done env q plan dbs outs ex' sid ts"
    and "\<not> stage_key sid k \<Longrightarrow> ex_outputs ex' k = ex_outputs ex k"
proof -
  from assms(1) obtain s where s: "get_stage plan sid = Some s"
    by (auto simp: run_local_stage_def split: option.splits)
  note id = get_stage_id [OF s]
  with assms(2) have law: "input_order_law env" "clean_sessions dbs" "distinct (target_workers s)"
    by (auto simp: execution_context_def)
  have "ex_databases ex' = dbs \<and> stage_done env q plan dbs outs ex' sid ts \<and>
      (\<forall>k. (\<forall>w\<in>set (target_workers s). \<not> written_by env q s w k) \<longrightarrow> ex_outputs ex' k = ex_outputs ex k)"
  proof (cases "has_exchange_inputs s")
    case True
    with assms(1) s have "run_per_worker env n q plan outs s (target_workers s) tickets_new ex = (ex', Inr ts)"
      by (simp add: run_local_stage_def)
    from run_per_worker_done [OF this law(3) assms(2) _ assms(4)] id assms(3) s show ?thesis
      by (auto simp: stage_done_def tickets_new_def)
  next
    case False
    note ins = resolve_no_exchange [OF s False]
    with assms(1) s False have retry: "execute_stage_with_retry env n q s Map.empty ex = (ex', Inr ts)"
      by (simp add: run_local_stage_def resolve_inputs_def exchange_stopped_def)
    have "completed env q s Map.empty dbs (target_workers s) ex' (tickets ts)"
      by (rule retry_cases(2) [OF retry law(3,1) _ law(2) assms(4) refl]) simp
    with ins s id have "ex_databases ex' = dbs" "stage_done env q plan dbs outs ex' sid ts"
      by (auto simp: completed_def stage_done_def worker_done_def resolve_inputs_for_worker_def)
    with retry_cases(1) [OF retry law(3,1) _ law(2) assms(4)] show ?thesis by simp
  qed
  then show "ex_databases ex' = dbs" "stage_done env q plan dbs outs ex' sid ts"
    and "\<not> stage_key sid k \<Longrightarrow> ex_outputs ex' k = ex_outputs ex k"
    using written_by_stage id by blast+
qed

text \<open>A level in which every stage succeeded.\<close>

lemma run_level_done:
  assumes "run_level env n q plan outs level ex = (ex', Inr rs)" "\<And>sid r. (sid, r) \<in> set rs \<Longrightarrow> \<exists>ts. r = Inr ts"
    and "execution_context env dbs plan outs" "distinct level" "set level \<inter> dom outs = {}" "ex_databases ex = dbs"
  shows "ex_databases ex' = dbs \<and> map fst rs = level \<and>
    (\<forall>k. (\<forall>sid\<in>set level. \<not> stage_key sid k) \<longrightarrow> ex_outputs ex' k = ex_outputs ex k) \<and>
    (\<forall>sid ts. (sid, Inr ts) \<in> set rs \<longrightarrow> stage_done env q plan dbs outs ex' sid ts)"
  using assms
proof (induction level arbitrary: ex rs)
  case (Cons sid level)
  obtain ex1 r1 where one: "run_local_stage env n q plan outs sid ex = (ex1, r1)" by fastforce
  have "\<exists>ts. r1 = Inr ts"
  proof (cases r1)
    case (Inl stop)
    with Cons.prems(1) one obtain e rs1 where "rs = (sid, Inl e) # rs1"
      by (cases stop) (auto split: prod.splits)
    with Cons.prems(2) [of sid "Inl e"] show ?thesis by simp
  qed simp
  with Cons.prems(1) one obtain ts rs1 where ts: "r1 = Inr ts" "rs = (sid, Inr ts) # rs1"
    and rest: "run_level env n q plan outs level ex1 = (ex', Inr rs1)" by (auto split: prod.splits)
  note ran = run_local_stage_done [OF one [unfolded ts(1)] Cons.prems(3) _ Cons.prems(6)]
  from Cons.prems(4,5) have sid: "sid \<notin> dom outs" "sid \<notin> set level" "distinct level" "set level \<inter> dom outs = {}" by auto
  have "ex_databases ex' = dbs \<and> map fst rs1 = level \<and>
      (\<forall>k. (\<forall>sid\<in>set level. \<not> stage_key sid k) \<longrightarrow> ex_outputs ex' k = ex_outputs ex1 k) \<and>
      (\<forall>sid ts. (sid, Inr ts) \<in> set rs1 \<longrightarrow> stage_done env q plan dbs outs ex' sid ts)"
    using Cons.prems(2) ts(2) by (intro Cons.IH [OF rest _ Cons.prems(3) sid(3,4) ran(1) [OF sid(1)]]) auto
  moreover from this have "stage_done env q plan dbs outs ex' sid ts"
  proof (intro stage_done_more [OF ran(2) [OF sid(1)] map_le_refl])
    show "keyed outs" using Cons.prems(3) by (simp add: execution_context_def)
    fix k sid' assume "sid' \<in> insert sid (dom outs)" "stage_key sid' k"
    with sid have "\<forall>v\<in>set level. \<not> stage_key v k" using stage_key_unique by blast
    with calculation show "ex_outputs ex' k = ex_outputs ex1 k" by blast
  qed
  ultimately show ?case using ran(3) [OF sid(1)] ts(2) by auto
qed simp

lemma workers_pushed: "set (fold (\<lambda>t ws. push_new ws (tk_worker_id t)) ts ws) = set ws \<union> tk_worker_id ` set ts"
  by (induction ts arbitrary: ws) auto

lemma collect_level_done:
  assumes "collect_level order q rs outs workers co = (co', Inr (outs', workers'))"
  shows "\<exists>oks. rs = map (\<lambda>(sid, ts). (sid, Inr ts)) oks \<and> outs' = outs ++ map_of (rev oks) \<and>
    set workers' = set workers \<union> (\<Union>(sid, ts)\<in>set oks. tk_worker_id ` set (tickets ts))"
  using assms
proof (induction order q rs outs workers co rule: collect_level.induct)
  case (3 order q sid ts rs outs workers co)
  from 3(2) have "collect_level order q rs (outs(sid \<mapsto> ts))
      (fold (\<lambda>t ws. push_new ws (tk_worker_id t)) (tickets ts) workers)
      (set_stage_status q sid (StatusCompleted ts) co) = (co', Inr (outs', workers'))" by simp
  from 3(1) [OF this] obtain oks where "rs = map (\<lambda>(sid, ts). (sid, Inr ts)) oks"
    "outs' = outs(sid \<mapsto> ts) ++ map_of (rev oks)"
    "set workers' = (set workers \<union> tk_worker_id ` set (tickets ts)) \<union>
      (\<Union>(sid, ts)\<in>set oks. tk_worker_id ` set (tickets ts))" unfolding workers_pushed by blast
  then show ?case by (intro exI [of _ "(sid, ts) # oks"]) (simp add: Un_assoc)
qed simp_all

definition run_state ::
  "'db local_env \<Rightarrow> string \<Rightarrow> ldp_plan \<Rightarrow> (worker_id \<rightharpoonup> 'db session) \<Rightarrow> (stage_id \<rightharpoonup> stage_tickets) \<Rightarrow> worker_id list \<Rightarrow>
   'db local_stage_executor \<Rightarrow> bool" where
  "run_state env q plan dbs outs workers ex \<longleftrightarrow> ex_databases ex = dbs \<and> keyed outs \<and>
     (\<forall>sid ts. outs sid = Some ts \<longrightarrow> stage_done env q plan dbs outs ex sid ts) \<and>
     set workers = {tk_worker_id t | sid ts t. outs sid = Some ts \<and> t \<in> set (tickets ts)}"

lemma level_run_state:
  assumes "run_state env q plan dbs outs workers ex" "run_level env n q plan outs level ex = (ex', Inr rs)"
    and "collect_level order q rs outs workers co = (co', Inr (outs', workers'))"
    and "input_order_law env" "clean_sessions dbs" "\<forall>s\<in>set (stages plan). distinct (target_workers s)"
    and "distinct level" "set level \<inter> dom outs = {}"
  shows "run_state env q plan dbs outs' workers' ex'" "dom outs' = dom outs \<union> set level"
proof -
  from assms(1) have st: "ex_databases ex = dbs" "keyed outs"
    "\<And>sid ts. outs sid = Some ts \<Longrightarrow> stage_done env q plan dbs outs ex sid ts"
    "set workers = {tk_worker_id t | sid ts t. outs sid = Some ts \<and> t \<in> set (tickets ts)}"
    by (simp_all add: run_state_def)
  have ctx: "execution_context env dbs plan outs" using assms(4-6) st(2) by (simp add: execution_context_def)
  from collect_level_done [OF assms(3)] obtain oks where rs: "rs = map (\<lambda>(sid, ts). (sid, Inr ts)) oks"
    and outs'_eq: "outs' = outs ++ map_of (rev oks)"
    and ws: "set workers' = set workers \<union> (\<Union>(sid, ts)\<in>set oks. tk_worker_id ` set (tickets ts))" by blast
  have "\<exists>ts. r = Inr ts" if "(sid, r) \<in> set rs" for sid r using that unfolding rs by auto
  note r = run_level_done [OF assms(2) this ctx assms(7,8) st(1)]
  have level: "map fst oks = level" using r unfolding rs by (simp add: comp_def case_prod_beta)
  have ran: "stage_done env q plan dbs outs ex' sid ts" if "(sid, ts) \<in> set oks" for sid ts
  proof -
    have "(sid, Inr ts) \<in> set rs" unfolding rs using that by force
    with r show ?thesis by simp
  qed
  have keep: "ex_outputs ex' k = ex_outputs ex k" if "\<forall>sid\<in>set level. \<not> stage_key sid k" for k
    using r that by simp
  have new: "map_of (rev oks) sid = Some ts \<longleftrightarrow> (sid, ts) \<in> set oks" for sid ts
    using map_of_eq_Some_iff [of "rev oks" sid ts] assms(7) by (simp add: rev_map [symmetric] level)
  have dom: "dom (map_of (rev oks)) = set level"
    unfolding dom_map_of_conv_image_fst level [symmetric] by simp
  have outs': "outs' sid = Some ts \<longleftrightarrow> (sid, ts) \<in> set oks \<or> outs sid = Some ts" for sid ts
    using assms(8) dom unfolding outs'_eq map_add_Some_iff new by blast
  show "dom outs' = dom outs \<union> set level" unfolding outs'_eq dom_map_add dom by blast
  have more: "outs \<subseteq>\<^sub>m outs'" unfolding map_le_def using outs' by (metis domD)
  have complete: "stage_done env q plan dbs outs ex' sid ts" if "outs' sid = Some ts" for sid ts
    using that unfolding outs'
  proof
    assume prev: "outs sid = Some ts"
    show ?thesis
    proof (rule stage_done_more [OF st(3) [OF prev] map_le_refl st(2)])
      fix k sid' assume "sid' \<in> insert sid (dom outs)" "stage_key sid' k"
      with prev assms(8) show "ex_outputs ex' k = ex_outputs ex k"
        using stage_key_unique by (intro keep) blast
    qed
  qed (rule ran)
  have "keyed outs'" unfolding keyed_def using stage_done_keys(1) [OF complete] by blast
  moreover have "stage_done env q plan dbs outs' ex' sid ts" if "outs' sid = Some ts" for sid ts
    by (rule stage_done_more [OF complete [OF that] more st(2)]) simp
  moreover have "set workers' = {tk_worker_id t | sid ts t. outs' sid = Some ts \<and> t \<in> set (tickets ts)}"
    unfolding ws st(4) outs' by auto
  ultimately show "run_state env q plan dbs outs' workers' ex'" using r by (simp add: run_state_def)
qed

lemma run_levels_state:
  assumes "run_levels env order q plan levels outs workers co ex = (co', ex', Inr (outs', workers'))"
    and "run_state env q plan dbs outs workers ex"
    and "input_order_law env" "clean_sessions dbs" "\<forall>s\<in>set (stages plan). distinct (target_workers s)"
    and "distinct (concat levels)" "set (concat levels) \<inter> dom outs = {}"
  shows "run_state env q plan dbs outs' workers' ex' \<and> dom outs' = dom outs \<union> set (concat levels)"
  using assms
proof (induction levels arbitrary: outs workers co ex)
  case (Cons level levels)
  from Cons.prems(1) obtain ex1 rs co1 outs1 workers1 where
    one: "run_level env (cc_max_stage_retries (co_config co)) q plan outs level ex = (ex1, Inr rs)"
    and col: "collect_level order q rs outs workers co = (co1, Inr (outs1, workers1))"
    and rest: "run_levels env order q plan levels outs1 workers1 co1 ex1 = (co', ex', Inr (outs', workers'))"
    by (auto split: prod.splits sum.splits)
  from Cons.prems(6,7) have level: "distinct level" "set level \<inter> dom outs = {}" by auto
  note st = level_run_state [OF Cons.prems(2) one col Cons.prems(3-5) level]
  have "run_state env q plan dbs outs' workers' ex' \<and> dom outs' = dom outs1 \<union> set (concat levels)"
    by (rule Cons.IH [OF rest st(1) Cons.prems(3-5)]) (use Cons.prems(6,7) st(2) in auto)
  with st(2) show ?case by auto
qed simp

lemma fetch_root_batches:
  "fetch_root ex plan ts = Inr batches \<Longrightarrow>
   batches = concat (map (\<lambda>t. the (ex_outputs ex (tk_ticket_id t))) (tickets ts))"
proof -
  have "concat bss = concat (map (\<lambda>t. the (ex_outputs ex (tk_ticket_id t))) xs)"
    if "map_ok (\<lambda>t. (case fetch_output ex t of Inl e \<Rightarrow> Inl (f e) | Inr batches \<Rightarrow> Inr batches)) xs = Inr bss"
    for xs bss and f :: "stage_execution_error \<Rightarrow> coordinator_stop"
    using that by (induction xs arbitrary: bss) (auto simp: fetch_output_def split: option.splits sum.splits)
  then show "fetch_root ex plan ts = Inr batches \<Longrightarrow> ?thesis" by (auto simp: fetch_root_def)
qed


section \<open>A run\<close>

text \<open>Inputs in the order of their names.\<close>

definition ascending_inputs :: "tables \<Rightarrow> (string \<times> record_batch list) list" where
  "ascending_inputs m = map (\<lambda>t. (t, the (m t))) (sorted_list_of_set (dom m))"

definition one_cell :: "int \<Rightarrow> record_batch" where
  "one_cell i = \<lparr>rb_schema = [\<lparr>field_name = ''k'', field_type = Int64\<rparr>], rb_rows = [[IntCell i]]\<rparr>"

text \<open>
  A database whose catalog is the result of \<^verbatim>\<open>scan\<close>; every other query returns the exchanged table.
\<close>

definition sample_env :: "record_batch list local_env" where
  "sample_env =
     \<lparr>env_arrow = plain_arrow, env_hasher = (\<lambda>_. 0), env_iteration = \<lparr>count_order = (\<lambda>m. m), key_order = (\<lambda>ks. ks)\<rparr>,
      env_pool_error = (\<lambda>_. None), env_open_error = None, env_register_failure = (\<lambda>_ _. None),
      env_query = (\<lambda>cat temps sql. Rows [] (if sql = ''scan'' then the cat else the (temps ''x''))),
      env_memory_size = (\<lambda>_. 8), env_input_order = ascending_inputs,
      env_duration = show_nat, env_elapsed = (\<lambda>_ _. 0)\<rparr>"

definition gather_plan :: ldp_plan where
  "gather_plan =
     \<lparr>query_id = QueryId ''q'', coordinator = WorkerId ''a'',
      stages = [(stage_new (StageId 0) ''scan'')\<lparr>target_workers := [WorkerId ''a'', WorkerId ''b''], inputs := [LocalCatalog]\<rparr>,
        (stage_new (StageId 1) ''read'')\<lparr>target_workers := [WorkerId ''a''], inputs := [ExchangeInput (ExchangeId 0) ''x'']\<rparr>],
      edges = [\<lparr>edge_id = ExchangeId 0, kind = Gather (WorkerId ''a''), from_stage = StageId 0, to_stage = StageId 1,
        partition_to_worker = []\<rparr>],
      root_stage = StageId 1\<rparr>"

definition two_databases :: "record_batch list coordinator_state" where
  "two_databases =
     register_worker_database (WorkerId ''a'') \<lparr>ses_catalog = [one_cell 1], ses_temps = Map.empty\<rparr>
     (register_worker_database (WorkerId ''b'') \<lparr>ses_catalog = [one_cell 2], ses_temps = Map.empty\<rparr>
     (coordinator_new coordinator_config_default))"

lemma sample_order_law: "input_order_law sample_env"
  unfolding input_order_law_def
proof (intro allI impI)
  fix m :: tables assume fin: "finite (dom m)"
  then have "set (ascending_inputs m) = Map.graph m" by (force simp: ascending_inputs_def Map.graph_def)
  moreover have "distinct (map fst (ascending_inputs m))" by (simp add: ascending_inputs_def comp_def)
  ultimately show "set (env_input_order sample_env m) = Map.graph m \<and> distinct (map fst (env_input_order sample_env m))"
    by (simp add: sample_env_def)
qed

lemma gather_levels: "compute_execution_levels ascending_order gather_plan = Inr [[StageId 0], [StageId 1]]"
proof -
  have deg: "count_in_degrees gather_plan = [StageId 0 \<mapsto> 0, StageId 1 \<mapsto> 1]"
    by (simp add: count_in_degrees_def gather_plan_def stage_new_def)
  have "stage_index ` {StageId 0, StageId 1} = {0..<2}" by (auto simp: stage_index_def)
  then have order: "ascending_order [StageId 0 \<mapsto> 0, StageId 1 \<mapsto> 1] = [(StageId 0, 0), (StageId 1, 1)]"
    by (simp add: ascending_order_def insert_commute numeral_2_eq_2)
  show ?thesis
    unfolding compute_execution_levels_def deg order Let_def
    by (simp add: levels_loop.simps gather_plan_def stage_new_def)
qed

lemmas first_attempt = execute_stage_with_retry_def [unfolded attempt_stage.simps(2)]

lemma gather_runs:
  "\<exists>co' ex. execute_local sample_env ascending_order (\<lambda>_. []) gather_plan ''q'' two_databases =
     (co', ex, Inr ([one_cell 1, one_cell 2], [WorkerId ''a'', WorkerId ''b'']))"
  unfolding execute_local_def gather_levels Let_def
  by (simp add: gather_plan_def run_local_stage_def get_stage_def stage_new_def
    has_exchange_inputs_def resolve_inputs_def resolve_inputs_for_worker_def resolve_inputs_with_def exchange_stopped_def
    two_databases_def register_worker_database_def coordinator_new_def executor_with_databases_def
    first_attempt submit_stage_def execute_sql_with_monitor_def run_on_worker_def run_sql_with_inputs_def
    sample_env_def ascending_inputs_def check_limits_def check_output_limits_def monitor_new_def
    increment_bytes_produced_def increment_rows_produced_def total_num_bytes_def total_num_rows_def num_rows_def one_cell_def
    stage_limits_default_def worker_tickets_def tickets_new_def tickets_add_def store_output_def ticket_new_def
    set_stage_status_def push_new_def execute_exchange_for_worker_def execute_gather_def fetch_all_def fetch_output_def
    or_empty_schema_def fetch_root_def show_u32_def show_nat.simps digit_char_def Let_def coordinator_config_default_def)


end
