(* ===== verification/Spec2Isabelle.thy ===== *)
theory Spec2Isabelle
  imports Local_Execution
begin

text \<open>
  Verification of the query path of the leibrix worker: from the text of a query to the
  batches of its answer.

  \<^bold>\<open>The program.\<close> A query first passes admission control and is rewritten: references to
  registered datasets become calls of scan macros with a date range (\<^verbatim>\<open>sql/\<close>). The planner
  (\<^verbatim>\<open>ldp/planner/\<close>) parses the result, builds a logical plan, annotates it bottom-up with
  distributions and statistics, inserts exchanges where an operator requires another
  distribution, and cuts the tree at the exchanges into stages with SQL text and target
  workers. The executor (\<^verbatim>\<open>ldp/executor/\<close>) runs the stages level by level, and moves batches
  between them by gathering, broadcasting or hash partitioning. Plans and stage requests
  travel as protocol buffers (\<^verbatim>\<open>ldp/proto_convert.rs\<close>). All paths here are below
  \<^verbatim>\<open>src/src/worker-storage/src\<close>.

  \<^bold>\<open>Base.\<close> \<open>Prelude\<close> and \<open>Rust_Text\<close> hold the integers, results and strings of Rust;
  \<open>Float64\<close> and \<open>Float64_Arith\<close> hold \<open>f64\<close>; \<open>Sql_Ast\<close> the nodes of the sqlparser crate that
  the code inspects, and \<open>Sql_Walk\<close> what the walks over them share; \<open>Arrow_Batch\<close> record batches.

  \<^bold>\<open>Rewriting.\<close>
  \<^item> \<open>Interval\<close> models \<^verbatim>\<open>sql/interval.rs\<close> and \<^verbatim>\<open>sql/types.rs\<close>, \<open>Boolean_Analyzer\<close> models
    \<^verbatim>\<open>sql/boolean_analyzer.rs\<close>: the interval of a condition contains every row that satisfies
    it (and a parameter bound loses rows).
  \<^item> \<open>Discovery\<close>, \<open>Transformer\<close> and \<open>Rewriting\<close> are \<^verbatim>\<open>sql/discovery.rs\<close> and
    \<^verbatim>\<open>sql/transformer.rs\<close>: after rewriting no reference to a dataset is left; a condition
    of the outer query also restricts the same dataset inside a subquery.
  \<^item> \<open>Admission\<close> is \<^verbatim>\<open>sql/admission.rs\<close>: which queries are refused, and that tables of
    subqueries in conditions are not looked at.

  \<^bold>\<open>Planning.\<close>
  \<^item> \<open>Logical_Plan\<close>, \<open>Plan_Builder\<close> and \<open>Built_Plans\<close> are \<^verbatim>\<open>sql/logical_plan.rs\<close> and
    \<^verbatim>\<open>sql/plan_builder.rs\<close>: the shape of the built plans, the soundness of join and window
    keys, and when the expansion of common table expressions ends.
  \<^item> \<open>Ldp_Types\<close> and \<open>Plan_Graph\<close> are \<^verbatim>\<open>ldp/types.rs\<close>, with Kahn's algorithm.
  \<^item> \<open>Storage_Types\<close> and \<open>Metadata\<close> are \<^verbatim>\<open>engine/storage_engine.rs\<close> (values only),
    \<^verbatim>\<open>ldp/planner/metadata.rs\<close> and \<^verbatim>\<open>ldp/planner/storage_metadata.rs\<close>: epoch pruning is
    exact, scan statistics are faithful, a refresh is complete. The locale \<open>epoch_directory\<close> is
    the contract that both providers implement.
  \<^item> \<open>Planner_Policy\<close>, \<open>Requirements\<close>, \<open>Exchange_Select\<close> and \<open>Annotate\<close> are the files of the
    same names: the annotated plan satisfies every requirement outside one gap, exchanges
    stay within the limits of the policy, and rejections are justified.
  \<^item> \<open>Stage_Sql\<close>, \<open>Stage_Cut\<close>, \<open>Stage_Graph\<close> and \<open>Stage_Reads\<close> are \<^verbatim>\<open>sql/stage_sql_gen.rs\<close> and
    \<^verbatim>\<open>ldp/planner/cut.rs\<close>: cutting never indexes out of range, the stages form a tree, every
    stage and every partition has a worker, inputs and edges correspond, and the stage SQL
    is what the reference grammar derives. The locale \<open>id_counter\<close> is the contract of the
    stage and exchange counters.
  \<^item> \<open>Pipeline\<close> composes them as \<open>plan_ldp\<close> does: plans are executable, and no input panics.
  \<^item> \<open>Proto_Convert\<close> is \<^verbatim>\<open>ldp/proto_convert.rs\<close>: plans and stage requests survive the wire.

  \<^bold>\<open>Execution.\<close>
  \<^item> \<open>Hash_Partition\<close> is the partitioning of \<^verbatim>\<open>exchange.rs\<close> and all of \<^verbatim>\<open>skew.rs\<close>: without skew
    it refines a reference partition of the rows; with skew it loses rows.
  \<^item> \<open>Exchange_Runtime\<close> models the two exchange runtimes of \<^verbatim>\<open>exchange.rs\<close>: a hash exchange
    delivers every row to exactly one worker.
  \<^item> \<open>Execution_Levels\<close> is the level computation of \<^verbatim>\<open>coordinator.rs\<close>.
  \<^item> \<open>Stage_Executor\<close> is \<^verbatim>\<open>monitor.rs\<close> and the local executor of \<^verbatim>\<open>stage.rs\<close>; \<open>Coordinator\<close> is
    the state, cancellation, retries and local execution of \<^verbatim>\<open>coordinator.rs\<close>;
    \<open>Local_Execution\<close> shows that a successful run solves the data flow equations of the plan.

  \<^bold>\<open>Conventions.\<close> A struct is a record, an enum a datatype, \<open>u32\<close> and \<open>u64\<close> are words of their
  width, \<open>usize\<close> is \<open>nat\<close>, a \<open>Result\<close> is a sum, and a panic is a value of its own. State is
  passed explicitly. What Rust leaves open is an argument: the iteration order of a hash map
  or set and the algorithm of the hasher. Code of other crates is an argument too, with the
  documented behaviour as a named hypothesis: sqlparser (\<open>sql_parser\<close>, \<open>sql_display\<close>), chrono
  (\<open>calendar_laws\<close>), prost (\<open>prost_law\<close>), arrow (\<open>arrow_law\<close>, \<open>ipc_law\<close>), DuckDB (\<open>local_env\<close>).
  Unicode case folding is modelled on ASCII.

  \<^bold>\<open>Bounds.\<close> The plan builder follows references to common table expressions without a bound
  of its own; the model counts them down from an argument \<open>depth\<close>, and a theorem gives a depth
  that suffices when the references are not cyclic. The statements on stage numbers assume
  fewer than \<open>2 ^ 32 - 1\<close> exchanges, which a query of less than \<open>2 ^ 30\<close> operators satisfies.
  All other loops are total functions. The stages of a level are joined futures; the model
  runs them one after the other in an arbitrary order of the level.

  \<^bold>\<open>Not modelled.\<close> The distributed and the streaming execution of the coordinator, the Flight
  executor, service and server, the control plane client, the loaders and the command line
  are concurrent network I/O around third-party clients. The DuckDB engine consists of calls
  of DuckDB. Metrics and performance advice do not influence results. The result store
  is a map with expiry by the clock that only the Flight service uses. Adaptive partitioning has no caller. The generated
  protocol code is modelled as far as the LDP messages go. The trace output of the plan
  inspector, the configuration builders of the coordinator and its query entry points with
  time-outs and statistics are left out.
\<close>

end
